theory Spec2Isabelle
  imports Main "HOL-Library.Word"
begin

unbundle bit_operations_syntax

section \<open>Decimal text of integers (snprintf "%ld", strtol)\<close>

text \<open>
  The C library calls the code relies on. \<open>fmt_ld\<close> is snprintf with "%ld" (and
  "%lld", "%d": the same text for the same number); \<open>strtol_range\<close> is strtol and
  strtoll in base 10 between the bounds of the result type: white space is skipped, one sign
  is accepted, the digits are read, the value is clamped to the range; with no digit the
  value is 0 and the end pointer is the start of the string. The string it reads ends at
  the first NUL byte. The second component is the text from the end pointer on.
\<close>

definition digit_char :: "nat \<Rightarrow> char" where
  "digit_char d = ''0123456789'' ! d"

fun digits :: "nat \<Rightarrow> string" where
  "digits n = (if n < 10 then [digit_char n] else digits (n div 10) @ [digit_char (n mod 10)])"

declare digits.simps [simp del]

definition fmt_ld :: "int \<Rightarrow> string" where
  "fmt_ld v = (if v < 0 then CHR ''-'' # digits (nat (- v)) else digits (nat v))"

definition isdigit :: "char \<Rightarrow> bool" where
  "isdigit c = (48 \<le> (of_char c :: nat) \<and> (of_char c :: nat) \<le> 57)"

definition isspace :: "char \<Rightarrow> bool" where
  "isspace c = ((of_char c :: nat) = 32 \<or> (9 \<le> (of_char c :: nat) \<and> (of_char c :: nat) \<le> 13))"

fun strtol_digits :: "string \<Rightarrow> nat \<Rightarrow> nat \<times> string" where
  "strtol_digits [] acc = (acc, [])"
| "strtol_digits (c # cs) acc =
     (if isdigit c then strtol_digits cs (acc * 10 + ((of_char c :: nat) - 48)) else (acc, c # cs))"

definition cstring :: "string \<Rightarrow> string" where
  "cstring s = takeWhile (\<lambda>c. (of_char c :: nat) \<noteq> 0) s"

definition strtol_range :: "int \<Rightarrow> int \<Rightarrow> string \<Rightarrow> int \<times> string" where
  "strtol_range lo hi s =
     (let s0 = cstring s;
          s1 = dropWhile isspace s0;
          (neg, s2) = (case s1 of
                         [] \<Rightarrow> (False, s1)
                       | c # r \<Rightarrow> if c = CHR ''-'' then (True, r)
                                  else if c = CHR ''+'' then (False, r) else (False, s1))
      in case s2 of
           [] \<Rightarrow> (0, s0)
         | c # _ \<Rightarrow>
             if \<not> isdigit c then (0, s0)
             else (let (n, rest) = strtol_digits s2 0;
                       v = (if neg then - int n else int n)
                   in (max lo (min hi v), rest)))"

definition strtol :: "string \<Rightarrow> int \<times> string" where
  "strtol = strtol_range (- (2 ^ 63)) (2 ^ 63 - 1)"

definition strtoll :: "string \<Rightarrow> int \<times> string" where
  "strtoll = strtol_range (- (2 ^ 63)) (2 ^ 63 - 1)"

section \<open>String objects and their encodings (redis.c)\<close>

text \<open>
  A string object is raw bytes (REDIS_ENCODING_RAW) or a long kept in the pointer slot
  (REDIS_ENCODING_INT).
\<close>

datatype sobj = Raw string | IntEnc int

fun getDecodedObject :: "sobj \<Rightarrow> string" where
  "getDecodedObject (Raw s) = s"
| "getDecodedObject (IntEnc n) = fmt_ld n"

definition isStringRepresentableAsLong :: "string \<Rightarrow> int option" where
  "isStringRepresentableAsLong s =
     (let (v, rest) = strtol s
      in if rest \<noteq> [] then None
         else (let buf = fmt_ld v
               in if length s \<noteq> length buf \<or> take (length buf) s \<noteq> buf then None
                  else Some v))"

text \<open>tryObjectEncoding on an object that is not shared (refcount 1).\<close>

fun tryObjectEncoding :: "sobj \<Rightarrow> sobj" where
  "tryObjectEncoding (IntEnc n) = IntEnc n"
| "tryObjectEncoding (Raw s) =
     (case isStringRepresentableAsLong s of None \<Rightarrow> Raw s | Some v \<Rightarrow> IntEnc v)"

declare tryObjectEncoding.simps [simp del]

section \<open>Keyspace and expiry (redis.c)\<close>

text \<open>
  A key is a string object compared by its bytes. A redisDb holds the main dictionary
  \<open>dict\<close> and the dictionary \<open>expires\<close> from keys to absolute unix times.
  A dictionary (dict.c) is modelled by the list of its entries, the most recently added
  first; the operations below follow dictAdd, dictReplace, dictDelete, dictFind and
  dictSize. A time (time_t) is an integer in the range of a 64 bit long; the sums and
  differences that redis.c computes on times are cut to that range (\<open>long_wrap\<close> below).
\<close>

type_synonym key = string

text \<open>
  A zipmap (zipmap.c) is one byte buffer: a status byte, a sequence of blocks and the end
  byte 255. A block is an entry, that is the length of the key, the key, the length of the
  value, a byte \<open>free\<close>, the value and \<open>free\<close> unused bytes, or it is an empty block,
  the byte 254 followed by the length of the whole block. The model keeps the blocks in the
  order of the buffer: an entry with its key, its value and the number of its unused bytes,
  an empty block with its length.
\<close>

datatype zblock = ZEntry string string nat | ZEmpty nat

type_synonym zipmap = "zblock list"

text \<open>
  The payload of a hash: a zipmap, or a hash table from string objects to string objects.
\<close>

datatype hashval =
    ZIPMAP zipmap
  | HT "(sobj \<times> sobj) list"

datatype robj =
    StringObj sobj
  | ListObj "string list"
  | SetObj "string list"
  | HashObj hashval

datatype rtype = REDIS_STRING | REDIS_LIST | REDIS_SET | REDIS_HASH

fun obj_type :: "robj \<Rightarrow> rtype" where
  "obj_type (StringObj _) = REDIS_STRING"
| "obj_type (ListObj _) = REDIS_LIST"
| "obj_type (SetObj _) = REDIS_SET"
| "obj_type (HashObj _) = REDIS_HASH"

type_synonym ('k, 'v) dict = "('k \<times> 'v) list"

definition dictFind :: "('k, 'v) dict \<Rightarrow> 'k \<Rightarrow> 'v option" where
  "dictFind d k = map_of d k"

definition dictSize :: "('k, 'v) dict \<Rightarrow> nat" where
  "dictSize d = length d"

text \<open>dictAdd: DICT_ERR (False) when the key is already there, else a new entry.\<close>

definition dictAdd :: "('k, 'v) dict \<Rightarrow> 'k \<Rightarrow> 'v \<Rightarrow> bool \<times> ('k, 'v) dict" where
  "dictAdd d k v = (if dictFind d k \<noteq> None then (False, d) else (True, (k, v) # d))"

text \<open>dictDelete: DICT_OK (True) when an entry was found and removed.\<close>

definition dictDelete :: "('k, 'v) dict \<Rightarrow> 'k \<Rightarrow> bool \<times> ('k, 'v) dict" where
  "dictDelete d k =
     (if dictFind d k = None then (False, d) else (True, filter (\<lambda>e. fst e \<noteq> k) d))"

text \<open>dictReplace: 1 (True) when the key was added, 0 when its value was overwritten.\<close>

definition dictReplace :: "('k, 'v) dict \<Rightarrow> 'k \<Rightarrow> 'v \<Rightarrow> bool \<times> ('k, 'v) dict" where
  "dictReplace d k v =
     (case dictAdd d k v of
        (True, d') \<Rightarrow> (True, d')
      | (False, _) \<Rightarrow> (False, map (\<lambda>e. if fst e = k then (k, v) else e) d))"

record redisDb =
  dict :: "(key, robj) dict"
  expires :: "(key, int) dict"

definition emptyDb :: redisDb where
  "emptyDb = \<lparr>dict = [], expires = []\<rparr>"

subsection \<open>deleteKey, removeExpire, setExpire, getExpire\<close>

definition deleteKey :: "redisDb \<Rightarrow> key \<Rightarrow> bool \<times> redisDb" where
  "deleteKey db k =
     (let ex = (if dictSize (expires db) \<noteq> 0 then snd (dictDelete (expires db) k)
                else expires db);
          (retval, d) = dictDelete (dict db) k
      in (retval, db\<lparr>dict := d, expires := ex\<rparr>))"

definition removeExpire :: "redisDb \<Rightarrow> key \<Rightarrow> bool \<times> redisDb" where
  "removeExpire db k =
     (case dictDelete (expires db) k of
        (True, ex) \<Rightarrow> (True, db\<lparr>expires := ex\<rparr>)
      | (False, _) \<Rightarrow> (False, db))"

definition setExpire :: "redisDb \<Rightarrow> key \<Rightarrow> int \<Rightarrow> bool \<times> redisDb" where
  "setExpire db k when =
     (case dictAdd (expires db) k when of
        (False, _) \<Rightarrow> (False, db)
      | (True, ex) \<Rightarrow> (True, db\<lparr>expires := ex\<rparr>))"

text \<open>getExpire: -1 stands for no expire.\<close>

definition getExpire :: "redisDb \<Rightarrow> key \<Rightarrow> int" where
  "getExpire db k =
     (if dictSize (expires db) = 0 then -1
      else case dictFind (expires db) k of None \<Rightarrow> -1 | Some when \<Rightarrow> when)"

subsection \<open>expireIfNeeded, deleteIfVolatile and the lookups\<close>

text \<open>The argument \<open>now\<close> is the value read from time(NULL).\<close>

definition expireIfNeeded :: "int \<Rightarrow> redisDb \<Rightarrow> key \<Rightarrow> bool \<times> redisDb" where
  "expireIfNeeded now db k =
     (if dictSize (expires db) = 0 then (False, db)
      else case dictFind (expires db) k of
        None \<Rightarrow> (False, db)
      | Some when \<Rightarrow>
          if now \<le> when then (False, db)
          else (let ex = snd (dictDelete (expires db) k);
                    (r, d) = dictDelete (dict db) k
                in (r, db\<lparr>dict := d, expires := ex\<rparr>)))"

definition deleteIfVolatile :: "redisDb \<Rightarrow> key \<Rightarrow> bool \<times> redisDb" where
  "deleteIfVolatile db k =
     (if dictSize (expires db) = 0 then (False, db)
      else case dictFind (expires db) k of
        None \<Rightarrow> (False, db)
      | Some _ \<Rightarrow>
          (let ex = snd (dictDelete (expires db) k);
               (r, d) = dictDelete (dict db) k
           in (r, db\<lparr>dict := d, expires := ex\<rparr>)))"

text \<open>lookupKey with the virtual memory subsystem off (server.vm_enabled = 0, the default).\<close>

definition lookupKey :: "redisDb \<Rightarrow> key \<Rightarrow> robj option" where
  "lookupKey db k = dictFind (dict db) k"

definition lookupKeyRead :: "int \<Rightarrow> redisDb \<Rightarrow> key \<Rightarrow> robj option \<times> redisDb" where
  "lookupKeyRead now db k =
     (let db' = snd (expireIfNeeded now db k) in (lookupKey db' k, db'))"

definition lookupKeyWrite :: "redisDb \<Rightarrow> key \<Rightarrow> robj option \<times> redisDb" where
  "lookupKeyWrite db k =
     (let db' = snd (deleteIfVolatile db k) in (lookupKey db' k, db'))"

subsection \<open>Replies\<close>

text \<open>
  The reply queue of a client is the list of the objects handed to addReply, oldest first;
  the bytes sent are their concatenation. The shared reply objects of createSharedObjects:
\<close>

definition crlf :: string where
  "crlf = [CHR 0x0D, CHR 0x0A]"

definition shared_ok :: string where "shared_ok = ''+OK'' @ crlf"
definition shared_czero :: string where "shared_czero = '':0'' @ crlf"
definition shared_cone :: string where "shared_cone = '':1'' @ crlf"
definition shared_nullbulk :: string where "shared_nullbulk = ''$-1'' @ crlf"
definition shared_nokeyerr :: string where "shared_nokeyerr = ''-ERR no such key'' @ crlf"
definition shared_sameobjecterr :: string where
  "shared_sameobjecterr = ''-ERR source and destination objects are the same'' @ crlf"
definition shared_wrongtypeerr :: string where
  "shared_wrongtypeerr = ''-ERR Operation against a key holding the wrong kind of value'' @ crlf"

text \<open>addReplyBulk: the length line, the decoded object, CRLF.\<close>

definition addReplyBulk :: "string \<Rightarrow> string list" where
  "addReplyBulk s = [''$'' @ digits (length s) @ crlf, s, crlf]"

text \<open>addReplyLong and addReplyUlong.\<close>

definition addReplyLong :: "int \<Rightarrow> string list" where
  "addReplyLong l =
     (if l = 0 then [shared_czero] else if l = 1 then [shared_cone]
      else ['':'' @ fmt_ld l @ crlf])"

text \<open>The cast (int) of a time_t difference: the low 32 bits, read as signed.\<close>

definition int_cast :: "int \<Rightarrow> int" where
  "int_cast x = sint (word_of_int x :: 32 word)"

text \<open>
  A sum or difference of two values of the type time_t or long, as the machine computes it:
  the low 64 bits, read as signed.
\<close>

definition long_wrap :: "int \<Rightarrow> int" where
  "long_wrap x = sint (word_of_int x :: 64 word)"

subsection \<open>EXPIRE, EXPIREAT, TTL\<close>

definition expireGenericCommand :: "int \<Rightarrow> redisDb \<Rightarrow> key \<Rightarrow> int \<Rightarrow> string list \<times> redisDb" where
  "expireGenericCommand now db k seconds =
     (case dictFind (dict db) k of
        None \<Rightarrow> ([shared_czero], db)
      | Some _ \<Rightarrow>
          if seconds < 0 then ([shared_cone], snd (deleteKey db k))
          else (let when = long_wrap (now + seconds)
                in case setExpire db k when of
                     (True, db') \<Rightarrow> ([shared_cone], db')
                   | (False, db') \<Rightarrow> ([shared_czero], db')))"

definition expireCommand :: "int \<Rightarrow> redisDb \<Rightarrow> key \<Rightarrow> string \<Rightarrow> string list \<times> redisDb" where
  "expireCommand now db k arg = expireGenericCommand now db k (fst (strtol arg))"

text \<open>
  expireatCommand reads the clock once for the argument (\<open>now1\<close>) and
  expireGenericCommand reads it again (\<open>now2\<close>). The difference and the sum are
  computed in 64 bits.
\<close>

definition expireatCommand ::
  "int \<Rightarrow> int \<Rightarrow> redisDb \<Rightarrow> key \<Rightarrow> string \<Rightarrow> string list \<times> redisDb" where
  "expireatCommand now1 now2 db k arg =
     expireGenericCommand now2 db k (long_wrap (fst (strtol arg) - now1))"

definition ttl_value :: "int \<Rightarrow> redisDb \<Rightarrow> key \<Rightarrow> int" where
  "ttl_value now db k =
     (let expire = getExpire db k
      in if expire \<noteq> -1
         then (let ttl = int_cast (expire - now) in if ttl < 0 then -1 else ttl)
         else -1)"

definition ttlCommand :: "int \<Rightarrow> redisDb \<Rightarrow> key \<Rightarrow> string list" where
  "ttlCommand now db k = ['':'' @ fmt_ld (ttl_value now db k) @ crlf]"

subsection \<open>SET, SETNX, GET, GETSET, DEL, RENAME, FLUSHDB\<close>

definition setGenericCommand :: "redisDb \<Rightarrow> key \<Rightarrow> sobj \<Rightarrow> bool \<Rightarrow> string list \<times> redisDb" where
  "setGenericCommand db0 k v nx =
     (let db = (if nx then snd (deleteIfVolatile db0 k) else db0)
      in case dictAdd (dict db) k (StringObj v) of
           (False, _) \<Rightarrow>
             if \<not> nx
             then (let db1 = db\<lparr>dict := snd (dictReplace (dict db) k (StringObj v))\<rparr>
                   in ([shared_ok], snd (removeExpire db1 k)))
             else ([shared_czero], db)
         | (True, d) \<Rightarrow>
             (let db1 = db\<lparr>dict := d\<rparr>
              in ([if nx then shared_cone else shared_ok], snd (removeExpire db1 k))))"

definition setCommand :: "redisDb \<Rightarrow> key \<Rightarrow> sobj \<Rightarrow> string list \<times> redisDb" where
  "setCommand db k v = setGenericCommand db k v False"

definition setnxCommand :: "redisDb \<Rightarrow> key \<Rightarrow> sobj \<Rightarrow> string list \<times> redisDb" where
  "setnxCommand db k v = setGenericCommand db k v True"

text \<open>getGenericCommand: the flag is REDIS_OK (True) or REDIS_ERR (False).\<close>

definition getGenericCommand :: "int \<Rightarrow> redisDb \<Rightarrow> key \<Rightarrow> bool \<times> string list \<times> redisDb" where
  "getGenericCommand now db k =
     (case lookupKeyRead now db k of
        (None, db') \<Rightarrow> (True, [shared_nullbulk], db')
      | (Some (StringObj v), db') \<Rightarrow> (True, addReplyBulk (getDecodedObject v), db')
      | (Some _, db') \<Rightarrow> (False, [shared_wrongtypeerr], db'))"

definition getsetCommand :: "int \<Rightarrow> redisDb \<Rightarrow> key \<Rightarrow> sobj \<Rightarrow> string list \<times> redisDb" where
  "getsetCommand now db0 k v =
     (case getGenericCommand now db0 k of
        (False, r, db) \<Rightarrow> (r, db)
      | (True, r, db) \<Rightarrow>
          (let d = (case dictAdd (dict db) k (StringObj v) of
                      (False, _) \<Rightarrow> snd (dictReplace (dict db) k (StringObj v))
                    | (True, d') \<Rightarrow> d')
           in (r, snd (removeExpire (db\<lparr>dict := d\<rparr>) k))))"

fun delKeys :: "redisDb \<Rightarrow> key list \<Rightarrow> nat \<Rightarrow> nat \<times> redisDb" where
  "delKeys db [] deleted = (deleted, db)"
| "delKeys db (k # ks) deleted =
     (case deleteKey db k of
        (True, db') \<Rightarrow> delKeys db' ks (deleted + 1)
      | (False, db') \<Rightarrow> delKeys db' ks deleted)"

definition delCommand :: "redisDb \<Rightarrow> key list \<Rightarrow> string list \<times> redisDb" where
  "delCommand db ks = (case delKeys db ks 0 of (n, db') \<Rightarrow> (addReplyLong (int n), db'))"

definition renameGenericCommand :: "redisDb \<Rightarrow> key \<Rightarrow> key \<Rightarrow> bool \<Rightarrow> string list \<times> redisDb" where
  "renameGenericCommand db0 src dst nx =
     (if src = dst then ([shared_sameobjecterr], db0)
      else case lookupKeyWrite db0 src of
             (None, db1) \<Rightarrow> ([shared_nokeyerr], db1)
           | (Some o', db1) \<Rightarrow>
               (let db2 = snd (deleteIfVolatile db1 dst)
                in case dictAdd (dict db2) dst o' of
                     (False, _) \<Rightarrow>
                       if nx then ([shared_czero], db2)
                       else (let db3 = db2\<lparr>dict := snd (dictReplace (dict db2) dst o')\<rparr>
                             in ([shared_ok], snd (deleteKey db3 src)))
                   | (True, d) \<Rightarrow>
                       ([if nx then shared_cone else shared_ok],
                        snd (deleteKey (db2\<lparr>dict := d\<rparr>) src))))"

definition flushdbCommand :: "redisDb \<Rightarrow> string list \<times> redisDb" where
  "flushdbCommand db = ([shared_ok], db\<lparr>dict := [], expires := []\<rparr>)"

text \<open>
  incrDecrCommand. The sum is a long long: it is cut to 64 bits, as the machine does.
\<close>

definition incrDecrCommand :: "redisDb \<Rightarrow> key \<Rightarrow> int \<Rightarrow> string list \<times> redisDb" where
  "incrDecrCommand db0 k incr =
     (case lookupKeyWrite db0 k of
        (o', db) \<Rightarrow>
          (let value = (case o' of
                          None \<Rightarrow> 0
                        | Some (StringObj (Raw s)) \<Rightarrow> fst (strtoll s)
                        | Some (StringObj (IntEnc n)) \<Rightarrow> n
                        | Some _ \<Rightarrow> 0);
               value' = sint (word_of_int (value + incr) :: 64 word);
               obj = tryObjectEncoding (Raw (fmt_ld value'));
               db' = (case dictAdd (dict db) k (StringObj obj) of
                        (False, _) \<Rightarrow>
                          snd (removeExpire (db\<lparr>dict := snd (dictReplace (dict db) k (StringObj obj))\<rparr>) k)
                      | (True, d) \<Rightarrow> db\<lparr>dict := d\<rparr>)
           in (['':'', getDecodedObject obj, crlf], db')))"

definition incrCommand :: "redisDb \<Rightarrow> key \<Rightarrow> string list \<times> redisDb" where
  "incrCommand db k = incrDecrCommand db k 1"

subsection \<open>The active expiry cycle of serverCron\<close>

text \<open>
  dictGetRandomKey returns NULL on an empty dictionary and otherwise some entry chosen with
  random(); the choice is given here by a number \<open>r\<close>, the entry being the one at
  position \<open>r mod size\<close>. The numbers come from a sequence \<open>rnd\<close>, read at the
  index \<open>i\<close>, which counts the draws.
\<close>

definition dictGetRandomKey :: "('k, 'v) dict \<Rightarrow> nat \<Rightarrow> ('k \<times> 'v) option" where
  "dictGetRandomKey d r = (if d = [] then None else Some (d ! (r mod length d)))"

definition REDIS_EXPIRELOOKUPS_PER_CRON :: nat where
  "REDIS_EXPIRELOOKUPS_PER_CRON = 100"

text \<open>
  The inner loop \<open>while (num--)\<close>: the result is the database, the counter
  \<open>expired\<close> and the index of the next draw.
\<close>

fun expireLookups :: "nat \<Rightarrow> int \<Rightarrow> (nat \<Rightarrow> nat) \<Rightarrow> nat \<Rightarrow> redisDb \<Rightarrow> nat \<Rightarrow> redisDb \<times> nat \<times> nat" where
  "expireLookups 0 now rnd i db expired = (db, expired, i)"
| "expireLookups (Suc num) now rnd i db expired =
     (case dictGetRandomKey (expires db) (rnd i) of
        None \<Rightarrow> (db, expired, i)
      | Some (k, t) \<Rightarrow>
          if now > t then expireLookups num now rnd (Suc i) (snd (deleteKey db k)) (expired + 1)
          else expireLookups num now rnd (Suc i) db expired)"

text \<open>
  The do-while loop for one database. \<open>clock r\<close> is the time read at the start of round
  \<open>r\<close>. The result is the database, the number of rounds run and the index of the
  next draw.
\<close>

function expireCycle :: "(nat \<Rightarrow> int) \<Rightarrow> (nat \<Rightarrow> nat) \<Rightarrow> nat \<Rightarrow> nat \<Rightarrow> redisDb \<Rightarrow> redisDb \<times> nat \<times> nat" where
  "expireCycle clock rnd r i db =
     (let num0 = dictSize (expires db);
          now = clock r;
          num = (if num0 > REDIS_EXPIRELOOKUPS_PER_CRON then REDIS_EXPIRELOOKUPS_PER_CRON else num0)
      in case expireLookups num now rnd i db 0 of
           (db', expired, i') \<Rightarrow>
             if expired > REDIS_EXPIRELOOKUPS_PER_CRON div 4
             then expireCycle clock rnd (Suc r) i' db'
             else (db', Suc r, i'))"
  by pat_completeness auto
termination
proof (relation "measure (\<lambda>(clock, rnd, r, i, db). length (expires db))", goal_cases)
  case 1
  show ?case by simp
next
  case (2 clock rnd r i db num0 now num db' rest expired i')
  have del: "length (expires (snd (deleteKey d k))) < length (expires d)"
    if "(k, t) \<in> set (expires d)" for d :: redisDb and k t
  proof -
    have m: "map_of (expires d) k \<noteq> None"
      using that by (metis map_of_eq_None_iff fst_conv image_eqI)
    have "length (filter (\<lambda>e. fst e \<noteq> k) (expires d)) < length (expires d)"
      using that by (intro length_filter_less [of "(k, t)"]) auto
    moreover have "expires d \<noteq> []" using that by auto
    ultimately show ?thesis
      using m by (auto simp: deleteKey_def dictDelete_def dictFind_def dictSize_def Let_def split: prod.splits)
  qed
  have loop: "length (expires (fst (expireLookups n t rnd j d e))) + fst (snd (expireLookups n t rnd j d e))
              \<le> length (expires d) + e" for n t j d e
  proof (induction n arbitrary: j d e)
    case 0
    show ?case by simp
  next
    case (Suc n)
    show ?case
    proof (cases "dictGetRandomKey (expires d) (rnd j)")
      case None
      then show ?thesis by simp
    next
      case (Some kt)
      obtain k w where kt: "kt = (k, w)" by (cases kt)
      have ne: "expires d \<noteq> []" and nth: "expires d ! (rnd j mod length (expires d)) = (k, w)"
        using Some kt by (auto simp: dictGetRandomKey_def split: if_splits)
      have "rnd j mod length (expires d) < length (expires d)"
        using ne by simp
      then have mem: "(k, w) \<in> set (expires d)"
        using nth nth_mem by metis
      show ?thesis
      proof (cases "t > w")
        case True
        have "length (expires (fst (expireLookups n t rnd (Suc j) (snd (deleteKey d k)) (e + 1))))
              + fst (snd (expireLookups n t rnd (Suc j) (snd (deleteKey d k)) (e + 1)))
              \<le> length (expires (snd (deleteKey d k))) + (e + 1)"
          by (rule Suc.IH)
        with del [OF mem] True Some kt show ?thesis by simp
      next
        case False
        with Suc.IH [of "Suc j" d e] Some kt show ?thesis by simp
      qed
    qed
  qed
  have eq: "expireLookups num now rnd i db 0 = (db', expired, i')"
    using 2(4) [symmetric] 2(5) [symmetric] by simp
  have "25 < expired"
    using 2(6) by (simp add: REDIS_EXPIRELOOKUPS_PER_CRON_def)
  with loop [of num now i db 0] eq show ?case by simp
qed

declare expireCycle.simps [simp del]

text \<open>The loop over the databases of the server.\<close>

fun expireCycleDbs :: "(nat \<Rightarrow> int) \<Rightarrow> (nat \<Rightarrow> nat) \<Rightarrow> nat \<Rightarrow> nat \<Rightarrow> redisDb list \<Rightarrow> redisDb list" where
  "expireCycleDbs clock rnd r i [] = []"
| "expireCycleDbs clock rnd r i (db # dbs) =
     (case expireCycle clock rnd r i db of
        (db', r', i') \<Rightarrow> db' # expireCycleDbs clock rnd r' i' dbs)"

section \<open>Hashes (redis.c, zipmap.c)\<close>

text \<open>
  The functions of zipmap.c on the blocks of the buffer. A pointer to a block is the index
  of the block. A length below ZIPMAP_BIGLEN is written in one byte, any other length as the
  byte 253 and the four bytes of the unsigned int, the low byte first (the host is little
  endian). The status byte is written by zipmap.c and read by nothing, and is left out.
  Lengths are natural numbers: an argument of a request has at most 1 GiB, so the unsigned
  sums of zipmap.c do not wrap for a key and a value that arrive in a request.
\<close>

definition ZIPMAP_BIGLEN :: nat where
  "ZIPMAP_BIGLEN = 253"

definition ZIPMAP_VALUE_MAX_FREE :: nat where
  "ZIPMAP_VALUE_MAX_FREE = 5"

definition ZIPMAP_LEN_BYTES :: "nat \<Rightarrow> nat" where
  "ZIPMAP_LEN_BYTES l = (if l < ZIPMAP_BIGLEN then 1 else 5)"

definition zipmapNew :: zipmap where
  "zipmapNew = []"

text \<open>The bytes that zipmapEncodeLength writes.\<close>

definition zipmapEncodeLength :: "nat \<Rightarrow> string" where
  "zipmapEncodeLength l =
     (if l < ZIPMAP_BIGLEN then [char_of l]
      else [char_of ZIPMAP_BIGLEN, char_of l, char_of (l div 256), char_of (l div 65536),
            char_of (l div 16777216)])"

text \<open>
  zipmapLookupRaw walks the blocks from the index \<open>p\<close> on. The result is the index of
  the first entry whose key matches, if there is one, and the index and the length of the
  first empty block of at least \<open>reqfreelen\<close> bytes passed on the way (\<open>reqfreelen\<close>
  is 0 when the caller gives no \<open>freelen\<close>). A key is compared with memcmp(p+1,key,l):
  the \<open>l\<close> bytes that follow the first byte of the block, which are the key when its
  length is written in one byte, and the four bytes of the length and the key without its
  last four bytes otherwise.
\<close>

fun zipmapLookupRaw ::
  "zipmap \<Rightarrow> string \<Rightarrow> nat \<Rightarrow> nat \<Rightarrow> (nat \<times> nat) option \<Rightarrow> nat option \<times> (nat \<times> nat) option" where
  "zipmapLookupRaw [] key reqfreelen p free = (None, free)"
| "zipmapLookupRaw (ZEmpty l # zm) key reqfreelen p free =
     zipmapLookupRaw zm key reqfreelen (p + 1)
       (if reqfreelen \<noteq> 0 \<and> l \<ge> reqfreelen \<and> free = None then Some (p, l) else free)"
| "zipmapLookupRaw (ZEntry k v f # zm) key reqfreelen p free =
     (let l = length k
      in if l = length key \<and> take l (tl (zipmapEncodeLength l) @ k) = key then (Some p, free)
         else zipmapLookupRaw zm key reqfreelen (p + 1) free)"

definition zipmapRequiredLength :: "nat \<Rightarrow> nat \<Rightarrow> nat" where
  "zipmapRequiredLength klen vlen =
     klen + vlen + 3 + (if klen \<ge> ZIPMAP_BIGLEN then 4 else 0) + (if vlen \<ge> ZIPMAP_BIGLEN then 4 else 0)"

text \<open>
  The bytes of the key, of the value and of the whole entry at a block; the three functions
  are called on entries only.
\<close>

fun zipmapRawKeyLength :: "zblock \<Rightarrow> nat" where
  "zipmapRawKeyLength (ZEntry k v f) = ZIPMAP_LEN_BYTES (length k) + length k"
| "zipmapRawKeyLength (ZEmpty l) = 0"

fun zipmapRawValueLength :: "zblock \<Rightarrow> nat" where
  "zipmapRawValueLength (ZEntry k v f) = ZIPMAP_LEN_BYTES (length v) + f + 1 + length v"
| "zipmapRawValueLength (ZEmpty l) = 0"

definition zipmapRawEntryLength :: "zblock \<Rightarrow> nat" where
  "zipmapRawEntryLength b = zipmapRawKeyLength b + zipmapRawValueLength b"

fun is_entry :: "zblock \<Rightarrow> bool" where
  "is_entry (ZEntry k v f) = True"
| "is_entry (ZEmpty l) = False"

text \<open>
  The end of zipmapSet: the key and the value are written into the block at \<open>p\<close>, which
  has \<open>freelen\<close> bytes; more than ZIPMAP_VALUE_MAX_FREE bytes left over become an empty
  block behind the entry, fewer stay with the value as its unused bytes.
\<close>

definition zipmapSet_write :: "zipmap \<Rightarrow> nat \<Rightarrow> nat \<Rightarrow> string \<Rightarrow> string \<Rightarrow> zipmap" where
  "zipmapSet_write zm p freelen key val =
     (let reqlen = zipmapRequiredLength (length key) (length val);
          empty = freelen - reqlen
      in if empty > ZIPMAP_VALUE_MAX_FREE
         then take p zm @ [ZEntry key val 0, ZEmpty empty] @ drop (p + 1) zm
         else zm[p := ZEntry key val empty])"

text \<open>
  zipmapSet: the new zipmap and the flag \<open>update\<close>. When the key is not found and no
  empty block is large enough, the buffer is enlarged and the entry written at its end.
  When the key is found in an entry that is too small, the entry is marked as an empty
  block and zipmapSet is called again.
\<close>

function zipmapSet :: "zipmap \<Rightarrow> string \<Rightarrow> string \<Rightarrow> zipmap \<times> bool" where
  "zipmapSet zm key val =
     (let reqlen = zipmapRequiredLength (length key) (length val)
      in case zipmapLookupRaw zm key reqlen 0 None of
           (None, None) \<Rightarrow> (zm @ [ZEntry key val 0], False)
         | (None, Some (freeoff, freelen)) \<Rightarrow> (zipmapSet_write zm freeoff freelen key val, False)
         | (Some p, _) \<Rightarrow>
             (let freelen = zipmapRawEntryLength (zm ! p)
              in if freelen < reqlen
                 then (fst (zipmapSet (zm[p := ZEmpty freelen]) key val), True)
                 else (zipmapSet_write zm p freelen key val, True)))"
  by pat_completeness auto
termination
proof (relation "measure (\<lambda>(zm, key, val). length (filter is_entry zm))")
  show "wf (measure (\<lambda>(zm, key, val). length (filter is_entry zm)))" by simp
next
  fix zm :: zipmap and key val :: string and reqlen p freelen :: nat
    and y :: "(nat \<times> nat) option" and z :: "nat option"
  assume r: "reqlen = zipmapRequiredLength (length key) (length val)"
    and x: "(z, y) = zipmapLookupRaw zm key reqlen 0 None"
    and z: "z = Some p"
    and f: "freelen = zipmapRawEntryLength (zm ! p)" "freelen < reqlen"
  have found: "p0 \<le> q \<and> q - p0 < length bs \<and> is_entry (bs ! (q - p0))"
    if "zipmapLookupRaw bs key reqlen p0 fr = (Some q, fr')" for bs p0 q fr fr'
    using that
  proof (induction bs arbitrary: p0 fr)
    case Nil
    then show ?case by simp
  next
    case (Cons b bs)
    show ?case
    proof (cases b)
      case (ZEmpty l)
      from Cons.prems have "zipmapLookupRaw bs key reqlen (p0 + 1)
          (if reqlen \<noteq> 0 \<and> l \<ge> reqlen \<and> fr = None then Some (p0, l) else fr) = (Some q, fr')"
        by (simp add: ZEmpty)
      from Cons.IH [OF this] show ?thesis by (auto simp: Suc_diff_le)
    next
      case (ZEntry k v f)
      show ?thesis
      proof (cases "length k = length key \<and> take (length k) (tl (zipmapEncodeLength (length k)) @ k) = key")
        case True
        have "zipmapLookupRaw (b # bs) key reqlen p0 fr = (Some p0, fr)"
          unfolding ZEntry zipmapLookupRaw.simps Let_def by (rule if_P [OF True])
        with Cons.prems show ?thesis by (simp add: ZEntry)
      next
        case False
        have "zipmapLookupRaw (b # bs) key reqlen p0 fr = zipmapLookupRaw bs key reqlen (p0 + 1) fr"
          unfolding ZEntry zipmapLookupRaw.simps Let_def by (rule if_not_P [OF False])
        with Cons.prems have "zipmapLookupRaw bs key reqlen (p0 + 1) fr = (Some q, fr')"
          by simp
        from Cons.IH [OF this] show ?thesis by (auto simp: Suc_diff_le)
      qed
    qed
  qed
  have less: "length (filter is_entry (bs[i := ZEmpty l])) < length (filter is_entry bs)"
    if "i < length bs" "is_entry (bs ! i)" for bs i l
    using that
  proof (induction bs arbitrary: i)
    case Nil
    then show ?case by simp
  next
    case (Cons b bs)
    show ?case
    proof (cases i)
      case 0
      with Cons.prems show ?thesis by simp
    next
      case (Suc j)
      with Cons.prems have "j < length bs" "is_entry (bs ! j)" by simp_all
      from Cons.IH [OF this] show ?thesis by (simp add: Suc)
    qed
  qed
  from x z have "zipmapLookupRaw zm key reqlen 0 None = (Some p, y)" by simp
  from found [OF this] have "p < length zm" "is_entry (zm ! p)" by simp_all
  from less [OF this]
  show "((zm[p := ZEmpty freelen], key, val), zm, key, val)
        \<in> measure (\<lambda>(zm, key, val). length (filter is_entry zm))"
    by simp
qed

declare zipmapSet.simps [simp del]

text \<open>zipmapDel: the new zipmap and the flag \<open>deleted\<close>.\<close>

definition zipmapDel :: "zipmap \<Rightarrow> string \<Rightarrow> zipmap \<times> bool" where
  "zipmapDel zm key =
     (case zipmapLookupRaw zm key 0 0 None of
        (Some p, _) \<Rightarrow> (zm[p := ZEmpty (zipmapRawEntryLength (zm ! p))], True)
      | (None, _) \<Rightarrow> (zm, False))"



fun zipmapLen :: "zipmap \<Rightarrow> nat" where
  "zipmapLen [] = 0"
| "zipmapLen (ZEmpty l # zm) = zipmapLen zm"
| "zipmapLen (ZEntry k v f # zm) = zipmapLen zm + 1"



text \<open>
  The hash table of a hash has the type hashDictType: two keys are the same when
  dictEncObjKeyCompare says so, that is when both are integer encoded with the same number
  or when their decoded strings are equal.
\<close>

definition dictEncObjKeyCompare :: "sobj \<Rightarrow> sobj \<Rightarrow> bool" where
  "dictEncObjKeyCompare o1 o2 =
     (case (o1, o2) of
        (IntEnc a, IntEnc b) \<Rightarrow> a = b \<or> getDecodedObject o1 = getDecodedObject o2
      | _ \<Rightarrow> getDecodedObject o1 = getDecodedObject o2)"

fun htFind :: "(sobj \<times> sobj) list \<Rightarrow> sobj \<Rightarrow> sobj option" where
  "htFind [] k = None"
| "htFind ((k', v) # d) k = (if dictEncObjKeyCompare k k' then Some v else htFind d k)"

definition htAdd :: "(sobj \<times> sobj) list \<Rightarrow> sobj \<Rightarrow> sobj \<Rightarrow> bool \<times> (sobj \<times> sobj) list" where
  "htAdd d k v = (if htFind d k \<noteq> None then (False, d) else (True, (k, v) # d))"

definition htReplace :: "(sobj \<times> sobj) list \<Rightarrow> sobj \<Rightarrow> sobj \<Rightarrow> bool \<times> (sobj \<times> sobj) list" where
  "htReplace d k v =
     (case htAdd d k v of
        (True, d') \<Rightarrow> (True, d')
      | (False, _) \<Rightarrow>
          (False, map (\<lambda>e. if dictEncObjKeyCompare k (fst e) then (fst e, v) else e) d))"

definition htDelete :: "(sobj \<times> sobj) list \<Rightarrow> sobj \<Rightarrow> bool \<times> (sobj \<times> sobj) list" where
  "htDelete d k =
     (if htFind d k = None then (False, d)
      else (True, filter (\<lambda>e. \<not> dictEncObjKeyCompare k (fst e)) d))"

text \<open>
  convertToRealHash walks the zipmap and adds every pair to a new hash table, both strings
  passed through tryObjectEncoding.
\<close>

fun convertPairs :: "zipmap \<Rightarrow> (sobj \<times> sobj) list \<Rightarrow> (sobj \<times> sobj) list" where
  "convertPairs [] d = d"
| "convertPairs (ZEmpty l # zm) d = convertPairs zm d"
| "convertPairs (ZEntry k v f # zm) d =
     convertPairs zm (snd (htAdd d (tryObjectEncoding (Raw k)) (tryObjectEncoding (Raw v))))"

fun convertToRealHash :: "hashval \<Rightarrow> hashval" where
  "convertToRealHash (ZIPMAP zm) = HT (convertPairs zm [])"
| "convertToRealHash (HT d) = HT d"

text \<open>
  The body of hsetCommand once the hash object is at hand: the field is the raw string
  of argv[2], the value the object argv[3], integer encoded when it could be. The limits
  are server.hash_max_zipmap_entries and server.hash_max_zipmap_value. The result is the
  object and the flag \<open>update\<close>.
\<close>

definition hashSet :: "nat \<Rightarrow> nat \<Rightarrow> hashval \<Rightarrow> string \<Rightarrow> sobj \<Rightarrow> hashval \<times> bool" where
  "hashSet max_entries max_value h field val =
     (let h1 = (case h of
                  ZIPMAP _ \<Rightarrow>
                    if length field > max_value \<or>
                       (case val of Raw s \<Rightarrow> length s > max_value | IntEnc _ \<Rightarrow> False)
                    then convertToRealHash h else h
                | HT _ \<Rightarrow> h)
      in case h1 of
           ZIPMAP zm \<Rightarrow>
             (case zipmapSet zm field (getDecodedObject val) of
                (zm', update) \<Rightarrow>
                  if \<not> update \<and> zipmapLen zm' > max_entries
                  then (convertToRealHash (ZIPMAP zm'), update)
                  else (ZIPMAP zm', update))
         | HT d \<Rightarrow>
             (case htReplace d (tryObjectEncoding (Raw field)) val of
                (added, d') \<Rightarrow> (HT d', \<not> added)))"

definition hsetCommand ::
  "nat \<Rightarrow> nat \<Rightarrow> redisDb \<Rightarrow> key \<Rightarrow> string \<Rightarrow> sobj \<Rightarrow> string list \<times> redisDb" where
  "hsetCommand max_entries max_value db0 k field val =
     (case lookupKeyWrite db0 k of
        (None, db) \<Rightarrow>
          (case hashSet max_entries max_value (ZIPMAP zipmapNew) field val of
             (h', update) \<Rightarrow>
               (['':'' @ fmt_ld (if update then 0 else 1) @ crlf],
                db\<lparr>dict := snd (dictAdd (dict db) k (HashObj h'))\<rparr>))
      | (Some (HashObj h), db) \<Rightarrow>
          (case hashSet max_entries max_value h field val of
             (h', update) \<Rightarrow>
               (['':'' @ fmt_ld (if update then 0 else 1) @ crlf],
                db\<lparr>dict := snd (dictReplace (dict db) k (HashObj h'))\<rparr>))
      | (Some _, db) \<Rightarrow> ([shared_wrongtypeerr], db))"



text \<open>The body of hdelCommand on the hash object.\<close>

fun hashDel :: "hashval \<Rightarrow> sobj \<Rightarrow> hashval \<times> bool" where
  "hashDel (ZIPMAP zm) field =
     (case zipmapDel zm (getDecodedObject field) of (zm', deleted) \<Rightarrow> (ZIPMAP zm', deleted))"
| "hashDel (HT d) field = (case htDelete d field of (deleted, d') \<Rightarrow> (HT d', deleted))"

definition hdelCommand :: "redisDb \<Rightarrow> key \<Rightarrow> sobj \<Rightarrow> string list \<times> redisDb" where
  "hdelCommand db0 k field =
     (case lookupKeyWrite db0 k of
        (None, db) \<Rightarrow> ([shared_czero], db)
      | (Some (HashObj h), db) \<Rightarrow>
          (case hashDel h field of
             (h', deleted) \<Rightarrow>
               ([if deleted then shared_cone else shared_czero],
                db\<lparr>dict := snd (dictReplace (dict db) k (HashObj h'))\<rparr>))
      | (Some _, db) \<Rightarrow> ([shared_wrongtypeerr], db))"

fun is_zipmap :: "hashval \<Rightarrow> bool" where
  "is_zipmap (ZIPMAP _) = True"
| "is_zipmap (HT _) = False"





section \<open>Strings in the snapshot file (redis.c)\<close>

text \<open>
  The file is a list of bytes. Writes are taken to succeed (fwrite returning 0 is an I/O
  error of the host, not modelled); a read past the end of the file is the value None.
  LZF compression is an external collaborator: \<open>lzf_compress\<close> gives the compressed
  bytes, or None when the data cannot be made at least four bytes shorter, and
  \<open>lzf_decompress\<close> decodes them.
\<close>

type_synonym byte = "8 word"

definition bytes_of :: "string \<Rightarrow> byte list" where
  "bytes_of s = map of_char s"

definition string_of :: "byte list \<Rightarrow> string" where
  "string_of bs = map (\<lambda>b. char_of (unat b)) bs"

definition REDIS_RDB_6BITLEN :: nat where "REDIS_RDB_6BITLEN = 0"
definition REDIS_RDB_14BITLEN :: nat where "REDIS_RDB_14BITLEN = 1"
definition REDIS_RDB_32BITLEN :: nat where "REDIS_RDB_32BITLEN = 2"
definition REDIS_RDB_ENCVAL :: nat where "REDIS_RDB_ENCVAL = 3"

definition REDIS_RDB_ENC_INT8 :: nat where "REDIS_RDB_ENC_INT8 = 0"
definition REDIS_RDB_ENC_INT16 :: nat where "REDIS_RDB_ENC_INT16 = 1"
definition REDIS_RDB_ENC_INT32 :: nat where "REDIS_RDB_ENC_INT32 = 2"
definition REDIS_RDB_ENC_LZF :: nat where "REDIS_RDB_ENC_LZF = 3"

text \<open>rdbSaveLen, for a length that fits in uint32_t.\<close>

definition rdbSaveLen :: "nat \<Rightarrow> byte list" where
  "rdbSaveLen len =
     (if len < 2 ^ 6 then [of_nat ((len AND 0xFF) OR push_bit 6 REDIS_RDB_6BITLEN)]
      else if len < 2 ^ 14
      then [of_nat ((drop_bit 8 len AND 0xFF) OR push_bit 6 REDIS_RDB_14BITLEN), of_nat (len AND 0xFF)]
      else [of_nat (push_bit 6 REDIS_RDB_32BITLEN),
            of_nat (drop_bit 24 len AND 0xFF), of_nat (drop_bit 16 len AND 0xFF),
            of_nat (drop_bit 8 len AND 0xFF), of_nat (len AND 0xFF)])"

text \<open>
  rdbTryIntegerEncoding: None stands for the return value 0, otherwise the bytes put in
  \<open>enc\<close>. The value is a long long; its bytes are taken with shifts and masks.
\<close>

definition rdbTryIntegerEncoding :: "string \<Rightarrow> byte list option" where
  "rdbTryIntegerEncoding s =
     (let (v, rest) = strtoll s
      in if rest \<noteq> [] then None
         else (let buf = fmt_ld v
               in if length buf \<noteq> length s \<or> take (length s) buf \<noteq> s then None
                  else if v \<ge> - (2 ^ 7) \<and> v \<le> 2 ^ 7 - 1
                  then Some [of_nat (push_bit 6 REDIS_RDB_ENCVAL OR REDIS_RDB_ENC_INT8),
                             of_int (v AND 0xFF)]
                  else if v \<ge> - (2 ^ 15) \<and> v \<le> 2 ^ 15 - 1
                  then Some [of_nat (push_bit 6 REDIS_RDB_ENCVAL OR REDIS_RDB_ENC_INT16),
                             of_int (v AND 0xFF), of_int (drop_bit 8 v AND 0xFF)]
                  else if v \<ge> - (2 ^ 31) \<and> v \<le> 2 ^ 31 - 1
                  then Some [of_nat (push_bit 6 REDIS_RDB_ENCVAL OR REDIS_RDB_ENC_INT32),
                             of_int (v AND 0xFF), of_int (drop_bit 8 v AND 0xFF),
                             of_int (drop_bit 16 v AND 0xFF), of_int (drop_bit 24 v AND 0xFF)]
                  else None))"

definition rdbSaveLzfStringObject :: "(string \<Rightarrow> byte list option) \<Rightarrow> string \<Rightarrow> byte list option" where
  "rdbSaveLzfStringObject lzf_compress s =
     (if length s \<le> 4 then None
      else case lzf_compress s of
             None \<Rightarrow> None
           | Some out \<Rightarrow>
               Some ([of_nat (push_bit 6 REDIS_RDB_ENCVAL OR REDIS_RDB_ENC_LZF)]
                     @ rdbSaveLen (length out) @ rdbSaveLen (length s) @ out))"

text \<open>rdbSaveRawString; \<open>rdbcompression\<close> is the server setting.\<close>

definition rdbSaveRawString :: "bool \<Rightarrow> (string \<Rightarrow> byte list option) \<Rightarrow> string \<Rightarrow> byte list" where
  "rdbSaveRawString rdbcompression lzf_compress s =
     (case (if length s \<le> 11 then rdbTryIntegerEncoding s else None) of
        Some enc \<Rightarrow> enc
      | None \<Rightarrow>
          (case (if rdbcompression \<and> length s > 20 then rdbSaveLzfStringObject lzf_compress s
                 else None) of
             Some bs \<Rightarrow> bs
           | None \<Rightarrow> rdbSaveLen (length s) @ bytes_of s))"

definition rdbSaveStringObject :: "bool \<Rightarrow> (string \<Rightarrow> byte list option) \<Rightarrow> sobj \<Rightarrow> byte list" where
  "rdbSaveStringObject rdbcompression lzf_compress obj =
     rdbSaveRawString rdbcompression lzf_compress (getDecodedObject obj)"

text \<open>
  rdbLoadLen: the length, the flag \<open>isencoded\<close> and the rest of the file; None is
  REDIS_RDB_LENERR.
\<close>

definition rdbLoadLen :: "byte list \<Rightarrow> (nat \<times> bool \<times> byte list) option" where
  "rdbLoadLen f =
     (case f of
        [] \<Rightarrow> None
      | b0 # f1 \<Rightarrow>
          (let type = drop_bit 6 (unat b0 AND 0xC0)
           in if type = REDIS_RDB_6BITLEN then Some (unat b0 AND 0x3F, False, f1)
              else if type = REDIS_RDB_ENCVAL then Some (unat b0 AND 0x3F, True, f1)
              else if type = REDIS_RDB_14BITLEN
              then (case f1 of
                      [] \<Rightarrow> None
                    | b1 # f2 \<Rightarrow> Some (push_bit 8 (unat b0 AND 0x3F) OR unat b1, False, f2))
              else (case f1 of
                      b1 # b2 # b3 # b4 # f5 \<Rightarrow>
                        Some (push_bit 24 (unat b1) OR push_bit 16 (unat b2) OR
                              push_bit 8 (unat b3) OR unat b4, False, f5)
                    | _ \<Rightarrow> None)))"

text \<open>rdbLoadIntegerObject: the string read and the rest of the file; None is NULL.\<close>

definition rdbLoadIntegerObject :: "nat \<Rightarrow> byte list \<Rightarrow> (string \<times> byte list) option" where
  "rdbLoadIntegerObject enctype f =
     (if enctype = REDIS_RDB_ENC_INT8
      then (case f of
              b0 # r \<Rightarrow> Some (fmt_ld (sint b0), r)
            | _ \<Rightarrow> None)
      else if enctype = REDIS_RDB_ENC_INT16
      then (case f of
              b0 # b1 # r \<Rightarrow>
                (let v = (ucast b0 OR push_bit 8 (ucast b1) :: 16 word)
                 in Some (fmt_ld (sint v), r))
            | _ \<Rightarrow> None)
      else if enctype = REDIS_RDB_ENC_INT32
      then (case f of
              b0 # b1 # b2 # b3 # r \<Rightarrow>
                (let v = (ucast b0 OR push_bit 8 (ucast b1) OR push_bit 16 (ucast b2)
                          OR push_bit 24 (ucast b3) :: 32 word)
                 in Some (fmt_ld (sint v), r))
            | _ \<Rightarrow> None)
      else None)"

definition rdbLoadLzfStringObject ::
  "(byte list \<Rightarrow> nat \<Rightarrow> string option) \<Rightarrow> byte list \<Rightarrow> (string \<times> byte list) option" where
  "rdbLoadLzfStringObject lzf_decompress f =
     (case rdbLoadLen f of
        None \<Rightarrow> None
      | Some (clen, _, f1) \<Rightarrow>
          (case rdbLoadLen f1 of
             None \<Rightarrow> None
           | Some (len, _, f2) \<Rightarrow>
               if length f2 < clen then None
               else (case lzf_decompress (take clen f2) len of
                       None \<Rightarrow> None
                     | Some val \<Rightarrow> Some (val, drop clen f2))))"

text \<open>
  rdbLoadStringObject: the string read and the rest of the file. An unknown encoding
  selector stops the server (redisAssert); it is None here as well.
\<close>

definition rdbLoadStringObject ::
  "(byte list \<Rightarrow> nat \<Rightarrow> string option) \<Rightarrow> byte list \<Rightarrow> (string \<times> byte list) option" where
  "rdbLoadStringObject lzf_decompress f =
     (case rdbLoadLen f of
        None \<Rightarrow> None
      | Some (len, isencoded, f1) \<Rightarrow>
          if isencoded
          then (if len = REDIS_RDB_ENC_INT8 \<or> len = REDIS_RDB_ENC_INT16 \<or> len = REDIS_RDB_ENC_INT32
                then rdbLoadIntegerObject len f1
                else if len = REDIS_RDB_ENC_LZF then rdbLoadLzfStringObject lzf_decompress f1
                else None)
          else if length f1 < len then None
          else Some (string_of (take len f1), drop len f1))"

section \<open>The steps that change a keyspace\<close>

text \<open>
  The invariant of a database: every key of the expiry dictionary is a key of the main
  dictionary.
\<close>

definition expires_in_dict :: "redisDb \<Rightarrow> bool" where
  "expires_in_dict db = list_all (\<lambda>e. dictFind (dict db) (fst e) \<noteq> None) (expires db)"

text \<open>
  Every function of redis.c that adds or removes an entry of db->dict or db->expires does it
  by one of the following steps, or by several of them in a row: dictAdd and dictReplace on
  db->dict (a command that creates or overwrites a key), deleteKey, removeExpire,
  expireIfNeeded, deleteIfVolatile, expireGenericCommand (the one caller of setExpire in a
  running server), the three calls of rdbLoad for a key read with an expiry (dictAdd, which
  must succeed, setExpire, and deleteKey when the expiry is before the time of loading), and
  the two dictEmpty of flushdbCommand and emptyDb.
\<close>

datatype keyspace_op =
    KS_dictAdd key robj
  | KS_dictReplace key robj
  | KS_deleteKey key
  | KS_removeExpire key
  | KS_expireIfNeeded int key
  | KS_deleteIfVolatile key
  | KS_expireGeneric int key int
  | KS_loadWithExpire int key robj int
  | KS_empty

fun keyspace_step :: "keyspace_op \<Rightarrow> redisDb \<Rightarrow> redisDb" where
  "keyspace_step (KS_dictAdd k v) db = db\<lparr>dict := snd (dictAdd (dict db) k v)\<rparr>"
| "keyspace_step (KS_dictReplace k v) db = db\<lparr>dict := snd (dictReplace (dict db) k v)\<rparr>"
| "keyspace_step (KS_deleteKey k) db = snd (deleteKey db k)"
| "keyspace_step (KS_removeExpire k) db = snd (removeExpire db k)"
| "keyspace_step (KS_expireIfNeeded now k) db = snd (expireIfNeeded now db k)"
| "keyspace_step (KS_deleteIfVolatile k) db = snd (deleteIfVolatile db k)"
| "keyspace_step (KS_expireGeneric now k seconds) db = snd (expireGenericCommand now db k seconds)"
| "keyspace_step (KS_loadWithExpire now k v expiretime) db =
     (case dictAdd (dict db) k v of
        (False, _) \<Rightarrow> db
      | (True, d) \<Rightarrow>
          (let db1 = snd (setExpire (db\<lparr>dict := d\<rparr>) k expiretime)
           in if expiretime < now then snd (deleteKey db1 k) else db1))"
| "keyspace_step KS_empty db = db\<lparr>dict := [], expires := []\<rparr>"

fun keyspace_steps :: "keyspace_op list \<Rightarrow> redisDb \<Rightarrow> redisDb" where
  "keyspace_steps [] db = db"
| "keyspace_steps (op # ops) db = keyspace_steps ops (keyspace_step op db)"

section \<open>Request parsing, dispatch and transactions (redis.c)\<close>

text \<open>
  The commands MULTI, EXEC, DISCARD and AUTH act on the client structure and are modelled
  in full. Every other command procedure is a value of the type \<open>'p\<close>, run by the
  function \<open>run\<close> of the server: from the argument vector and the state \<open>'w\<close> of
  everything outside this client's parser and transaction state (the databases, the other
  clients, the database selected) it gives the replies added to the client's queue, whether
  the client is left blocked (BLPOP, BRPOP), and the new state. What call() does after the
  procedure, feeding the append only file, the slaves and the monitors, is not modelled.
\<close>

datatype 'p cmdproc = MultiProc | ExecProc | DiscardProc | AuthProc | OtherProc 'p

record 'p redisCommand =
  name :: string
  "proc" :: "'p cmdproc"
  arity :: int
  flag_bulk :: bool
  flag_denyoom :: bool

record 'p multiCmd =
  mc_argv :: "sobj list"
  mc_cmd :: "'p redisCommand"

text \<open>
  The client: argc is the length of \<open>argv\<close>, mbargc the length of \<open>mbargv\<close>; the three
  flags are the bits REDIS_MULTI, REDIS_BLOCKED and REDIS_IO_WAIT of c->flags; \<open>mstate\<close> is
  the array of queued commands; \<open>blockingkeys\<close> is None for the NULL pointer and
  otherwise the array of the keys the client is blocked on (blockingkeysnum is its length).
\<close>

record 'p redisClient =
  querybuf :: string
  argv :: "sobj list"
  mbargv :: "sobj list"
  bulklen :: int
  multibulk :: int
  flag_multi :: bool
  flag_blocked :: bool
  flag_io_wait :: bool
  authenticated :: bool
  reply :: "string list"
  mstate :: "'p multiCmd list"
  blockingkeys :: "key list option"
  blockingto :: int

record ('p, 'w) redisServer =
  cmdTable :: "'p redisCommand list"
  run :: "'p \<Rightarrow> sobj list \<Rightarrow> 'w \<Rightarrow> string list \<times> bool \<times> 'w"
  maxmemory :: nat
  zmalloc_used_memory :: "'w \<Rightarrow> nat"
  freeMemoryIfNeeded :: "'w \<Rightarrow> 'w"
  requirepass :: "string option"







definition addReply :: "'p redisClient \<Rightarrow> string \<Rightarrow> 'p redisClient" where
  "addReply c s = c\<lparr>reply := reply c @ [s]\<rparr>"




subsection \<open>MULTI, EXEC, DISCARD, AUTH\<close>









subsection \<open>processCommand\<close>





subsection \<open>processInputBuffer\<close>




subsection \<open>A server with the commands SET, INCR, MULTI, EXEC and DISCARD\<close>

text \<open>
  The entries of cmdTable for set, incr, multi, exec and discard, with setCommand and
  incrCommand run on one database; no memory limit and no password.
\<close>

datatype kv_proc = SetProc | IncrProc

definition kv_run :: "kv_proc \<Rightarrow> sobj list \<Rightarrow> redisDb \<Rightarrow> string list \<times> bool \<times> redisDb" where
  "kv_run p args db =
     (case p of
        SetProc \<Rightarrow>
          (case setCommand db (getDecodedObject (args ! 1)) (args ! 2) of (r, db') \<Rightarrow> (r, False, db'))
      | IncrProc \<Rightarrow>
          (case incrCommand db (getDecodedObject (args ! 1)) of (r, db') \<Rightarrow> (r, False, db')))"

definition kv_table :: "kv_proc redisCommand list" where
  "kv_table =
     [\<lparr>name = ''set'', proc = OtherProc SetProc, arity = 3, flag_bulk = True, flag_denyoom = True\<rparr>,
      \<lparr>name = ''incr'', proc = OtherProc IncrProc, arity = 2, flag_bulk = False, flag_denyoom = True\<rparr>,
      \<lparr>name = ''multi'', proc = MultiProc, arity = 1, flag_bulk = False, flag_denyoom = False\<rparr>,
      \<lparr>name = ''exec'', proc = ExecProc, arity = 1, flag_bulk = False, flag_denyoom = False\<rparr>,
      \<lparr>name = ''discard'', proc = DiscardProc, arity = 1, flag_bulk = False, flag_denyoom = False\<rparr>]"

definition kv_server :: "(kv_proc, redisDb) redisServer" where
  "kv_server =
     \<lparr>cmdTable = kv_table, run = kv_run, maxmemory = 0, zmalloc_used_memory = (\<lambda>w. 0),
      freeMemoryIfNeeded = (\<lambda>w. w), requirepass = None\<rparr>"

text \<open>
  A client as createClient leaves it, with a given query buffer. createClient does not set
  blockingto, which is read only while the client is blocked; it is 0 here.
\<close>

definition createClient :: "string \<Rightarrow> 'p redisClient" where
  "createClient buf =
     \<lparr>querybuf = buf, argv = [], mbargv = [], bulklen = - 1, multibulk = 0,
      flag_multi = False, flag_blocked = False, flag_io_wait = False, authenticated = False,
      reply = [], mstate = [], blockingkeys = None, blockingto = 0\<rparr>"



section \<open>Blocking list operations (redis.c)\<close>

text \<open>
  The clients of one database. A client is named by its address, a natural number, and
  \<open>clients\<close> is the store from addresses to client structures; \<open>sdb\<close> is the
  keyspace of the database, \<open>db_blockingkeys\<close> its dictionary from keys to the lists of
  the clients blocked on them, oldest first. The elements of a list value are held as their
  decoded text.
\<close>

record 'p blState =
  sdb :: redisDb
  db_blockingkeys :: "(key, nat list) dict"
  clients :: "nat \<Rightarrow> 'p redisClient"
  blpop_blocked_clients :: int

text \<open>addReply for each object of a list, in order, to the client at an address.\<close>

definition replyTo :: "'p blState \<Rightarrow> nat \<Rightarrow> string list \<Rightarrow> 'p blState" where
  "replyTo st cid rs = st\<lparr>clients := (clients st)(cid := foldl addReply (clients st cid) rs)\<rparr>"

text \<open>
  A command that acts on the keyspace only (SET, RENAME, ...), run for the client at
  \<open>cid\<close>.
\<close>

definition keyspaceCommand ::
  "(redisDb \<Rightarrow> string list \<times> redisDb) \<Rightarrow> 'p blState \<Rightarrow> nat \<Rightarrow> 'p blState" where
  "keyspaceCommand f st cid = (case f (sdb st) of (rs, db') \<Rightarrow> replyTo (st\<lparr>sdb := db'\<rparr>) cid rs)"

subsection \<open>blockForKeys\<close>

text \<open>
  The loop of blockForKeys over the keys: the client is put at the tail of the list of each
  key, and a key without a list gets a new one. None is a failed assert.
\<close>

fun blockForKeys_loop :: "(key, nat list) dict \<Rightarrow> nat \<Rightarrow> key list \<Rightarrow> (key, nat list) dict option" where
  "blockForKeys_loop bk cid [] = Some bk"
| "blockForKeys_loop bk cid (k # ks) =
     (case dictFind bk k of
        None \<Rightarrow>
          (case dictAdd bk k [] of
             (False, _) \<Rightarrow> None
           | (True, bk') \<Rightarrow> blockForKeys_loop (snd (dictReplace bk' k ([] @ [cid]))) cid ks)
      | Some l \<Rightarrow> blockForKeys_loop (snd (dictReplace bk k (l @ [cid]))) cid ks)"

definition blockForKeys :: "'p blState \<Rightarrow> nat \<Rightarrow> key list \<Rightarrow> int \<Rightarrow> 'p blState option" where
  "blockForKeys st cid keys timeout =
     (case blockForKeys_loop (db_blockingkeys st) cid keys of
        None \<Rightarrow> None
      | Some bk \<Rightarrow>
          Some (st\<lparr>db_blockingkeys := bk,
                   clients := (clients st)(cid := (clients st cid)
                      \<lparr>blockingkeys := Some keys, blockingto := timeout, flag_blocked := True\<rparr>),
                   blpop_blocked_clients := blpop_blocked_clients st + 1\<rparr>))"

subsection \<open>unblockClientWaitingData\<close>

text \<open>
  The loop of unblockClientWaitingData over the keys of the client: the first node holding
  the client is taken out of the list of each key, and a list left empty is removed from the
  dictionary. None is a failed assert, or listDelNode called with the NULL that listSearchKey
  returns when the client is not in the list.
\<close>

fun unblockKeys :: "(key, nat list) dict \<Rightarrow> nat \<Rightarrow> key list \<Rightarrow> (key, nat list) dict option" where
  "unblockKeys bk cid [] = Some bk"
| "unblockKeys bk cid (k # ks) =
     (case dictFind bk k of
        None \<Rightarrow> None
      | Some l \<Rightarrow>
          if cid \<notin> set l then None
          else (let l' = remove1 cid l;
                    bk' = (if length l' = 0 then snd (dictDelete bk k) else snd (dictReplace bk k l'))
                in unblockKeys bk' cid ks))"

text \<open>
  unblockClientWaitingData ends with a call of processInputBuffer on the client when its query
  buffer is not empty; that call is the argument \<open>pib\<close>.
\<close>

definition unblockClientWaitingData ::
  "(nat \<Rightarrow> 'p blState \<Rightarrow> 'p blState option) \<Rightarrow> 'p blState \<Rightarrow> nat \<Rightarrow> 'p blState option" where
  "unblockClientWaitingData pib st cid =
     (case blockingkeys (clients st cid) of
        None \<Rightarrow> None
      | Some ks \<Rightarrow>
          (case unblockKeys (db_blockingkeys st) cid ks of
             None \<Rightarrow> None
           | Some bk \<Rightarrow>
               (let st' = st\<lparr>db_blockingkeys := bk,
                              clients := (clients st)(cid := (clients st cid)
                                 \<lparr>blockingkeys := None, flag_blocked := False\<rparr>),
                              blpop_blocked_clients := blpop_blocked_clients st - 1\<rparr>
                in if length (querybuf (clients st' cid)) > 0 then pib cid st' else Some st')))"

subsection \<open>handleClientsWaitingListPush\<close>

text \<open>The result is the return value (True for 1) and the state; None is a failed assert.\<close>

definition handleClientsWaitingListPush ::
  "(nat \<Rightarrow> 'p blState \<Rightarrow> 'p blState option) \<Rightarrow> 'p blState \<Rightarrow> key \<Rightarrow> string \<Rightarrow>
   (bool \<times> 'p blState) option" where
  "handleClientsWaitingListPush pib st k ele =
     (case dictFind (db_blockingkeys st) k of
        None \<Rightarrow> Some (False, st)
      | Some l \<Rightarrow>
          (case l of
             [] \<Rightarrow> None
           | receiver # _ \<Rightarrow>
               (let st1 = replyTo st receiver ([''*2'' @ crlf] @ addReplyBulk k @ addReplyBulk ele)
                in case unblockClientWaitingData pib st1 receiver of
                     None \<Rightarrow> None
                   | Some st2 \<Rightarrow> Some (True, st2))))"

subsection \<open>LPUSH, RPUSH, LLEN, LPOP, RPOP, BLPOP, BRPOP\<close>

text \<open>
  pushGenericCommand; \<open>head\<close> is True for REDIS_HEAD (LPUSH) and False for REDIS_TAIL
  (RPUSH). The length is printed with "%d".
\<close>

definition pushGenericCommand ::
  "(nat \<Rightarrow> 'p blState \<Rightarrow> 'p blState option) \<Rightarrow> bool \<Rightarrow> 'p blState \<Rightarrow> nat \<Rightarrow> key \<Rightarrow> string \<Rightarrow>
   'p blState option" where
  "pushGenericCommand pib head st0 cid k ele =
     (case lookupKeyWrite (sdb st0) k of
        (lobj, db1) \<Rightarrow>
          (let st = st0\<lparr>sdb := db1\<rparr>
           in case lobj of
                None \<Rightarrow>
                  (case handleClientsWaitingListPush pib st k ele of
                     None \<Rightarrow> None
                   | Some (True, st1) \<Rightarrow> Some (replyTo st1 cid [shared_cone])
                   | Some (False, st1) \<Rightarrow>
                       (let l = [ele];
                            st2 = st1\<lparr>sdb := (sdb st1)\<lparr>dict := snd (dictAdd (dict (sdb st1)) k (ListObj l))\<rparr>\<rparr>
                        in Some (replyTo st2 cid ['':'' @ fmt_ld (int_cast (int (length l))) @ crlf])))
              | Some (ListObj l0) \<Rightarrow>
                  (case handleClientsWaitingListPush pib st k ele of
                     None \<Rightarrow> None
                   | Some (True, st1) \<Rightarrow> Some (replyTo st1 cid [shared_cone])
                   | Some (False, st1) \<Rightarrow>
                       (let l = (if head then ele # l0 else l0 @ [ele]);
                            st2 = st1\<lparr>sdb := (sdb st1)\<lparr>dict := snd (dictReplace (dict (sdb st1)) k (ListObj l))\<rparr>\<rparr>
                        in Some (replyTo st2 cid ['':'' @ fmt_ld (int_cast (int (length l))) @ crlf])))
              | Some _ \<Rightarrow> Some (replyTo st cid [shared_wrongtypeerr])))"

definition llenCommand :: "int \<Rightarrow> 'p blState \<Rightarrow> nat \<Rightarrow> key \<Rightarrow> 'p blState" where
  "llenCommand now st0 cid k =
     (case lookupKeyRead now (sdb st0) k of
        (o', db1) \<Rightarrow>
          (let st = st0\<lparr>sdb := db1\<rparr>
           in case o' of
                None \<Rightarrow> replyTo st cid [shared_czero]
              | Some (ListObj l) \<Rightarrow> replyTo st cid (addReplyLong (int (length l)))
              | Some _ \<Rightarrow> replyTo st cid [shared_wrongtypeerr]))"

definition popGenericCommand :: "bool \<Rightarrow> 'p blState \<Rightarrow> nat \<Rightarrow> key \<Rightarrow> 'p blState" where
  "popGenericCommand head st0 cid k =
     (case lookupKeyWrite (sdb st0) k of
        (o', db1) \<Rightarrow>
          (let st = st0\<lparr>sdb := db1\<rparr>
           in case o' of
                None \<Rightarrow> replyTo st cid [shared_nullbulk]
              | Some (ListObj l) \<Rightarrow>
                  (if l = [] then replyTo st cid [shared_nullbulk]
                   else (let ele = (if head then hd l else last l);
                             l' = (if head then tl l else butlast l);
                             st1 = replyTo st cid (addReplyBulk ele)
                         in st1\<lparr>sdb := (sdb st1)\<lparr>dict := snd (dictReplace (dict (sdb st1)) k (ListObj l'))\<rparr>\<rparr>))
              | Some _ \<Rightarrow> replyTo st cid [shared_wrongtypeerr]))"

text \<open>
  The loop of blockingPopGenericCommand over the keys: Inl is the state with which the
  command returns from inside the loop, Inr the state with which it goes on to block.
\<close>

fun blockingPop_loop :: "bool \<Rightarrow> 'p blState \<Rightarrow> nat \<Rightarrow> key list \<Rightarrow> 'p blState + 'p blState" where
  "blockingPop_loop head st0 cid [] = Inr st0"
| "blockingPop_loop head st0 cid (k # ks) =
     (case lookupKeyWrite (sdb st0) k of
        (o', db1) \<Rightarrow>
          (let st = st0\<lparr>sdb := db1\<rparr>
           in case o' of
                None \<Rightarrow> blockingPop_loop head st cid ks
              | Some (ListObj l) \<Rightarrow>
                  (if length l \<noteq> 0
                   then Inl (popGenericCommand head (replyTo st cid ([''*2'' @ crlf] @ addReplyBulk k)) cid k)
                   else blockingPop_loop head st cid ks)
              | Some _ \<Rightarrow> Inl (replyTo st cid [shared_wrongtypeerr])))"

text \<open>
  blockingPopGenericCommand: \<open>keys\<close> are the arguments between the command name and the
  last argument \<open>arg\<close>, the timeout.
\<close>

definition blockingPopGenericCommand ::
  "int \<Rightarrow> bool \<Rightarrow> 'p blState \<Rightarrow> nat \<Rightarrow> key list \<Rightarrow> string \<Rightarrow> 'p blState option" where
  "blockingPopGenericCommand now head st cid keys arg =
     (case blockingPop_loop head st cid keys of
        Inl st' \<Rightarrow> Some st'
      | Inr st' \<Rightarrow>
          (let timeout = fst (strtol arg);
               timeout' = (if timeout > 0 then long_wrap (timeout + now) else timeout)
           in blockForKeys st' cid keys timeout'))"

section \<open>Example states\<close>

text \<open>A database whose key k was given an expiry of 100 seconds at time 1000.\<close>

definition db_volatile_k :: redisDb where
  "db_volatile_k = snd (expireCommand 1000 \<lparr>dict = [(''k'', StringObj (Raw ''old''))], expires = []\<rparr> ''k'' ''100'')"


text \<open>A database holding the single key k, with no expiry.\<close>

definition db_plain_k :: redisDb where
  "db_plain_k = \<lparr>dict = [(''k'', StringObj (Raw ''old''))], expires = []\<rparr>"

text \<open>The same database after EXPIREAT k 2000.\<close>

definition db_k_2000 :: redisDb where
  "db_k_2000 = \<lparr>dict = [(''k'', StringObj (Raw ''old''))], expires = [(''k'', 2000)]\<rparr>"

text \<open>
  A database with eight volatile keys: e1 to e4 expired at time 10, n1 to n4 expire at time
  1000. The sequence of draws picks position 0 three times and then position 1.
\<close>

definition db_eight :: redisDb where
  "db_eight =
     \<lparr>dict = [(''e1'', StringObj (Raw ''v'')), (''e2'', StringObj (Raw ''v'')),
              (''e3'', StringObj (Raw ''v'')), (''e4'', StringObj (Raw ''v'')),
              (''n1'', StringObj (Raw ''v'')), (''n2'', StringObj (Raw ''v'')),
              (''n3'', StringObj (Raw ''v'')), (''n4'', StringObj (Raw ''v''))],
      expires = [(''e1'', 10), (''e2'', 10), (''e3'', 10), (''e4'', 10),
                 (''n1'', 1000), (''n2'', 1000), (''n3'', 1000), (''n4'', 1000)]\<rparr>"

definition db_eight_after :: redisDb where
  "db_eight_after =
     \<lparr>dict = [(''e4'', StringObj (Raw ''v'')),
              (''n1'', StringObj (Raw ''v'')), (''n2'', StringObj (Raw ''v'')),
              (''n3'', StringObj (Raw ''v'')), (''n4'', StringObj (Raw ''v''))],
      expires = [(''e4'', 10),
                 (''n1'', 1000), (''n2'', 1000), (''n3'', 1000), (''n4'', 1000)]\<rparr>"

definition draws_0001 :: "nat \<Rightarrow> nat" where
  "draws_0001 i = (if i < 3 then 0 else 1)"



text \<open>
  A field of 253 bytes, the shortest whose length is written in five bytes, a hash that
  holds it in a zipmap, and a hash whose zipmap starts with an empty block of 20 bytes.
\<close>

definition field_253 :: string where
  "field_253 = replicate 253 (CHR ''a'')"










text \<open>
  Three clients of an empty database, none of them blocked; processInputBuffer as it is
  called on a client whose query buffer is empty, that is never.
\<close>

definition st_idle :: "kv_proc blState" where
  "st_idle = \<lparr>sdb = emptyDb, db_blockingkeys = [], clients = (\<lambda>i. createClient []),
              blpop_blocked_clients = 0\<rparr>"

definition pib_unused :: "nat \<Rightarrow> kv_proc blState \<Rightarrow> kv_proc blState option" where
  "pib_unused i st = None"

text \<open>Client 0 sends BLPOP k 0 at time 100.\<close>

definition trace_blpop :: "kv_proc blState option" where
  "trace_blpop = blockingPopGenericCommand 100 True st_idle 0 [''k''] ''0''"

text \<open>Then client 2 sends BLPOP k 0 at time 101.\<close>

definition trace_two_waiters :: "kv_proc blState option" where
  "trace_two_waiters =
     Option.bind trace_blpop (\<lambda>st1. blockingPopGenericCommand 101 True st1 2 [''k''] ''0'')"

text \<open>The state with the two clients 0 and 2 blocked on k, client 0 first.\<close>

definition st_two_waiters :: "kv_proc blState" where
  "st_two_waiters =
     \<lparr>sdb = emptyDb, db_blockingkeys = [(''k'', [0, 2])],
      clients = (\<lambda>i. createClient [])
        (0 := (createClient [])\<lparr>flag_blocked := True, blockingkeys := Some [''k''], blockingto := 0\<rparr>,
         2 := (createClient [])\<lparr>flag_blocked := True, blockingkeys := Some [''k''], blockingto := 0\<rparr>),
      blpop_blocked_clients = 2\<rparr>"

text \<open>
  After the BLPOP of client 0, client 1 sends RPUSH other x, RENAME other k and LPUSH k y.
\<close>

definition trace_rename :: "kv_proc blState option" where
  "trace_rename =
     Option.bind trace_blpop (\<lambda>st1.
       Option.bind (pushGenericCommand pib_unused False st1 1 ''other'' ''x'') (\<lambda>st2.
         pushGenericCommand pib_unused True
           (keyspaceCommand (\<lambda>db. renameGenericCommand db ''other'' ''k'' False) st2 1) 1 ''k'' ''y''))"

text \<open>After the BLPOP of client 0, client 1 sends SET k v and LPUSH k y.\<close>

definition trace_set :: "kv_proc blState option" where
  "trace_set =
     Option.bind trace_blpop (\<lambda>st1.
       pushGenericCommand pib_unused True
         (keyspaceCommand (\<lambda>db. setCommand db ''k'' (Raw ''v'')) st1 1) 1 ''k'' ''y'')"

text \<open>
  The same server with a memory limit that is exceeded, and with a password set.
\<close>

definition kv_server_full :: "(kv_proc, redisDb) redisServer" where
  "kv_server_full = kv_server\<lparr>maxmemory := 1, zmalloc_used_memory := (\<lambda>w. 2)\<rparr>"

definition kv_server_pass :: "(kv_proc, redisDb) redisServer" where
  "kv_server_pass = kv_server\<lparr>requirepass := Some ''pw''\<rparr>"

section \<open>Printing a number and reading it back\<close>

lemma digit_char_code: "d < 10 \<Longrightarrow> (of_char (digit_char d) :: nat) = 48 + d"
proof -
  assume "d < 10"
  then have "d \<in> {0, 1, 2, 3, 4, 5, 6, 7, 8, 9}" by auto
  then show ?thesis by (auto simp: digit_char_def)
qed

lemma isdigit_digit_char: "d < 10 \<Longrightarrow> isdigit (digit_char d)"
  by (simp add: isdigit_def digit_char_code)

lemma digits_not_Nil: "digits n \<noteq> []"
  by (subst digits.simps) simp

lemma digits_all_digit: "c \<in> set (digits n) \<Longrightarrow> isdigit c"
proof (induction n rule: digits.induct)
  case (1 n)
  show ?case
  proof (cases "n < 10")
    case True
    with "1.prems" show ?thesis by (simp add: digits.simps [of n] isdigit_digit_char)
  next
    case False
    with "1.prems" "1.IH" show ?thesis
      by (auto simp: digits.simps [of n] isdigit_digit_char)
  qed
qed

lemma strtol_digits_digits:
  "\<And>acc rest. strtol_digits (digits n @ rest) acc = strtol_digits rest (acc * 10 ^ length (digits n) + n)"
proof (induction n rule: digits.induct)
  case (1 n)
  show ?case
  proof (cases "n < 10")
    case True
    then show ?thesis
      by (simp add: digits.simps [of n] isdigit_digit_char digit_char_code)
  next
    case False
    have md: "n mod 10 < 10" by simp
    have "strtol_digits (digits n @ rest) acc
          = strtol_digits (digits (n div 10) @ (digit_char (n mod 10) # rest)) acc"
      using False by (simp add: digits.simps [of n])
    also have "\<dots> = strtol_digits (digit_char (n mod 10) # rest)
                         (acc * 10 ^ length (digits (n div 10)) + n div 10)"
      using False "1.IH" by simp
    also have "\<dots> = strtol_digits rest
                         ((acc * 10 ^ length (digits (n div 10)) + n div 10) * 10 + n mod 10)"
      using md by (simp add: isdigit_digit_char digit_char_code)
    also have "(acc * 10 ^ length (digits (n div 10)) + n div 10) * 10 + n mod 10
               = acc * 10 ^ length (digits n) + n"
      using False by (simp add: digits.simps [of n] algebra_simps)
    finally show ?thesis .
  qed
qed

lemma strtol_digits_exact: "strtol_digits (digits n) 0 = (n, [])"
  using strtol_digits_digits [of n "[]" 0] by simp

lemma isdigit_facts:
  "isdigit c \<Longrightarrow> \<not> isspace c \<and> (of_char c :: nat) \<noteq> 0 \<and> c \<noteq> CHR ''-'' \<and> c \<noteq> CHR ''+''"
  by (auto simp: isdigit_def isspace_def)

lemma digits_Cons: "\<exists>c cs. digits n = c # cs \<and> isdigit c"
  using digits_not_Nil [of n] digits_all_digit [of _ n] by (cases "digits n") auto

lemma cstring_digits: "cstring (digits n) = digits n"
  unfolding cstring_def using digits_all_digit isdigit_facts
  by (intro takeWhile_eq_all_conv [THEN iffD2]) blast

lemma strtol_range_digits:
  "strtol_range lo hi (digits n) = (max lo (min hi (int n)), [])"
proof -
  obtain c cs where d: "digits n = c # cs" and c: "isdigit c"
    using digits_Cons by blast
  have f: "\<not> isspace c" "c \<noteq> CHR ''-''" "c \<noteq> CHR ''+''"
    using isdigit_facts [OF c] by auto
  have "strtol_digits (c # cs) 0 = (n, [])"
    using strtol_digits_exact [of n] d by simp
  then show ?thesis
    using f c cstring_digits [of n] unfolding d strtol_range_def
    by (simp add: Let_def del: strtol_digits.simps)
qed

lemma strtol_range_minus_digits:
  "strtol_range lo hi (CHR ''-'' # digits n) = (max lo (min hi (- int n)), [])"
proof -
  obtain c cs where d: "digits n = c # cs" and c: "isdigit c"
    using digits_Cons by blast
  have cs: "cstring (CHR ''-'' # digits n) = CHR ''-'' # digits n"
    using cstring_digits [of n] by (simp add: cstring_def)
  have sp: "\<not> isspace CHR ''-''" by (simp add: isspace_def)
  have "strtol_digits (c # cs) 0 = (n, [])"
    using strtol_digits_exact [of n] d by simp
  then show ?thesis
    using c sp cs unfolding d strtol_range_def
    by (simp add: Let_def del: strtol_digits.simps)
qed

lemma strtol_range_fmt_ld:
  "lo \<le> t \<Longrightarrow> t \<le> hi \<Longrightarrow> strtol_range lo hi (fmt_ld t) = (t, [])"
  by (auto simp: fmt_ld_def strtol_range_digits strtol_range_minus_digits)

lemma strtol_fmt_ld:
  "- (2 ^ 63) \<le> t \<Longrightarrow> t \<le> 2 ^ 63 - 1 \<Longrightarrow> strtol (fmt_ld t) = (t, [])"
  unfolding strtol_def by (rule strtol_range_fmt_ld)

lemma strtoll_fmt_ld:
  "- (2 ^ 63) \<le> t \<Longrightarrow> t \<le> 2 ^ 63 - 1 \<Longrightarrow> strtoll (fmt_ld t) = (t, [])"
  unfolding strtoll_def by (rule strtol_range_fmt_ld)


section \<open>Facts about the dictionary operations\<close>

lemma dictFind_dictDelete:
  "dictFind (snd (dictDelete d k)) k' = (if k' = k then None else dictFind d k')"
proof -
  have "map_of (filter (\<lambda>e. fst e \<noteq> k) d) k' = (if k' = k then None else map_of d k')"
    by (induction d) auto
  then show ?thesis by (auto simp: dictDelete_def dictFind_def)
qed

lemma fst_dictDelete: "fst (dictDelete d k) = (dictFind d k \<noteq> None)"
  by (simp add: dictDelete_def)

lemma dictFind_dictAdd:
  "dictFind (snd (dictAdd d k v)) k' =
     (if k' = k \<and> dictFind d k = None then Some v else dictFind d k')"
  by (auto simp: dictAdd_def dictFind_def)

lemma fst_dictAdd: "fst (dictAdd d k v) = (dictFind d k = None)"
  by (simp add: dictAdd_def)

lemma map_of_replace_other:
  "k' \<noteq> k \<Longrightarrow> map_of (map (\<lambda>e. if fst e = k then (k, v) else e) d) k' = map_of d k'"
  by (induction d) auto

lemma map_of_replace_same:
  "map_of d k \<noteq> None \<Longrightarrow> map_of (map (\<lambda>e. if fst e = k then (k, v) else e) d) k = Some v"
  by (induction d) (auto split: if_splits)

lemma dictFind_dictReplace:
  "dictFind (snd (dictReplace d k v)) k' = (if k' = k then Some v else dictFind d k')"
  by (auto simp: dictReplace_def dictAdd_def dictFind_def map_of_replace_other map_of_replace_same)

lemma dictSize_0: "dictSize d = 0 \<Longrightarrow> dictFind d k = None"
  by (simp add: dictSize_def dictFind_def)

lemma getExpire_None: "dictFind (expires db) k = None \<Longrightarrow> getExpire db k = -1"
  by (simp add: getExpire_def)

lemma expires_removeExpire:
  "dictFind (expires (snd (removeExpire db k))) k' = (if k' = k then None else dictFind (expires db) k')"
  using dictFind_dictDelete [of "expires db" k k'] fst_dictDelete [of "expires db" k]
  by (cases "dictDelete (expires db) k") (auto simp: removeExpire_def split: bool.splits)

lemma dict_removeExpire: "dict (snd (removeExpire db k)) = dict db"
  by (cases "dictDelete (expires db) k") (auto simp: removeExpire_def split: bool.splits)

lemma setCommand_expires: "dictFind (expires (snd (setCommand db k v))) k = None"
  by (cases "dictAdd (dict db) k (StringObj v)")
     (auto simp: setCommand_def setGenericCommand_def Let_def expires_removeExpire split: bool.splits)

lemma setCommand_dict: "dictFind (dict (snd (setCommand db k v))) k = Some (StringObj v)"
  using dictFind_dictReplace [of "dict db" k "StringObj v" k] dictFind_dictAdd [of "dict db" k "StringObj v" k]
    fst_dictAdd [of "dict db" k "StringObj v"]
  by (cases "dictAdd (dict db) k (StringObj v)")
     (auto simp: setCommand_def setGenericCommand_def Let_def dict_removeExpire split: bool.splits)

lemma ttl_none: "dictFind (expires db) k = None \<Longrightarrow> ttl_value now db k = -1"
  by (simp add: ttl_value_def getExpire_None)

section \<open>SET and GETSET clear the expiry\<close>

lemmas dec_eval = digits.simps digit_char_def fmt_ld_def
lemmas strtol_eval = strtol_def strtoll_def strtol_range_def cstring_def isspace_def isdigit_def Let_def

lemma fmt_ld_minus1: "fmt_ld (- 1) = ''-1''"
  by (simp add: dec_eval)

lemma ttlCommand_none:
  "dictFind (expires db) k = None \<Longrightarrow> ttlCommand now db k = ['':-1'' @ crlf]"
  by (simp add: ttlCommand_def ttl_none fmt_ld_minus1)

lemma getsetCommand_expires:
  "fst (getGenericCommand now db k) \<Longrightarrow>
   dictFind (expires (snd (getsetCommand now db k v))) k = None"
  by (cases "getGenericCommand now db k")
     (auto simp: getsetCommand_def Let_def expires_removeExpire split: bool.splits prod.splits)

text \<open>
  Claim C10. SET k v always, and GETSET k v whenever it does not fail with the wrong-type
  error, leave k without an entry in the expiry dictionary, and a TTL issued afterwards
  (at any time) replies -1, whatever expiry k had before the write.
\<close>

theorem set_getset_remove_expire:
  "dictFind (expires (snd (setCommand db k v))) k = None \<and>
   ttlCommand now (snd (setCommand db k v)) k = ['':-1'' @ crlf] \<and>
   (fst (getGenericCommand now' db k) \<longrightarrow>
      dictFind (expires (snd (getsetCommand now' db k v))) k = None \<and>
      ttlCommand now (snd (getsetCommand now' db k v)) k = ['':-1'' @ crlf])"
  by (simp add: setCommand_expires ttlCommand_none getsetCommand_expires)

lemma long_wrap_id: "- (2 ^ 63) \<le> x \<Longrightarrow> x < 2 ^ 63 \<Longrightarrow> long_wrap x = x"
  unfolding long_wrap_def by (simp add: sint_sbintrunc' signed_take_bit_int_eq_self)

lemma long_wrap_period: "long_wrap (x + 2 ^ 64) = long_wrap x"
proof -
  have "take_bit 64 (x + 2 ^ 64) = take_bit 64 x"
    by (simp add: take_bit_eq_mod)
  hence "(word_of_int (x + 2 ^ 64) :: 64 word) = word_of_int x"
    unfolding word_of_int_eq_iff by simp
  thus ?thesis unfolding long_wrap_def by (rule arg_cong)
qed

lemma db_volatile_k_eq:
  "db_volatile_k = \<lparr>dict = [(''k'', StringObj (Raw ''old''))], expires = [(''k'', 1100)]\<rparr>"
  by (simp add: db_volatile_k_def expireCommand_def expireGenericCommand_def dictFind_def setExpire_def dictAdd_def
    strtol_eval long_wrap_id)

lemma w1: "ttlCommand 1001 db_volatile_k ''k'' = ['':99'' @ crlf]"
  by (simp add: db_volatile_k_eq ttlCommand_def ttl_value_def getExpire_def dictSize_def dictFind_def int_cast_def dec_eval)

lemma w2: "fst (getGenericCommand 1001 db_volatile_k ''k'')"
  by (simp add: db_volatile_k_eq getGenericCommand_def lookupKeyRead_def expireIfNeeded_def lookupKey_def dictSize_def dictFind_def)

theorem set_getset_remove_expire_witness:
  "ttlCommand 1001 db_volatile_k ''k'' = ['':99'' @ crlf] \<and>
   fst (getGenericCommand 1001 db_volatile_k ''k'') \<and>
   dictFind (expires (snd (getsetCommand 1001 db_volatile_k ''k'' (Raw ''new'')))) ''k'' = None \<and>
   ttlCommand 1002 (snd (getsetCommand 1001 db_volatile_k ''k'' (Raw ''new''))) ''k'' = ['':-1'' @ crlf] \<and>
   ttlCommand 1002 (snd (setCommand db_volatile_k ''k'' (Raw ''new''))) ''k'' = ['':-1'' @ crlf]"
  using set_getset_remove_expire [of db_volatile_k "''k''" "Raw ''new''" 1002 1001] w1 w2
  by simp


section \<open>The two lookups\<close>

lemma expireIfNeeded_cases:
  "expireIfNeeded now db k =
     (case dictFind (expires db) k of
        None \<Rightarrow> (False, db)
      | Some w \<Rightarrow> if now \<le> w then (False, db)
                  else (fst (dictDelete (dict db) k),
                        db\<lparr>dict := snd (dictDelete (dict db) k), expires := snd (dictDelete (expires db) k)\<rparr>))"
  by (auto simp: expireIfNeeded_def Let_def dictSize_0 split: option.splits prod.splits)

lemma deleteIfVolatile_cases:
  "deleteIfVolatile db k =
     (case dictFind (expires db) k of
        None \<Rightarrow> (False, db)
      | Some w \<Rightarrow> (fst (dictDelete (dict db) k),
                    db\<lparr>dict := snd (dictDelete (dict db) k), expires := snd (dictDelete (expires db) k)\<rparr>))"
  by (auto simp: deleteIfVolatile_def Let_def dictSize_0 split: option.splits prod.splits)

lemma deleteKey_cases:
  "deleteKey db k =
     (fst (dictDelete (dict db) k),
      db\<lparr>dict := snd (dictDelete (dict db) k), expires := snd (dictDelete (expires db) k)\<rparr>)"
proof -
  have "dictSize (expires db) = 0 \<Longrightarrow> snd (dictDelete (expires db) k) = expires db"
    by (simp add: dictDelete_def dictSize_0)
  then show ?thesis
    by (auto simp: deleteKey_def Let_def split: prod.splits)
qed

text \<open>
  Claim C3, amended. lookupKeyRead deletes the key exactly when it has an expiry entry that
  is strictly before the current time, and then looks the key up. lookupKeyWrite deletes the
  key whenever it has an expiry entry, whatever the time, and then looks it up. So for a key
  without expiry both return the stored value and leave the database unchanged; for a key
  whose expiry has not yet passed lookupKeyRead returns the stored value and lookupKeyWrite
  reports absence.
\<close>

theorem lookup_read_write:
  "(dictFind (expires db) k = None \<longrightarrow>
      lookupKeyRead now db k = (dictFind (dict db) k, db) \<and>
      lookupKeyWrite db k = (dictFind (dict db) k, db)) \<and>
   (\<forall>w. dictFind (expires db) k = Some w \<longrightarrow>
      (now \<le> w \<longrightarrow> lookupKeyRead now db k = (dictFind (dict db) k, db)) \<and>
      (w < now \<longrightarrow>
         fst (lookupKeyRead now db k) = None \<and>
         dictFind (dict (snd (lookupKeyRead now db k))) k = None \<and>
         dictFind (expires (snd (lookupKeyRead now db k))) k = None) \<and>
      fst (lookupKeyWrite db k) = None \<and>
      dictFind (dict (snd (lookupKeyWrite db k))) k = None \<and>
      dictFind (expires (snd (lookupKeyWrite db k))) k = None)"
  by (auto simp: lookupKeyRead_def lookupKeyWrite_def lookupKey_def Let_def
        expireIfNeeded_cases deleteIfVolatile_cases dictFind_dictDelete)

lemmas ks_eval = lookupKeyRead_def lookupKeyWrite_def lookupKey_def expireIfNeeded_def deleteIfVolatile_def
  deleteKey_def removeExpire_def setExpire_def getExpire_def dictFind_def dictSize_def dictAdd_def dictDelete_def
  dictReplace_def Let_def

text \<open>
  Claim C3 as stated fails: at time 1001 the key k, which expires at 1100, is found by
  lookupKeyRead and reported absent by lookupKeyWrite.
\<close>

theorem lookup_write_counterexample:
  "dictFind (expires db_volatile_k) ''k'' = Some 1100 \<and>
   fst (lookupKeyRead 1001 db_volatile_k ''k'') = Some (StringObj (Raw ''old'')) \<and>
   fst (lookupKeyWrite db_volatile_k ''k'') = None"
  by (simp add: db_volatile_k_eq ks_eval)

theorem lookup_read_write_witness:
  "dictFind (expires db_volatile_k) ''k'' = Some 1100 \<and>
   dictFind (expires db_volatile_k) ''other'' = None \<and>
   lookupKeyRead 1001 db_volatile_k ''k'' = (Some (StringObj (Raw ''old'')), db_volatile_k) \<and>
   fst (lookupKeyRead 1101 db_volatile_k ''k'') = None \<and>
   fst (lookupKeyWrite db_volatile_k ''k'') = None \<and>
   lookupKeyWrite db_volatile_k ''other'' = (None, db_volatile_k)"
  using lookup_read_write [of db_volatile_k "''k''" 1001]
        lookup_read_write [of db_volatile_k "''k''" 1101]
        lookup_read_write [of db_volatile_k "''other''" 1001]
  by (simp add: db_volatile_k_eq dictFind_def)


section \<open>EXPIREAT and TTL\<close>

lemma int_cast_id: "- (2 ^ 31) \<le> x \<Longrightarrow> x < 2 ^ 31 \<Longrightarrow> int_cast x = x"
  unfolding int_cast_def by (simp add: sint_sbintrunc' signed_take_bit_int_eq_self)

lemma shared_cone_neq_czero: "shared_cone \<noteq> shared_czero"
  by (simp add: shared_cone_def shared_czero_def)

lemma expireGenericCommand_cone:
  assumes "expireGenericCommand now db k seconds = ([shared_cone], db')"
  shows "dictFind (dict db) k \<noteq> None \<and>
         (if seconds < 0 then db' = snd (deleteKey db k)
          else dictFind (expires db) k = None \<and>
               db' = db\<lparr>expires := (k, long_wrap (now + seconds)) # expires db\<rparr>)"
  using assms shared_cone_neq_czero
  by (auto simp: expireGenericCommand_def setExpire_def dictAdd_def Let_def
           split: option.splits if_splits prod.splits bool.splits)

lemma ttl_value_Some:
  "dictFind (expires db) k = Some w \<Longrightarrow> w \<noteq> - 1 \<Longrightarrow>
   ttl_value now db k = (let ttl = int_cast (w - now) in if ttl < 0 then - 1 else ttl)"
  by (auto simp: ttl_value_def getExpire_def dictSize_def dictFind_def)

text \<open>
  Claim C2, amended. Let EXPIREAT k t be answered :1, the clock being read as \<open>now1\<close>
  by expireatCommand and as \<open>now2\<close> by expireGenericCommand (the clock is not before
  the epoch and is a time_t). The command computes t - now1 and the sum with \<open>now2\<close> in
  64 bits. If t is not before \<open>now1\<close> and w = t + (now2 - now1) is still a time_t, the
  expiry stored is w. At every time t' up to and including w (with w - t' below 2^31,
  the range of the int that TTL prints) TTL replies w - t' and lookupKeyRead finds the key;
  at t' = w the key is still there and TTL replies 0. At every time t' after w
  lookupKeyRead reports absence, and TTL replies -1 (for t' - w up to 2^31). If t is before
  \<open>now1\<close> by no more than 2^63 seconds, the key is deleted by the command itself. If t
  is further back than that, the difference wraps to a positive number: the key is not
  deleted and it is given the expiry t + (now2 - now1) + 2^64 or, when that is no time_t,
  t + (now2 - now1). If t is not before \<open>now1\<close> and w is beyond the largest time_t,
  the sum wraps and the expiry stored is w - 2^64.
\<close>

theorem expireat_ttl:
  assumes r: "expireatCommand now1 now2 db k (fmt_ld t) = ([shared_cone], db')"
    and range: "- (2 ^ 63) \<le> t" "t \<le> 2 ^ 63 - 1"
    and clock: "0 \<le> now1" "now1 \<le> now2" "now2 \<le> 2 ^ 63 - 1"
  shows "(now1 \<le> t \<and> t + (now2 - now1) \<le> 2 ^ 63 - 1 \<longrightarrow>
            (\<forall>t'. t' \<le> t + (now2 - now1) \<and> t + (now2 - now1) - t' < 2 ^ 31 \<longrightarrow>
               ttl_value t' db' k = t + (now2 - now1) - t' \<and>
               fst (lookupKeyRead t' db' k) = dictFind (dict db) k \<and>
               dictFind (dict db) k \<noteq> None) \<and>
            (\<forall>t'. t + (now2 - now1) < t' \<longrightarrow>
               fst (lookupKeyRead t' db' k) = None \<and>
               (t' - (t + (now2 - now1)) \<le> 2 ^ 31 \<longrightarrow> ttl_value t' db' k = - 1))) \<and>
         (t < now1 \<and> - (2 ^ 63) \<le> t - now1 \<longrightarrow>
            (\<forall>t'. fst (lookupKeyRead t' db' k) = None \<and> ttl_value t' db' k = - 1)) \<and>
         (t - now1 < - (2 ^ 63) \<longrightarrow>
            dict db' = dict db \<and> dictFind (dict db) k \<noteq> None \<and>
            dictFind (expires db') k =
              Some (if t + (now2 - now1) + 2 ^ 64 \<le> 2 ^ 63 - 1 then t + (now2 - now1) + 2 ^ 64
                    else t + (now2 - now1))) \<and>
         (now1 \<le> t \<and> 2 ^ 63 - 1 < t + (now2 - now1) \<longrightarrow>
            dict db' = dict db \<and> dictFind (dict db) k \<noteq> None \<and>
            dictFind (expires db') k = Some (t + (now2 - now1) - 2 ^ 64))"
proof -
  have g: "expireGenericCommand now2 db k (long_wrap (t - now1)) = ([shared_cone], db')"
    using r range by (simp add: expireatCommand_def strtol_fmt_ld)
  note c = expireGenericCommand_cone [OF g]
  have A: "(\<forall>t'. t' \<le> t + (now2 - now1) \<and> t + (now2 - now1) - t' < 2 ^ 31 \<longrightarrow>
               ttl_value t' db' k = t + (now2 - now1) - t' \<and>
               fst (lookupKeyRead t' db' k) = dictFind (dict db) k \<and>
               dictFind (dict db) k \<noteq> None) \<and>
            (\<forall>t'. t + (now2 - now1) < t' \<longrightarrow>
               fst (lookupKeyRead t' db' k) = None \<and>
               (t' - (t + (now2 - now1)) \<le> 2 ^ 31 \<longrightarrow> ttl_value t' db' k = - 1))"
    if True: "now1 \<le> t" and top: "t + (now2 - now1) \<le> 2 ^ 63 - 1"
  proof -
    define w where "w = t + (now2 - now1)"
    have s: "long_wrap (t - now1) = t - now1"
      using True range clock by (intro long_wrap_id) auto
    have "long_wrap (now2 + (t - now1)) = now2 + (t - now1)"
      using True top clock by (intro long_wrap_id) auto
    hence db': "db' = db\<lparr>expires := (k, w) # expires db\<rparr>"
      using c True unfolding s by (simp add: w_def algebra_simps)
    have ex: "dictFind (expires db') k = Some w"
      by (simp add: db' dictFind_def)
    have wn: "w \<noteq> - 1" using True clock by (simp add: w_def)
    have dk: "dictFind (dict db) k \<noteq> None" using c by simp
    have a: "ttl_value t' db' k = w - t' \<and> fst (lookupKeyRead t' db' k) = dictFind (dict db) k"
      if "t' \<le> w" "w - t' < 2 ^ 31" for t'
    proof -
      have "int_cast (w - t') = w - t'"
        using that by (intro int_cast_id) auto
      then have "ttl_value t' db' k = w - t'"
        using that ttl_value_Some [OF ex wn, of t'] by (simp add: Let_def)
      moreover have "fst (lookupKeyRead t' db' k) = dictFind (dict db) k"
        using that ex by (simp add: lookupKeyRead_def Let_def expireIfNeeded_cases lookupKey_def db')
      ultimately show ?thesis by simp
    qed
    have b: "fst (lookupKeyRead t' db' k) = None \<and> (t' - w \<le> 2 ^ 31 \<longrightarrow> ttl_value t' db' k = - 1)"
      if "w < t'" for t'
    proof -
      have "fst (lookupKeyRead t' db' k) = None"
        using that ex
        by (simp add: lookupKeyRead_def Let_def expireIfNeeded_cases lookupKey_def dictFind_dictDelete)
      moreover have "ttl_value t' db' k = - 1" if "t' - w \<le> 2 ^ 31"
      proof -
        have "int_cast (w - t') = w - t'"
          using that \<open>w < t'\<close> by (intro int_cast_id) auto
        then show ?thesis
          using \<open>w < t'\<close> ttl_value_Some [OF ex wn, of t'] by (simp add: Let_def)
      qed
      ultimately show ?thesis by simp
    qed
    show ?thesis using a b dk unfolding w_def by auto
  qed
  have B: "\<forall>t'. fst (lookupKeyRead t' db' k) = None \<and> ttl_value t' db' k = - 1"
    if lt: "t < now1" and lo: "- (2 ^ 63) \<le> t - now1"
  proof -
    have s: "long_wrap (t - now1) = t - now1"
      using lt lo by (intro long_wrap_id) auto
    have db': "db' = snd (deleteKey db k)" using c lt unfolding s by simp
    have "dictFind (dict db') k = None" "dictFind (expires db') k = None"
      by (simp_all add: db' deleteKey_cases dictFind_dictDelete)
    then show ?thesis
      by (simp add: lookupKeyRead_def Let_def expireIfNeeded_cases lookupKey_def ttl_none)
  qed
  have C: "dict db' = dict db \<and> dictFind (dict db) k \<noteq> None \<and>
            dictFind (expires db') k =
              Some (if t + (now2 - now1) + 2 ^ 64 \<le> 2 ^ 63 - 1 then t + (now2 - now1) + 2 ^ 64
                    else t + (now2 - now1))"
    if far: "t - now1 < - (2 ^ 63)"
  proof -
    have "long_wrap (t - now1 + 2 ^ 64) = t - now1 + 2 ^ 64"
      using far range clock by (intro long_wrap_id) auto
    hence s: "long_wrap (t - now1) = t - now1 + 2 ^ 64"
      using long_wrap_period [of "t - now1"] by (simp only:)
    have pos: "\<not> t - now1 + 2 ^ 64 < 0" using range clock by auto
    have w: "long_wrap (now2 + (t - now1 + 2 ^ 64)) =
             (if t + (now2 - now1) + 2 ^ 64 \<le> 2 ^ 63 - 1 then t + (now2 - now1) + 2 ^ 64
              else t + (now2 - now1))"
    proof (cases "t + (now2 - now1) + 2 ^ 64 \<le> 2 ^ 63 - 1")
      case True
      have "long_wrap (now2 + (t - now1 + 2 ^ 64)) = now2 + (t - now1 + 2 ^ 64)"
        using True range clock by (intro long_wrap_id) auto
      thus ?thesis using True by (simp add: algebra_simps)
    next
      case False
      have "now2 + (t - now1 + 2 ^ 64) = (t + (now2 - now1)) + 2 ^ 64" by simp
      hence "long_wrap (now2 + (t - now1 + 2 ^ 64)) = long_wrap (t + (now2 - now1))"
        by (simp only: long_wrap_period)
      also have "\<dots> = t + (now2 - now1)"
        using False far range clock by (intro long_wrap_id) auto
      finally show ?thesis using False by simp
    qed
    from c pos have "dictFind (dict db) k \<noteq> None"
      and "db' = db\<lparr>expires := (k, long_wrap (now2 + (t - now1 + 2 ^ 64))) # expires db\<rparr>"
      unfolding s by simp_all
    thus ?thesis unfolding w by (simp add: dictFind_def)
  qed
  have D: "dict db' = dict db \<and> dictFind (dict db) k \<noteq> None \<and>
            dictFind (expires db') k = Some (t + (now2 - now1) - 2 ^ 64)"
    if ge: "now1 \<le> t" and over: "2 ^ 63 - 1 < t + (now2 - now1)"
  proof -
    have s: "long_wrap (t - now1) = t - now1"
      using ge range clock by (intro long_wrap_id) auto
    have pos: "\<not> t - now1 < 0" using ge by simp
    have "long_wrap (t + (now2 - now1) - 2 ^ 64) = t + (now2 - now1) - 2 ^ 64"
      using over range clock by (intro long_wrap_id) auto
    moreover have "long_wrap (t + (now2 - now1) - 2 ^ 64 + 2 ^ 64) = long_wrap (t + (now2 - now1) - 2 ^ 64)"
      by (rule long_wrap_period)
    moreover have "t + (now2 - now1) - 2 ^ 64 + 2 ^ 64 = now2 + (t - now1)" by simp
    ultimately have w: "long_wrap (now2 + (t - now1)) = t + (now2 - now1) - 2 ^ 64"
      by (simp only:)
    from c pos have "dictFind (dict db) k \<noteq> None"
      and "db' = db\<lparr>expires := (k, long_wrap (now2 + (t - now1))) # expires db\<rparr>"
      unfolding s by simp_all
    thus ?thesis unfolding w by (simp add: dictFind_def)
  qed
  show ?thesis using A B C D by blast
qed

lemmas reply_eval = shared_cone_def shared_czero_def shared_ok_def crlf_def

text \<open>
  Claim C2 as stated fails at t' = t: after EXPIREAT k 2000, at time 2000 the key is still
  found by lookupKeyRead and TTL replies 0, not -1.
\<close>

theorem expireat_boundary_counterexample:
  "expireatCommand 1000 1000 db_plain_k ''k'' ''2000'' =
     ([shared_cone], db_k_2000) \<and>
   fst (lookupKeyRead 2000 db_k_2000 ''k'')
      = Some (StringObj (Raw ''old'')) \<and>
   ttlCommand 2000 db_k_2000 ''k''
      = ['':0'' @ crlf]"
  by (simp add: db_plain_k_def db_k_2000_def reply_eval expireatCommand_def expireGenericCommand_def ks_eval strtol_eval
        ttlCommand_def ttl_value_def int_cast_def dec_eval long_wrap_id)


theorem expireat_ttl_witness:
  "expireatCommand 1000 1000 db_plain_k ''k'' (fmt_ld 2000) = ([shared_cone], db_k_2000) \<and>
   ttl_value 1990 db_k_2000 ''k'' = 10 \<and>
   fst (lookupKeyRead 1990 db_k_2000 ''k'') = Some (StringObj (Raw ''old'')) \<and>
   fst (lookupKeyRead 2001 db_k_2000 ''k'') = None \<and>
   ttl_value 2001 db_k_2000 ''k'' = - 1 \<and>
   expireatCommand 1000 1000 db_plain_k ''k'' (fmt_ld 500) = ([shared_cone], emptyDb) \<and>
   fst (lookupKeyRead 1001 emptyDb ''k'') = None \<and>
   ttl_value 1001 emptyDb ''k'' = - 1 \<and>
   expireatCommand 1000 1000 db_plain_k ''k'' (fmt_ld (- (2 ^ 63))) =
     ([shared_cone], db_plain_k\<lparr>expires := [(''k'', - (2 ^ 63))]\<rparr>) \<and>
   dictFind (expires (db_plain_k\<lparr>expires := [(''k'', - (2 ^ 63))]\<rparr>)) ''k'' = Some (- (2 ^ 63)) \<and>
   expireatCommand 1000 1001 db_plain_k ''k'' (fmt_ld (2 ^ 63 - 1)) =
     ([shared_cone], db_plain_k\<lparr>expires := [(''k'', - (2 ^ 63))]\<rparr>) \<and>
   dictFind (expires (snd (expireatCommand 1000 1001 db_plain_k ''k'' (fmt_ld (2 ^ 63 - 1))))) ''k'' =
     Some (- (2 ^ 63))"
proof -
  have r: "expireatCommand 1000 1000 db_plain_k ''k'' (fmt_ld 2000) = ([shared_cone], db_k_2000)"
    by (simp add: db_plain_k_def db_k_2000_def expireatCommand_def expireGenericCommand_def
          ks_eval strtol_eval dec_eval long_wrap_id)
  have r2: "expireatCommand 1000 1000 db_plain_k ''k'' (fmt_ld 500) = ([shared_cone], emptyDb)"
    by (simp add: db_plain_k_def emptyDb_def expireatCommand_def expireGenericCommand_def
          ks_eval strtol_eval dec_eval long_wrap_id)
  have w3: "long_wrap (- 9223372036854776808) = 9223372036854774808"
    using long_wrap_period [of "- 9223372036854776808"] by (simp add: long_wrap_id)
  have w4: "long_wrap 9223372036854775808 = - 9223372036854775808"
    using long_wrap_period [of "- 9223372036854775808"] by (simp add: long_wrap_id)
  have r3: "expireatCommand 1000 1000 db_plain_k ''k'' (fmt_ld (- (2 ^ 63))) =
              ([shared_cone], db_plain_k\<lparr>expires := [(''k'', - (2 ^ 63))]\<rparr>)"
    by (simp add: db_plain_k_def expireatCommand_def expireGenericCommand_def
          ks_eval strtol_eval dec_eval w3 w4)
  have d: "dictFind (dict db_plain_k) ''k'' = Some (StringObj (Raw ''old''))"
    by (simp add: db_plain_k_def dictFind_def)
  have "(\<forall>t'. t' \<le> 2000 + (1000 - 1000) \<and> 2000 + (1000 - 1000) - t' < 2 ^ 31 \<longrightarrow>
               ttl_value t' db_k_2000 ''k'' = 2000 + (1000 - 1000) - t' \<and>
               fst (lookupKeyRead t' db_k_2000 ''k'') = dictFind (dict db_plain_k) ''k'' \<and>
               dictFind (dict db_plain_k) ''k'' \<noteq> None) \<and>
        (\<forall>t'. 2000 + (1000 - 1000) < t' \<longrightarrow>
               fst (lookupKeyRead t' db_k_2000 ''k'') = None \<and>
               (t' - (2000 + (1000 - 1000)) \<le> 2 ^ 31 \<longrightarrow> ttl_value t' db_k_2000 ''k'' = - 1))"
    using expireat_ttl [OF r] by simp
  then have a: "ttl_value 1990 db_k_2000 ''k'' = 10"
    "fst (lookupKeyRead 1990 db_k_2000 ''k'') = dictFind (dict db_plain_k) ''k''"
    "fst (lookupKeyRead 2001 db_k_2000 ''k'') = None"
    "ttl_value 2001 db_k_2000 ''k'' = - 1"
    by simp_all
  have "\<forall>t'. fst (lookupKeyRead t' emptyDb ''k'') = None \<and> ttl_value t' emptyDb ''k'' = - 1"
    using expireat_ttl [OF r2] by simp
  then have b: "fst (lookupKeyRead 1001 emptyDb ''k'') = None" "ttl_value 1001 emptyDb ''k'' = - 1"
    by simp_all
  have c: "dictFind (expires (db_plain_k\<lparr>expires := [(''k'', - (2 ^ 63))]\<rparr>)) ''k'' = Some (- (2 ^ 63))"
    using expireat_ttl [OF r3] by simp
  have w5: "long_wrap 9223372036854774807 = 9223372036854774807"
    by (simp add: long_wrap_id)
  have r4: "expireatCommand 1000 1001 db_plain_k ''k'' (fmt_ld (2 ^ 63 - 1)) =
              ([shared_cone], db_plain_k\<lparr>expires := [(''k'', - (2 ^ 63))]\<rparr>)"
    by (simp add: db_plain_k_def expireatCommand_def expireGenericCommand_def
          ks_eval strtol_eval dec_eval w5 w4)
  have e: "dictFind (expires (snd (expireatCommand 1000 1001 db_plain_k ''k'' (fmt_ld (2 ^ 63 - 1))))) ''k'' =
     Some (- (2 ^ 63))"
    using expireat_ttl [OF r4] r4 by simp
  from r r2 r3 r4 a b c d e show ?thesis by simp
qed


section \<open>The active expiry cycle\<close>

lemma expireLookups_numeral:
  "expireLookups (numeral n) now rnd i db expired =
     (case dictGetRandomKey (expires db) (rnd i) of
        None \<Rightarrow> (db, expired, i)
      | Some (k, t) \<Rightarrow>
          if now > t then expireLookups (pred_numeral n) now rnd (Suc i) (snd (deleteKey db k)) (expired + 1)
          else expireLookups (pred_numeral n) now rnd (Suc i) db expired)"
  by (simp add: numeral_eq_Suc)

lemma lookups_eight:
  "expireLookups 8 500 draws_0001 0 db_eight 0 = (db_eight_after, 3, 8)"
  by (simp add: expireLookups_numeral db_eight_def db_eight_after_def draws_0001_def dictGetRandomKey_def ks_eval)

text \<open>
  Claim C8 at a database with fewer than 100 volatile keys. The round samples the 8 entries
  of the expiry dictionary and deletes 3 of them, more than a quarter of the batch, but the
  loop test compares the count with REDIS_EXPIRELOOKUPS_PER_CRON / 4 = 25, so the cycle
  stops after this one round and the expired key e4 stays in the database.
\<close>

theorem active_expire_small_batch:
  "dictSize (expires db_eight) = 8 \<and>
   expireLookups 8 500 draws_0001 0 db_eight 0 = (db_eight_after, 3, 8) \<and>
   expireCycle (\<lambda>r. 500) draws_0001 0 0 db_eight = (db_eight_after, 1, 8) \<and>
   getExpire db_eight_after ''e4'' = 10"
proof -
  have s: "dictSize (expires db_eight) = 8"
    by (simp add: db_eight_def dictSize_def)
  have c: "expireCycle (\<lambda>r. 500) draws_0001 0 0 db_eight = (db_eight_after, 1, 8)"
    by (subst expireCycle.simps) (simp add: s lookups_eight REDIS_EXPIRELOOKUPS_PER_CRON_def)
  have g: "getExpire db_eight_after ''e4'' = 10"
    by (simp add: db_eight_after_def ks_eval)
  from s lookups_eight c g show ?thesis by simp
qed


section \<open>Hashes: the two encodings\<close>






















lemma representable_text: "isStringRepresentableAsLong s = Some v \<Longrightarrow> fmt_ld v = s"
  by (auto simp: isStringRepresentableAsLong_def Let_def split: prod.splits if_splits)

lemma decode_tryObjectEncoding [simp]:
  "getDecodedObject (tryObjectEncoding x) = getDecodedObject x"
  by (cases x) (auto simp: tryObjectEncoding.simps representable_text split: option.splits)












lemma is_zipmap_convert [simp]: "\<not> is_zipmap (convertToRealHash h)"
  by (cases h) simp_all






section \<open>HSET and the conversion of a hash\<close>

lemma lookupKeyWrite_plain:
  "dictFind (expires db) k = None \<Longrightarrow> lookupKeyWrite db k = (dictFind (dict db) k, db)"
  by (simp add: lookupKeyWrite_def lookupKey_def deleteIfVolatile_cases)

lemma lookupKeyRead_plain:
  "dictFind (expires db) k = None \<Longrightarrow> lookupKeyRead now db k = (dictFind (dict db) k, db)"
  by (simp add: lookupKeyRead_def lookupKey_def expireIfNeeded_cases)






lemma len_field_253: "length field_253 = 253"
  by (simp add: field_253_def)

lemma field_253_hd: "field_253 = CHR ''a'' # replicate 252 (CHR ''a'')"
proof -
  have "(253::nat) = Suc 252" by simp
  thus ?thesis unfolding field_253_def by (simp only: replicate_Suc)
qed


lemma field_253_no_match:
  "\<not> (length field_253 = length field_253 \<and>
      take (length field_253) (tl (zipmapEncodeLength (length field_253)) @ field_253) = field_253)"
proof
  assume a: "length field_253 = length field_253 \<and>
      take (length field_253) (tl (zipmapEncodeLength (length field_253)) @ field_253) = field_253"
  have "hd (take (length field_253) (tl (zipmapEncodeLength (length field_253)) @ field_253)) = char_of (253 :: nat)"
    by (simp add: len_field_253 zipmapEncodeLength_def ZIPMAP_BIGLEN_def)
  moreover have "hd field_253 = CHR ''a''" by (simp add: field_253_hd)
  ultimately have "char_of (253 :: nat) = CHR ''a''" using a by simp
  then show False by (simp add: char_of_def)
qed



lemma lookup_long_two:
  "zipmapLookupRaw [ZEntry field_253 v f, ZEntry field_253 v' f'] field_253 req p fr = (None, fr)"
  unfolding zipmapLookupRaw.simps Let_def using field_253_no_match by simp








section \<open>Integer strings in the snapshot file\<close>

lemma digits_length: "0 < k \<Longrightarrow> n < 10 ^ k \<Longrightarrow> length (digits n) \<le> k"
proof (induction n arbitrary: k rule: digits.induct)
  case (1 n)
  show ?case
  proof (cases "n < 10")
    case True
    with "1.prems" show ?thesis by (simp add: digits.simps [of n])
  next
    case False
    obtain j where k: "k = Suc j" using "1.prems"(1) by (cases k) auto
    have "j \<noteq> 0" using False "1.prems"(2) k by (cases j) auto
    moreover have "n div 10 < 10 ^ j" using "1.prems"(2) k by (simp add: less_mult_imp_div_less)
    ultimately have "length (digits (n div 10)) \<le> j"
      using "1.IH" False by simp
    then show ?thesis using False k by (simp add: digits.simps [of n])
  qed
qed

lemma fmt_ld_length_i32:
  assumes "- (2 ^ 31) \<le> v" "v \<le> 2 ^ 31 - 1"
  shows "length (fmt_ld v) \<le> 11"
proof -
  have "nat \<bar>v\<bar> < 10 ^ 10" using assms by simp
  then have "length (digits (nat \<bar>v\<bar>)) \<le> 10"
    by (intro digits_length) simp_all
  then show ?thesis
    by (auto simp: fmt_ld_def abs_if split: if_splits)
qed

lemma ff_mask: "(0xFF :: int) = mask 8"
  by (simp add: mask_eq_exp_minus_1)

lemma low_byte: "(of_int (v AND 0xFF) :: 8 word) = of_int v"
  unfolding ff_mask by (rule bit_word_eqI) (auto simp: bit_simps)

lemma sint8: "- (2 ^ 7) \<le> v \<Longrightarrow> v \<le> 2 ^ 7 - 1 \<Longrightarrow> sint (of_int (v AND 0xFF) :: 8 word) = v"
  by (simp add: low_byte sint_sbintrunc' signed_take_bit_int_eq_self)

lemma word16_bytes:
  "(ucast (of_int (v AND 0xFF) :: 8 word) OR push_bit 8 (ucast (of_int (drop_bit 8 v AND 0xFF) :: 8 word)) :: 16 word)
    = of_int v"
  unfolding ff_mask by (rule bit_word_eqI) (auto simp: bit_simps)

lemma sint16: "- (2 ^ 15) \<le> v \<Longrightarrow> v \<le> 2 ^ 15 - 1 \<Longrightarrow>
  sint (ucast (of_int (v AND 0xFF) :: 8 word) OR push_bit 8 (ucast (of_int (drop_bit 8 v AND 0xFF) :: 8 word)) :: 16 word) = v"
  by (simp add: word16_bytes sint_sbintrunc' signed_take_bit_int_eq_self)

lemma word32_bytes:
  "(ucast (of_int (v AND 0xFF) :: 8 word) OR push_bit 8 (ucast (of_int (drop_bit 8 v AND 0xFF) :: 8 word))
     OR push_bit 16 (ucast (of_int (drop_bit 16 v AND 0xFF) :: 8 word))
     OR push_bit 24 (ucast (of_int (drop_bit 24 v AND 0xFF) :: 8 word)) :: 32 word)
    = of_int v"
  unfolding ff_mask
proof (rule bit_word_eqI)
  fix n
  assume "n < LENGTH(32)"
  then consider "n < 8" | "8 \<le> n" "n < 16" | "16 \<le> n" "n < 24" | "24 \<le> n" "n < 32"
    by fastforce
  then show "bit (ucast (of_int (v AND mask 8) :: 8 word) OR push_bit 8 (ucast (of_int (drop_bit 8 v AND mask 8) :: 8 word))
     OR push_bit 16 (ucast (of_int (drop_bit 16 v AND mask 8) :: 8 word))
     OR push_bit 24 (ucast (of_int (drop_bit 24 v AND mask 8) :: 8 word)) :: 32 word) n
     = bit (of_int v :: 32 word) n"
    by cases (auto simp: bit_simps)
qed

lemma sint32: "- (2 ^ 31) \<le> v \<Longrightarrow> v \<le> 2 ^ 31 - 1 \<Longrightarrow>
  sint (ucast (of_int (v AND 0xFF) :: 8 word) OR push_bit 8 (ucast (of_int (drop_bit 8 v AND 0xFF) :: 8 word))
     OR push_bit 16 (ucast (of_int (drop_bit 16 v AND 0xFF) :: 8 word))
     OR push_bit 24 (ucast (of_int (drop_bit 24 v AND 0xFF) :: 8 word)) :: 32 word) = v"
  by (simp add: word32_bytes sint_sbintrunc' signed_take_bit_int_eq_self)

lemma tags:
  "rdbLoadLen ((of_nat (push_bit 6 REDIS_RDB_ENCVAL OR REDIS_RDB_ENC_INT8) :: byte) # r) = Some (REDIS_RDB_ENC_INT8, True, r)"
  "rdbLoadLen ((of_nat (push_bit 6 REDIS_RDB_ENCVAL OR REDIS_RDB_ENC_INT16) :: byte) # r) = Some (REDIS_RDB_ENC_INT16, True, r)"
  "rdbLoadLen ((of_nat (push_bit 6 REDIS_RDB_ENCVAL OR REDIS_RDB_ENC_INT32) :: byte) # r) = Some (REDIS_RDB_ENC_INT32, True, r)"
  by (simp_all add: rdbLoadLen_def REDIS_RDB_ENCVAL_def REDIS_RDB_ENC_INT8_def REDIS_RDB_ENC_INT16_def
        REDIS_RDB_ENC_INT32_def REDIS_RDB_6BITLEN_def REDIS_RDB_14BITLEN_def Let_def)


lemma rdbTryIntegerEncoding_fmt:
  assumes "- (2 ^ 31) \<le> v" "v \<le> 2 ^ 31 - 1"
  shows "rdbTryIntegerEncoding (fmt_ld v) =
     Some (if - (2 ^ 7) \<le> v \<and> v \<le> 2 ^ 7 - 1
           then [0xC0, of_int (v AND 0xFF)]
           else if - (2 ^ 15) \<le> v \<and> v \<le> 2 ^ 15 - 1
           then [0xC1, of_int (v AND 0xFF), of_int (drop_bit 8 v AND 0xFF)]
           else [0xC2, of_int (v AND 0xFF), of_int (drop_bit 8 v AND 0xFF),
                 of_int (drop_bit 16 v AND 0xFF), of_int (drop_bit 24 v AND 0xFF)])"
proof -
  have "strtoll (fmt_ld v) = (v, [])"
    using assms by (intro strtoll_fmt_ld) auto
  then show ?thesis
    using assms
    by (simp add: rdbTryIntegerEncoding_def REDIS_RDB_ENCVAL_def REDIS_RDB_ENC_INT8_def
          REDIS_RDB_ENC_INT16_def REDIS_RDB_ENC_INT32_def)
qed

lemma enc_tags:
  "(0xC0 :: byte) = of_nat (push_bit 6 REDIS_RDB_ENCVAL OR REDIS_RDB_ENC_INT8)"
  "(0xC1 :: byte) = of_nat (push_bit 6 REDIS_RDB_ENCVAL OR REDIS_RDB_ENC_INT16)"
  "(0xC2 :: byte) = of_nat (push_bit 6 REDIS_RDB_ENCVAL OR REDIS_RDB_ENC_INT32)"
  by (simp_all add: REDIS_RDB_ENCVAL_def REDIS_RDB_ENC_INT8_def REDIS_RDB_ENC_INT16_def REDIS_RDB_ENC_INT32_def)

lemma enc_distinct:
  "REDIS_RDB_ENC_INT16 \<noteq> REDIS_RDB_ENC_INT8" "REDIS_RDB_ENC_INT32 \<noteq> REDIS_RDB_ENC_INT8"
  "REDIS_RDB_ENC_INT32 \<noteq> REDIS_RDB_ENC_INT16"
  by (simp_all add: REDIS_RDB_ENC_INT32_def REDIS_RDB_ENC_INT16_def REDIS_RDB_ENC_INT8_def)

lemma load_int8:
  "- (2 ^ 7) \<le> v \<Longrightarrow> v \<le> 2 ^ 7 - 1 \<Longrightarrow>
   rdbLoadStringObject d ([0xC0, of_int (v AND 0xFF)] @ rest) = Some (fmt_ld v, rest)"
  unfolding enc_tags
  by (simp add: rdbLoadStringObject_def tags rdbLoadIntegerObject_def sint8)

lemma load_int16:
  "- (2 ^ 15) \<le> v \<Longrightarrow> v \<le> 2 ^ 15 - 1 \<Longrightarrow>
   rdbLoadStringObject d ([0xC1, of_int (v AND 0xFF), of_int (drop_bit 8 v AND 0xFF)] @ rest)
     = Some (fmt_ld v, rest)"
  unfolding enc_tags
  by (simp add: rdbLoadStringObject_def tags rdbLoadIntegerObject_def sint16 enc_distinct)

lemma load_int32:
  "- (2 ^ 31) \<le> v \<Longrightarrow> v \<le> 2 ^ 31 - 1 \<Longrightarrow>
   rdbLoadStringObject d ([0xC2, of_int (v AND 0xFF), of_int (drop_bit 8 v AND 0xFF),
                  of_int (drop_bit 16 v AND 0xFF), of_int (drop_bit 24 v AND 0xFF)] @ rest)
     = Some (fmt_ld v, rest)"
  unfolding enc_tags
  by (simp add: rdbLoadStringObject_def tags rdbLoadIntegerObject_def sint32 enc_distinct)

text \<open>
  Claim C5. Let s be the decimal text of an integer v that fits in 32 signed bits. The
  snapshot writer emits for s (held raw or integer encoded in memory) the selector byte
  0xC0, 0xC1 or 0xC2 of the smallest of the int8, int16 and int32 encodings that v fits in,
  followed by the 1, 2 or 4 bytes of v, least significant first, and not the length-prefixed
  bytes of s; and the loader reads these bytes back as the string s, leaving the rest of
  the file.
\<close>

theorem rdb_integer_string_round_trip:
  assumes "- (2 ^ 31) \<le> v" "v \<le> 2 ^ 31 - 1"
  shows "rdbSaveStringObject rdbcompression lzf_compress (Raw (fmt_ld v)) =
           (if - (2 ^ 7) \<le> v \<and> v \<le> 2 ^ 7 - 1
            then [0xC0, of_int (v AND 0xFF)]
            else if - (2 ^ 15) \<le> v \<and> v \<le> 2 ^ 15 - 1
            then [0xC1, of_int (v AND 0xFF), of_int (drop_bit 8 v AND 0xFF)]
            else [0xC2, of_int (v AND 0xFF), of_int (drop_bit 8 v AND 0xFF),
                  of_int (drop_bit 16 v AND 0xFF), of_int (drop_bit 24 v AND 0xFF)]) \<and>
         rdbSaveStringObject rdbcompression lzf_compress (IntEnc v) =
           rdbSaveStringObject rdbcompression lzf_compress (Raw (fmt_ld v)) \<and>
         rdbLoadStringObject lzf_decompress
           (rdbSaveStringObject rdbcompression lzf_compress (Raw (fmt_ld v)) @ rest)
           = Some (fmt_ld v, rest)"
proof -
  let ?enc = "if - (2 ^ 7) \<le> v \<and> v \<le> 2 ^ 7 - 1
            then [0xC0, of_int (v AND 0xFF)]
            else if - (2 ^ 15) \<le> v \<and> v \<le> 2 ^ 15 - 1
            then [0xC1, of_int (v AND 0xFF), of_int (drop_bit 8 v AND 0xFF)]
            else [0xC2, of_int (v AND 0xFF), of_int (drop_bit 8 v AND 0xFF),
                  of_int (drop_bit 16 v AND 0xFF), of_int (drop_bit 24 v AND 0xFF) :: byte]"
  have len: "length (fmt_ld v) \<le> 11" using assms by (rule fmt_ld_length_i32)
  have save: "rdbSaveStringObject rdbcompression lzf_compress (Raw (fmt_ld v)) = ?enc"
    using len rdbTryIntegerEncoding_fmt [OF assms]
    by (simp add: rdbSaveStringObject_def rdbSaveRawString_def)
  have same: "rdbSaveStringObject rdbcompression lzf_compress (IntEnc v) =
           rdbSaveStringObject rdbcompression lzf_compress (Raw (fmt_ld v))"
    by (simp add: rdbSaveStringObject_def)
  show ?thesis
    unfolding same save
    using assms load_int8 [of v lzf_decompress rest] load_int16 [of v lzf_decompress rest]
      load_int32 [of v lzf_decompress rest]
    by auto
qed


theorem rdb_integer_string_round_trip_witness:
  "- (2 ^ 31) \<le> (- 129 :: int) \<and> (- 129 :: int) \<le> 2 ^ 31 - 1 \<and>
   rdbSaveStringObject True (\<lambda>s. None) (Raw ''-129'') = [0xC1, 0x7F, 0xFF] \<and>
   rdbLoadStringObject (\<lambda>bs n. None) ([0xC1, 0x7F, 0xFF] @ [0xFF]) = Some (''-129'', [0xFF])"
proof -
  have f: "fmt_ld (- 129) = ''-129''" by (simp add: dec_eval)
  have b: "(of_int (- 129 AND 0xFF) :: byte) = 0x7F" "(of_int (drop_bit 8 (- 129) AND 0xFF) :: byte) = 0xFF"
    by simp_all
  show ?thesis
    using rdb_integer_string_round_trip [of "- 129" True "\<lambda>s. None" "\<lambda>bs n. None" "[0xFF]"]
    unfolding f b by auto
qed


section \<open>The expiry dictionary stays inside the main dictionary\<close>

lemma expires_in_dict_iff:
  "expires_in_dict db = (\<forall>k. dictFind (expires db) k \<noteq> None \<longrightarrow> dictFind (dict db) k \<noteq> None)"
proof -
  have "(\<forall>e \<in> set (expires db). P (fst e)) = (\<forall>k. map_of (expires db) k \<noteq> None \<longrightarrow> P k)" for P
    by (force simp: map_of_eq_None_iff)
  then show ?thesis
    by (simp add: expires_in_dict_def list_all_iff dictFind_def)
qed

lemma dictFind_setExpire:
  "dictFind (expires (snd (setExpire db k w))) k' =
     (if k' = k \<and> dictFind (expires db) k = None then Some w else dictFind (expires db) k')"
  and dict_setExpire: "dict (snd (setExpire db k w)) = dict db"
  by (auto simp: setExpire_def dictAdd_def dictFind_def)

lemma snd_expireGenericCommand:
  "snd (expireGenericCommand now db k s) =
     (case dictFind (dict db) k of
        None \<Rightarrow> db
      | Some _ \<Rightarrow> if s < 0 then snd (deleteKey db k) else snd (setExpire db k (long_wrap (now + s))))"
  by (auto simp: expireGenericCommand_def Let_def split: option.splits prod.splits bool.splits)

lemma keyspace_step_invariant:
  "expires_in_dict db \<Longrightarrow> expires_in_dict (keyspace_step op db)"
proof (cases op)
  case (KS_expireGeneric now k seconds)
  then show "expires_in_dict db \<Longrightarrow> ?thesis"
    by (auto simp: expires_in_dict_iff snd_expireGenericCommand deleteKey_cases dictFind_dictDelete
          dictFind_setExpire dict_setExpire split: option.splits if_splits)
next
  case (KS_loadWithExpire now k v expiretime)
  assume inv: "expires_in_dict db"
  show ?thesis
  proof (cases "dictFind (dict db) k = None")
    case False
    then show ?thesis using inv KS_loadWithExpire by (simp add: dictAdd_def)
  next
    case True
    define db0 where "db0 = db\<lparr>dict := snd (dictAdd (dict db) k v)\<rparr>"
    have st: "keyspace_step op db =
        (let db1 = snd (setExpire db0 k expiretime)
         in if expiretime < now then snd (deleteKey db1 k) else db1)"
      using True KS_loadWithExpire by (simp add: dictAdd_def db0_def)
    have d0: "dictFind (dict db0) k' = (if k' = k then Some v else dictFind (dict db) k')" for k'
      using True by (simp add: db0_def dictFind_dictAdd)
    have e0: "expires db0 = expires db" by (simp add: db0_def)
    show ?thesis
      unfolding st using inv
      by (auto simp: expires_in_dict_iff Let_def deleteKey_cases dictFind_dictDelete
            dictFind_setExpire dict_setExpire d0 e0 split: if_splits)
  qed
qed (auto simp: expires_in_dict_iff deleteKey_cases expireIfNeeded_cases deleteIfVolatile_cases
       dictFind_dictDelete dictFind_dictAdd dictFind_dictReplace expires_removeExpire dict_removeExpire
       dictFind_def [of "[]"] split: option.splits if_splits)

lemma keyspace_steps_invariant:
  "expires_in_dict db \<Longrightarrow> expires_in_dict (keyspace_steps ops db)"
  by (induction ops arbitrary: db) (simp_all add: keyspace_step_invariant)


lemma inv_dictAdd: "expires_in_dict db \<Longrightarrow> expires_in_dict (db\<lparr>dict := snd (dictAdd (dict db) k v)\<rparr>)"
  using keyspace_step_invariant [of db "KS_dictAdd k v"] by simp

lemma inv_dictReplace: "expires_in_dict db \<Longrightarrow> expires_in_dict (db\<lparr>dict := snd (dictReplace (dict db) k v)\<rparr>)"
  using keyspace_step_invariant [of db "KS_dictReplace k v"] by simp

lemma inv_deleteKey: "expires_in_dict db \<Longrightarrow> expires_in_dict (snd (deleteKey db k))"
  using keyspace_step_invariant [of db "KS_deleteKey k"] by simp

lemma inv_removeExpire: "expires_in_dict db \<Longrightarrow> expires_in_dict (snd (removeExpire db k))"
  using keyspace_step_invariant [of db "KS_removeExpire k"] by simp

lemma inv_expireIfNeeded: "expires_in_dict db \<Longrightarrow> expires_in_dict (snd (expireIfNeeded now db k))"
  using keyspace_step_invariant [of db "KS_expireIfNeeded now k"] by simp

lemma inv_deleteIfVolatile: "expires_in_dict db \<Longrightarrow> expires_in_dict (snd (deleteIfVolatile db k))"
  using keyspace_step_invariant [of db "KS_deleteIfVolatile k"] by simp

lemma inv_expireGeneric: "expires_in_dict db \<Longrightarrow> expires_in_dict (snd (expireGenericCommand now db k s))"
  using keyspace_step_invariant [of db "KS_expireGeneric now k s"] by simp

lemma inv_lookupKeyRead: "expires_in_dict db \<Longrightarrow> expires_in_dict (snd (lookupKeyRead now db k))"
  by (simp add: lookupKeyRead_def Let_def inv_expireIfNeeded)

lemma inv_lookupKeyWrite: "expires_in_dict db \<Longrightarrow> expires_in_dict (snd (lookupKeyWrite db k))"
  by (simp add: lookupKeyWrite_def Let_def inv_deleteIfVolatile)

lemma inv_setGeneric: "expires_in_dict db \<Longrightarrow> expires_in_dict (snd (setGenericCommand db k v nx))"
proof -
  assume inv: "expires_in_dict db"
  define db1 where "db1 = (if nx then snd (deleteIfVolatile db k) else db)"
  have i1: "expires_in_dict db1" using inv by (simp add: db1_def inv_deleteIfVolatile)
  have "snd (setGenericCommand db k v nx) =
          (if fst (dictAdd (dict db1) k (StringObj v))
           then snd (removeExpire (db1\<lparr>dict := snd (dictAdd (dict db1) k (StringObj v))\<rparr>) k)
           else if \<not> nx then snd (removeExpire (db1\<lparr>dict := snd (dictReplace (dict db1) k (StringObj v))\<rparr>) k)
           else db1)"
    by (cases "dictAdd (dict db1) k (StringObj v)")
       (auto simp: setGenericCommand_def db1_def Let_def split: bool.splits)
  then show ?thesis
    using i1 by (simp add: inv_removeExpire inv_dictAdd inv_dictReplace)
qed

lemma inv_getset: "expires_in_dict db \<Longrightarrow> expires_in_dict (snd (getsetCommand now db k v))"
proof -
  assume inv: "expires_in_dict db"
  define db1 where "db1 = snd (lookupKeyRead now db k)"
  have i1: "expires_in_dict db1" using inv by (simp add: db1_def inv_lookupKeyRead)
  have g: "snd (snd (getGenericCommand now db k)) = db1"
    by (cases "lookupKeyRead now db k")
       (auto simp: getGenericCommand_def db1_def split: option.splits robj.splits)
  have "snd (getsetCommand now db k v) =
          (if fst (getGenericCommand now db k)
           then snd (removeExpire (db1\<lparr>dict :=
                   (if fst (dictAdd (dict db1) k (StringObj v)) then snd (dictAdd (dict db1) k (StringObj v))
                    else snd (dictReplace (dict db1) k (StringObj v)))\<rparr>) k)
           else db1)"
    using g
    by (cases "getGenericCommand now db k"; cases "dictAdd (dict db1) k (StringObj v)")
       (auto simp: getsetCommand_def Let_def split: bool.splits)
  then show ?thesis
    using i1 by (simp add: inv_removeExpire inv_dictAdd inv_dictReplace)
qed

lemma inv_delKeys: "expires_in_dict db \<Longrightarrow> expires_in_dict (snd (delKeys db ks n))"
proof (induction ks arbitrary: db n)
  case Nil
  then show ?case by simp
next
  case (Cons k ks)
  show ?case
    using Cons.IH [OF inv_deleteKey [OF Cons.prems, of k]]
    by (cases "deleteKey db k") (auto split: bool.splits)
qed

lemma inv_del: "expires_in_dict db \<Longrightarrow> expires_in_dict (snd (delCommand db ks))"
  using inv_delKeys [of db ks 0] by (cases "delKeys db ks 0") (simp add: delCommand_def)

lemma inv_rename: "expires_in_dict db \<Longrightarrow> expires_in_dict (snd (renameGenericCommand db src dst nx))"
proof -
  assume inv: "expires_in_dict db"
  define db1 where "db1 = snd (lookupKeyWrite db src)"
  define db2 where "db2 = snd (deleteIfVolatile db1 dst)"
  have i1: "expires_in_dict db1" using inv by (simp add: db1_def inv_lookupKeyWrite)
  have i2: "expires_in_dict db2" using i1 by (simp add: db2_def inv_deleteIfVolatile)
  show ?thesis
  proof (cases "src = dst")
    case True
    then show ?thesis using inv by (simp add: renameGenericCommand_def)
  next
    case ne: False
    show ?thesis
    proof (cases "fst (lookupKeyWrite db src)")
      case None
      then have "snd (renameGenericCommand db src dst nx) = db1"
        using ne by (cases "lookupKeyWrite db src") (simp add: renameGenericCommand_def db1_def)
      then show ?thesis using i1 by simp
    next
      case (Some v)
      have r: "snd (renameGenericCommand db src dst nx) =
          (if fst (dictAdd (dict db2) dst v)
           then snd (deleteKey (db2\<lparr>dict := snd (dictAdd (dict db2) dst v)\<rparr>) src)
           else if nx then db2
           else snd (deleteKey (db2\<lparr>dict := snd (dictReplace (dict db2) dst v)\<rparr>) src))"
        using ne Some
        by (cases "lookupKeyWrite db src"; cases "dictAdd (dict db2) dst v")
           (auto simp: renameGenericCommand_def db1_def db2_def Let_def split: bool.splits)
      show ?thesis
        unfolding r using i2 by (simp add: inv_deleteKey inv_dictAdd inv_dictReplace)
    qed
  qed
qed

lemma inv_flushdb: "expires_in_dict (snd (flushdbCommand db))"
  by (simp add: flushdbCommand_def expires_in_dict_def)

lemma inv_hset: "expires_in_dict db \<Longrightarrow> expires_in_dict (snd (hsetCommand n m db k f v))"
proof -
  assume inv: "expires_in_dict db"
  define db1 where "db1 = snd (lookupKeyWrite db k)"
  have i1: "expires_in_dict db1" using inv by (simp add: db1_def inv_lookupKeyWrite)
  have "snd (hsetCommand n m db k f v) = db1 \<or>
        (\<exists>o'. snd (hsetCommand n m db k f v) = db1\<lparr>dict := snd (dictAdd (dict db1) k o')\<rparr>) \<or>
        (\<exists>o'. snd (hsetCommand n m db k f v) = db1\<lparr>dict := snd (dictReplace (dict db1) k o')\<rparr>)"
    by (cases "lookupKeyWrite db k")
       (auto simp: hsetCommand_def db1_def split: option.splits prod.splits robj.splits)
  then show ?thesis using i1 by (auto simp: inv_dictAdd inv_dictReplace)
qed

lemma inv_hdel: "expires_in_dict db \<Longrightarrow> expires_in_dict (snd (hdelCommand db k f))"
proof -
  assume inv: "expires_in_dict db"
  define db1 where "db1 = snd (lookupKeyWrite db k)"
  have i1: "expires_in_dict db1" using inv by (simp add: db1_def inv_lookupKeyWrite)
  have "snd (hdelCommand db k f) = db1 \<or>
        (\<exists>o'. snd (hdelCommand db k f) = db1\<lparr>dict := snd (dictReplace (dict db1) k o')\<rparr>)"
    by (cases "lookupKeyWrite db k")
       (auto simp: hdelCommand_def db1_def split: option.splits prod.splits robj.splits)
  then show ?thesis using i1 by (auto simp: inv_dictReplace)
qed

lemma inv_expireLookups:
  "expires_in_dict db \<Longrightarrow> expires_in_dict (fst (expireLookups n now rnd i db e))"
proof (induction n arbitrary: i db e)
  case 0
  then show ?case by simp
next
  case (Suc n)
  show ?case
    using Suc.prems Suc.IH [OF Suc.prems] Suc.IH [OF inv_deleteKey [OF Suc.prems]]
    by (auto split: option.splits prod.splits)
qed

lemma inv_expireCycle:
  "expires_in_dict db \<Longrightarrow> expires_in_dict (fst (expireCycle clock rnd r i db))"
proof (induction clock rnd r i db rule: expireCycle.induct)
  case (1 clock rnd r i db)
  define num where "num = (if dictSize (expires db) > REDIS_EXPIRELOOKUPS_PER_CRON
                           then REDIS_EXPIRELOOKUPS_PER_CRON else dictSize (expires db))"
  obtain db' expired i' where l: "expireLookups num (clock r) rnd i db 0 = (db', expired, i')"
    by (cases "expireLookups num (clock r) rnd i db 0") auto
  have i': "expires_in_dict db'"
    using inv_expireLookups [OF "1.prems", of num "clock r" rnd i 0] l by simp
  show ?case
  proof (cases "expired > REDIS_EXPIRELOOKUPS_PER_CRON div 4")
    case True
    have "expires_in_dict (fst (expireCycle clock rnd (Suc r) i' db'))"
      using "1.IH" [OF refl refl refl _ _ True i'] l by (simp add: num_def)
    then show ?thesis
      using True l by (subst expireCycle.simps) (simp add: num_def Let_def)
  next
    case False
    then show ?thesis
      using l i' by (subst expireCycle.simps) (simp add: num_def Let_def)
  qed
qed


lemma delKeys_find:
  "dictFind (dict (snd (delKeys db ks n))) k = (if k \<in> set ks then None else dictFind (dict db) k) \<and>
   dictFind (expires (snd (delKeys db ks n))) k = (if k \<in> set ks then None else dictFind (expires db) k)"
proof (induction ks arbitrary: db n)
  case Nil
  show ?case by simp
next
  case (Cons a ks)
  have "delKeys db (a # ks) n = delKeys (snd (deleteKey db a)) ks (if fst (deleteKey db a) then n + 1 else n)"
    by (cases "deleteKey db a") (auto split: bool.splits)
  then show ?case
    using Cons.IH [of "snd (deleteKey db a)"]
    by (simp add: deleteKey_cases dictFind_dictDelete)
qed

text \<open>
  Claim C1. The empty database has the invariant that every key of the expiry dictionary
  is a key of the main dictionary, and the invariant is kept by every sequence of the steps
  through which redis.c changes the two dictionaries, and so by the commands built from
  them: SET, SETNX, GETSET, DEL, RENAME, RENAMENX, FLUSHDB, EXPIRE, EXPIREAT, the two lookups
  that every other command starts with, HSET, HDEL and the active expiry cycle. Every
  deletion of a key removes it from both dictionaries: deleteKey and DEL always,
  deleteIfVolatile when the key has an expiry, expireIfNeeded when the expiry is past.
\<close>

theorem expiry_invariant:
  "expires_in_dict emptyDb \<and>
   (expires_in_dict db \<longrightarrow>
      expires_in_dict (keyspace_steps ops db) \<and>
      expires_in_dict (snd (setGenericCommand db k v nx)) \<and>
      expires_in_dict (snd (getsetCommand now db k v)) \<and>
      expires_in_dict (snd (delCommand db ks)) \<and>
      expires_in_dict (snd (renameGenericCommand db k k' nx)) \<and>
      expires_in_dict (snd (flushdbCommand db)) \<and>
      expires_in_dict (snd (expireCommand now db k arg)) \<and>
      expires_in_dict (snd (expireatCommand now now' db k arg)) \<and>
      expires_in_dict (snd (lookupKeyRead now db k)) \<and>
      expires_in_dict (snd (lookupKeyWrite db k)) \<and>
      expires_in_dict (snd (hsetCommand n m db k f v)) \<and>
      expires_in_dict (snd (hdelCommand db k fo)) \<and>
      expires_in_dict (fst (expireCycle clock rnd r i db))) \<and>
   dictFind (dict (snd (deleteKey db k))) k = None \<and>
   dictFind (expires (snd (deleteKey db k))) k = None \<and>
   (\<forall>x \<in> set ks. dictFind (dict (snd (delCommand db ks))) x = None \<and>
                  dictFind (expires (snd (delCommand db ks))) x = None) \<and>
   (dictFind (expires db) k \<noteq> None \<longrightarrow>
      dictFind (dict (snd (deleteIfVolatile db k))) k = None \<and>
      dictFind (expires (snd (deleteIfVolatile db k))) k = None) \<and>
   (\<forall>w. dictFind (expires db) k = Some w \<and> w < now \<longrightarrow>
      dictFind (dict (snd (expireIfNeeded now db k))) k = None \<and>
      dictFind (expires (snd (expireIfNeeded now db k))) k = None)"
proof -
  have e: "expires_in_dict emptyDb"
    by (simp add: emptyDb_def expires_in_dict_def)
  have c: "expires_in_dict (keyspace_steps ops db) \<and>
      expires_in_dict (snd (setGenericCommand db k v nx)) \<and>
      expires_in_dict (snd (getsetCommand now db k v)) \<and>
      expires_in_dict (snd (delCommand db ks)) \<and>
      expires_in_dict (snd (renameGenericCommand db k k' nx)) \<and>
      expires_in_dict (snd (flushdbCommand db)) \<and>
      expires_in_dict (snd (expireCommand now db k arg)) \<and>
      expires_in_dict (snd (expireatCommand now now' db k arg)) \<and>
      expires_in_dict (snd (lookupKeyRead now db k)) \<and>
      expires_in_dict (snd (lookupKeyWrite db k)) \<and>
      expires_in_dict (snd (hsetCommand n m db k f v)) \<and>
      expires_in_dict (snd (hdelCommand db k fo)) \<and>
      expires_in_dict (fst (expireCycle clock rnd r i db))" if "expires_in_dict db"
    using that
    by (simp add: keyspace_steps_invariant inv_setGeneric inv_getset inv_del inv_rename inv_flushdb
          expireCommand_def expireatCommand_def inv_expireGeneric inv_lookupKeyRead inv_lookupKeyWrite
          inv_hset inv_hdel inv_expireCycle)
  have d1: "dictFind (dict (snd (deleteKey db k))) k = None \<and>
            dictFind (expires (snd (deleteKey db k))) k = None"
    by (simp add: deleteKey_cases dictFind_dictDelete)
  have d2: "\<forall>x \<in> set ks. dictFind (dict (snd (delCommand db ks))) x = None \<and>
                  dictFind (expires (snd (delCommand db ks))) x = None"
    using delKeys_find [of db ks 0] by (cases "delKeys db ks 0") (simp add: delCommand_def)
  have d3: "dictFind (expires db) k \<noteq> None \<longrightarrow>
      dictFind (dict (snd (deleteIfVolatile db k))) k = None \<and>
      dictFind (expires (snd (deleteIfVolatile db k))) k = None"
    by (auto simp: deleteIfVolatile_cases dictFind_dictDelete)
  have d4: "\<forall>w. dictFind (expires db) k = Some w \<and> w < now \<longrightarrow>
      dictFind (dict (snd (expireIfNeeded now db k))) k = None \<and>
      dictFind (expires (snd (expireIfNeeded now db k))) k = None"
    by (auto simp: expireIfNeeded_cases dictFind_dictDelete)
  from e c d1 d2 d3 d4 show ?thesis by blast
qed

theorem expiry_invariant_witness:
  "expires_in_dict db_volatile_k \<and>
   dictFind (expires db_volatile_k) ''k'' = Some 1100 \<and>
   expires_in_dict (snd (delCommand db_volatile_k [''k''])) \<and>
   dictFind (dict (snd (delCommand db_volatile_k [''k'']))) ''k'' = None \<and>
   dictFind (expires (snd (delCommand db_volatile_k [''k'']))) ''k'' = None \<and>
   dictFind (dict (snd (expireIfNeeded 1101 db_volatile_k ''k''))) ''k'' = None \<and>
   dictFind (expires (snd (expireIfNeeded 1101 db_volatile_k ''k''))) ''k'' = None \<and>
   dictFind (dict (snd (deleteIfVolatile db_volatile_k ''k''))) ''k'' = None"
proof -
  have i: "expires_in_dict db_volatile_k"
    by (simp add: db_volatile_k_eq expires_in_dict_def dictFind_def)
  have x: "dictFind (expires db_volatile_k) ''k'' = Some 1100"
    by (simp add: db_volatile_k_eq dictFind_def)
  show ?thesis
    using i x expiry_invariant [where db = db_volatile_k and ks = "[''k'']" and k = "''k''" and now = 1101]
    by simp
qed


section \<open>Transactions: MULTI, queueing and EXEC\<close>









































lemmas server_eval = kv_server_full_def kv_server_pass_def kv_server_def kv_table_def











section \<open>Request size and bulk lengths\<close>



































section \<open>Pushing to a key with blocked clients\<close>

lemma count_list_remove1: "x \<in> set l \<Longrightarrow> count_list (remove1 x l) x = count_list l x - 1"
  by (induction l) auto

lemma count_list_mem_pos: "x \<in> set l \<Longrightarrow> 0 < count_list l x"
  by (induction l) auto

lemma ne_mem_empty: "x \<in> A \<Longrightarrow> A \<noteq> {}"
  by blast

lemma count_list_pos_mem: "0 < count_list l x \<Longrightarrow> x \<in> set l"
  by (induction l) (auto split: if_splits)

lemma unblock_step_find:
  "dictFind (if length l' = 0 then snd (dictDelete bk k) else snd (dictReplace bk k l')) k' =
     (if k' = k then (if l' = [] then None else Some l') else dictFind bk k')"
  by (simp add: dictFind_dictDelete dictFind_dictReplace)

lemma unblockKeys_ok:
  "\<forall>k \<in> set ks. \<exists>l. dictFind bk k = Some l \<and> count_list ks k \<le> count_list l cid
   \<Longrightarrow> \<exists>bk'. unblockKeys bk cid ks = Some bk'"
proof (induction ks arbitrary: bk)
  case Nil
  show ?case by simp
next
  case (Cons k ks)
  from Cons.prems obtain l where l: "dictFind bk k = Some l"
    and c: "count_list (k # ks) k \<le> count_list l cid" by auto
  from c have pos: "0 < count_list l cid" by simp
  hence mem: "cid \<in> set l" by (rule count_list_pos_mem)
  let ?l' = "remove1 cid l"
  let ?bk = "if length ?l' = 0 then snd (dictDelete bk k) else snd (dictReplace bk k ?l')"
  have cl': "count_list ?l' cid = count_list l cid - 1" using mem by (rule count_list_remove1)
  have "\<forall>k' \<in> set ks. \<exists>l2. dictFind ?bk k' = Some l2 \<and> count_list ks k' \<le> count_list l2 cid"
  proof
    fix k' assume k': "k' \<in> set ks"
    show "\<exists>l2. dictFind ?bk k' = Some l2 \<and> count_list ks k' \<le> count_list l2 cid"
    proof (cases "k' = k")
      case True
      have "0 < count_list ks k" using k' True by (simp add: count_list_mem_pos)
      moreover have le: "count_list ks k \<le> count_list ?l' cid" using c cl' by simp
      ultimately have "0 < count_list ?l' cid" by (rule less_le_trans)
      hence "cid \<in> set ?l'" by (rule count_list_pos_mem)
      hence "set ?l' \<noteq> {}" by (rule ne_mem_empty)
      hence "?l' \<noteq> []" by (simp only: set_empty not_False_eq_True)
      hence "dictFind ?bk k' = Some ?l'" unfolding unblock_step_find using True by simp
      thus ?thesis using le True by simp
    next
      case False
      from Cons.prems k' obtain l2 where "dictFind bk k' = Some l2"
        and "count_list (k # ks) k' \<le> count_list l2 cid" by auto
      thus ?thesis unfolding unblock_step_find using False by simp
    qed
  qed
  from Cons.IH [OF this] obtain bk' where "unblockKeys ?bk cid ks = Some bk'" ..
  thus ?case using l mem by (simp add: Let_def)
qed

lemma unblockKeys_other:
  "unblockKeys bk cid ks = Some bk' \<Longrightarrow> k \<notin> set ks \<Longrightarrow> dictFind bk' k = dictFind bk k"
proof (induction ks arbitrary: bk)
  case Nil
  thus ?case by simp
next
  case (Cons a ks)
  from Cons.prems(1) obtain l where l: "dictFind bk a = Some l" and mem: "cid \<in> set l"
    and u: "unblockKeys (if length (remove1 cid l) = 0 then snd (dictDelete bk a)
                         else snd (dictReplace bk a (remove1 cid l))) cid ks = Some bk'"
    by (auto simp: Let_def split: option.splits if_splits)
  from Cons.prems(2) have ne: "k \<noteq> a" and nk: "k \<notin> set ks" by auto
  from Cons.IH [OF u nk] show ?case unfolding unblock_step_find using ne by simp
qed

lemma unblockKeys_once:
  "unblockKeys bk cid ks = Some bk' \<Longrightarrow> count_list ks k = 1 \<Longrightarrow> dictFind bk k = Some l \<Longrightarrow>
   dictFind bk' k = (if remove1 cid l = [] then None else Some (remove1 cid l))"
proof (induction ks arbitrary: bk)
  case Nil
  thus ?case by simp
next
  case (Cons a ks)
  from Cons.prems(1) obtain la where la: "dictFind bk a = Some la" and mem: "cid \<in> set la"
    and u: "unblockKeys (if length (remove1 cid la) = 0 then snd (dictDelete bk a)
                         else snd (dictReplace bk a (remove1 cid la))) cid ks = Some bk'"
    by (auto simp: Let_def split: option.splits if_splits)
  show ?case
  proof (cases "a = k")
    case True
    hence "k \<notin> set ks" using Cons.prems(2) count_list_mem_pos [of k ks] by auto
    from unblockKeys_other [OF u this] la True Cons.prems(3)
    show ?thesis unfolding unblock_step_find by auto
  next
    case False
    hence c: "count_list ks k = 1" using Cons.prems(2) by simp
    have f: "dictFind (if length (remove1 cid la) = 0 then snd (dictDelete bk a)
                         else snd (dictReplace bk a (remove1 cid la))) k = Some l"
      unfolding unblock_step_find using False Cons.prems(3) by simp
    from Cons.IH [OF u c f] show ?thesis .
  qed
qed

lemma lookupKeyRead_after_write:
  "lookupKeyRead now (snd (lookupKeyWrite db k)) k = lookupKeyWrite db k"
proof (cases "dictFind (expires db) k")
  case None
  thus ?thesis by (simp add: lookupKeyWrite_plain lookupKeyRead_plain)
next
  case (Some w)
  let ?db = "db\<lparr>dict := snd (dictDelete (dict db) k), expires := snd (dictDelete (expires db) k)\<rparr>"
  have w: "lookupKeyWrite db k = (None, ?db)"
    using Some by (simp add: lookupKeyWrite_def lookupKey_def deleteIfVolatile_cases dictFind_dictDelete)
  have "dictFind (expires ?db) k = None" by (simp add: dictFind_dictDelete)
  hence "lookupKeyRead now ?db k = (dictFind (dict ?db) k, ?db)" by (rule lookupKeyRead_plain)
  thus ?thesis unfolding w by (simp add: dictFind_dictDelete)
qed

lemma foldl_addReply: "foldl addReply c rs = c\<lparr>reply := reply c @ rs\<rparr>"
  by (induction rs arbitrary: c) (simp_all add: addReply_def)

lemma unblock_receiver:
  assumes ks: "blockingkeys (clients st r) = Some ks"
    and u: "unblockKeys (db_blockingkeys st) r ks = Some bk"
    and q: "querybuf (clients st r) = []"
  shows "unblockClientWaitingData pib st r =
           Some (st\<lparr>db_blockingkeys := bk,
                    clients := (clients st)(r := (clients st r)\<lparr>blockingkeys := None, flag_blocked := False\<rparr>),
                    blpop_blocked_clients := blpop_blocked_clients st - 1\<rparr>)"
  using ks u q by (simp add: unblockClientWaitingData_def Let_def)

lemma handle_delivers:
  assumes w: "dictFind (db_blockingkeys st) k = Some (r # rest)"
    and ks: "blockingkeys (clients st r) = Some ks"
    and u: "unblockKeys (db_blockingkeys st) r ks = Some bk"
    and q: "querybuf (clients st r) = []"
  shows "handleClientsWaitingListPush pib st k ele =
           Some (True,
                 st\<lparr>db_blockingkeys := bk,
                    clients := (clients st)(r := (clients st r)
                       \<lparr>reply := reply (clients st r) @ [''*2'' @ crlf] @ addReplyBulk k @ addReplyBulk ele,
                        blockingkeys := None, flag_blocked := False\<rparr>),
                    blpop_blocked_clients := blpop_blocked_clients st - 1\<rparr>)"
proof -
  let ?st1 = "replyTo st r ([''*2'' @ crlf] @ addReplyBulk k @ addReplyBulk ele)"
  have a: "blockingkeys (clients ?st1 r) = Some ks" using ks by (simp add: replyTo_def foldl_addReply addReply_def)
  have b: "unblockKeys (db_blockingkeys ?st1) r ks = Some bk" using u by (simp add: replyTo_def)
  have c: "querybuf (clients ?st1 r) = []" using q by (simp add: replyTo_def foldl_addReply addReply_def)
  show ?thesis
    apply (simp only: handleClientsWaitingListPush_def Let_def w option.case list.case
             unblock_receiver [OF a b c, of pib])
    apply (simp add: replyTo_def foldl_addReply addReply_def)
    done
qed

lemma push_delivers:
  assumes w: "dictFind (db_blockingkeys st) k = Some (r # rest)"
    and ks: "blockingkeys (clients st r) = Some ks"
    and u: "unblockKeys (db_blockingkeys st) r ks = Some bk"
    and q: "querybuf (clients st r) = []"
    and ty: "\<forall>v. fst (lookupKeyWrite (sdb st) k) = Some v \<longrightarrow> obj_type v = REDIS_LIST"
  shows "pushGenericCommand pib head st cid k ele =
           Some (replyTo
                 (st\<lparr>sdb := snd (lookupKeyWrite (sdb st) k),
                     db_blockingkeys := bk,
                     clients := (clients st)(r := (clients st r)
                       \<lparr>reply := reply (clients st r) @ [''*2'' @ crlf] @ addReplyBulk k @ addReplyBulk ele,
                        blockingkeys := None, flag_blocked := False\<rparr>),
                     blpop_blocked_clients := blpop_blocked_clients st - 1\<rparr>) cid [shared_cone])"
proof -
  obtain lobj db1 where lw: "lookupKeyWrite (sdb st) k = (lobj, db1)" by (cases "lookupKeyWrite (sdb st) k")
  let ?st = "st\<lparr>sdb := db1\<rparr>"
  have a: "dictFind (db_blockingkeys ?st) k = Some (r # rest)" using w by simp
  have b: "blockingkeys (clients ?st r) = Some ks" using ks by simp
  have c: "unblockKeys (db_blockingkeys ?st) r ks = Some bk" using u by simp
  have d: "querybuf (clients ?st r) = []" using q by simp
  note h = handle_delivers [OF a b c d, of pib ele]
  from ty lw have "lobj = None \<or> (\<exists>l. lobj = Some (ListObj l))"
    by (cases lobj) (auto elim: obj_type.elims)
  thus ?thesis
  proof
    assume "lobj = None"
    thus ?thesis
      apply (simp only: pushGenericCommand_def lw prod.case Let_def option.case h bool.case)
      apply (simp add: replyTo_def)
      done
  next
    assume "\<exists>l. lobj = Some (ListObj l)"
    then obtain l where "lobj = Some (ListObj l)" ..
    thus ?thesis
      apply (simp only: pushGenericCommand_def lw prod.case Let_def option.case robj.case h bool.case)
      apply (simp add: replyTo_def)
      done
  qed
qed

lemma push_wrong_type:
  assumes "fst (lookupKeyWrite (sdb st) k) = Some v" "obj_type v \<noteq> REDIS_LIST"
  shows "pushGenericCommand pib head st cid k ele =
           Some (replyTo (st\<lparr>sdb := snd (lookupKeyWrite (sdb st) k)\<rparr>) cid [shared_wrongtypeerr])"
  using assms by (cases "lookupKeyWrite (sdb st) k"; cases v) (simp_all add: pushGenericCommand_def)

lemma llen_reply:
  "llenCommand now (st\<lparr>sdb := snd (lookupKeyWrite db k)\<rparr>) c k =
     replyTo (st\<lparr>sdb := snd (lookupKeyWrite db k)\<rparr>) c
       (case fst (lookupKeyWrite db k) of
          None \<Rightarrow> [shared_czero]
        | Some (ListObj l) \<Rightarrow> addReplyLong (int (length l))
        | Some _ \<Rightarrow> [shared_wrongtypeerr])"
proof -
  obtain lobj db1 where lw: "lookupKeyWrite db k = (lobj, db1)" by (cases "lookupKeyWrite db k")
  have "lookupKeyRead now db1 k = (lobj, db1)" using lookupKeyRead_after_write [of now db k] lw by simp
  thus ?thesis unfolding llenCommand_def lw
    by (simp split: option.splits robj.splits)
qed

lemma blockForKeys_loop_tail:
  "\<exists>bk'. blockForKeys_loop bk c keys = Some bk' \<and>
     (\<forall>k. dictFind bk' k =
        (if count_list keys k = 0 then dictFind bk k
         else Some ((case dictFind bk k of None \<Rightarrow> [] | Some l \<Rightarrow> l) @ replicate (count_list keys k) c)))"
proof (induction keys arbitrary: bk)
  case Nil
  show ?case by simp
next
  case (Cons a keys)
  let ?l = "case dictFind bk a of None \<Rightarrow> [] | Some l \<Rightarrow> l"
  let ?bk = "case dictFind bk a of None \<Rightarrow> snd (dictReplace (snd (dictAdd bk a [])) a ([] @ [c]))
             | Some l \<Rightarrow> snd (dictReplace bk a (l @ [c]))"
  have step: "blockForKeys_loop bk c (a # keys) = blockForKeys_loop ?bk c keys"
    by (cases "dictFind bk a") (simp_all add: dictAdd_def)
  have f: "\<And>k. dictFind ?bk k = (if k = a then Some (?l @ [c]) else dictFind bk k)"
    by (cases "dictFind bk a") (simp_all add: dictFind_dictReplace dictFind_dictAdd)
  from Cons.IH [of ?bk] obtain bk' where r: "blockForKeys_loop ?bk c keys = Some bk'"
    and g: "\<And>k. dictFind bk' k =
        (if count_list keys k = 0 then dictFind ?bk k
         else Some ((case dictFind ?bk k of None \<Rightarrow> [] | Some l \<Rightarrow> l) @ replicate (count_list keys k) c))"
    by blast
  have "\<forall>k. dictFind bk' k =
        (if count_list (a # keys) k = 0 then dictFind bk k
         else Some ((case dictFind bk k of None \<Rightarrow> [] | Some l \<Rightarrow> l) @ replicate (count_list (a # keys) k) c))"
    unfolding g f by (simp add: replicate_app_Cons_same)
  with r step show ?case by simp
qed

lemma blockForKeys_tail:
  "\<exists>st'. blockForKeys st c keys t = Some st' \<and>
     dictFind (db_blockingkeys st') k =
        (if count_list keys k = 0 then dictFind (db_blockingkeys st) k
         else Some ((case dictFind (db_blockingkeys st) k of None \<Rightarrow> [] | Some l \<Rightarrow> l)
                    @ replicate (count_list keys k) c))"
proof -
  from blockForKeys_loop_tail [of "db_blockingkeys st" c keys] obtain bk'
    where a: "blockForKeys_loop (db_blockingkeys st) c keys = Some bk'"
      and b: "\<And>k. dictFind bk' k =
        (if count_list keys k = 0 then dictFind (db_blockingkeys st) k
         else Some ((case dictFind (db_blockingkeys st) k of None \<Rightarrow> [] | Some l \<Rightarrow> l)
                    @ replicate (count_list keys k) c))" by blast
  show ?thesis unfolding blockForKeys_def a by (simp add: b)
qed

lemmas bl_eval = replyTo_def keyspaceCommand_def blockForKeys_def unblockClientWaitingData_def
  handleClientsWaitingListPush_def pushGenericCommand_def llenCommand_def popGenericCommand_def
  blockingPopGenericCommand_def addReply_def createClient_def emptyDb_def addReplyBulk_def
  addReplyLong_def

lemma trace_blpop_eval:
  "trace_blpop = Some (st_idle\<lparr>db_blockingkeys := [(''k'', [0])],
      clients := (\<lambda>i. createClient [])
        (0 := (createClient [])\<lparr>flag_blocked := True, blockingkeys := Some [''k''], blockingto := 0\<rparr>),
      blpop_blocked_clients := 1\<rparr>)"
  by (simp add: trace_blpop_def st_idle_def bl_eval ks_eval strtol_eval)

lemma trace_two_waiters_eval: "trace_two_waiters = Some st_two_waiters"
  unfolding trace_two_waiters_def trace_blpop_eval
  by (simp add: st_idle_def st_two_waiters_def bl_eval ks_eval strtol_eval fun_upd_twist)

lemma push_after_lookup:
  assumes w: "dictFind (db_blockingkeys st) k = Some (r # rest)"
    and ks: "blockingkeys (clients st r) = Some ks"
    and cons: "\<forall>k' \<in> set ks. \<exists>l. dictFind (db_blockingkeys st) k' = Some l \<and>
                 count_list ks k' \<le> count_list l r"
    and q: "querybuf (clients st r) = []"
    and ne: "r \<noteq> cid"
  shows
   "((\<forall>v. fst (lookupKeyWrite (sdb st) k) = Some v \<longrightarrow> obj_type v = REDIS_LIST) \<longrightarrow>
     (\<exists>st'. pushGenericCommand pib head st cid k ele = Some st' \<and>
        sdb st' = snd (lookupKeyWrite (sdb st) k) \<and>
        lookupKey (sdb st') k = fst (lookupKeyWrite (sdb st) k) \<and>
        clients st' r = (clients st r)
           \<lparr>reply := reply (clients st r) @ [''*2'' @ crlf] @ addReplyBulk k @ addReplyBulk ele,
            blockingkeys := None, flag_blocked := False\<rparr> \<and>
        clients st' cid = addReply (clients st cid) shared_cone \<and>
        (\<forall>i. i \<noteq> r \<and> i \<noteq> cid \<longrightarrow> clients st' i = clients st i) \<and>
        blpop_blocked_clients st' = blpop_blocked_clients st - 1 \<and>
        (count_list ks k = 1 \<longrightarrow>
           dictFind (db_blockingkeys st') k = (if rest = [] then None else Some rest)) \<and>
        (\<forall>now c. llenCommand now st' c k =
           replyTo st' c (addReplyLong (case fst (lookupKeyWrite (sdb st) k) of
                                          Some (ListObj l) \<Rightarrow> int (length l) | _ \<Rightarrow> 0))))) \<and>
    (\<forall>v. fst (lookupKeyWrite (sdb st) k) = Some v \<and> obj_type v \<noteq> REDIS_LIST \<longrightarrow>
       pushGenericCommand pib head st cid k ele =
         Some (replyTo (st\<lparr>sdb := snd (lookupKeyWrite (sdb st) k)\<rparr>) cid [shared_wrongtypeerr])) \<and>
    (\<forall>c keys t. \<exists>st2. blockForKeys st c keys t = Some st2 \<and>
       dictFind (db_blockingkeys st2) k = Some ((r # rest) @ replicate (count_list keys k) c))"
proof (intro conjI impI allI)
  assume ty: "\<forall>v. fst (lookupKeyWrite (sdb st) k) = Some v \<longrightarrow> obj_type v = REDIS_LIST"
  from unblockKeys_ok [OF cons] obtain bk where u: "unblockKeys (db_blockingkeys st) r ks = Some bk" ..
  let ?db = "snd (lookupKeyWrite (sdb st) k)"
  let ?mid = "st\<lparr>sdb := ?db, db_blockingkeys := bk,
                 clients := (clients st)(r := (clients st r)
                   \<lparr>reply := reply (clients st r) @ [''*2'' @ crlf] @ addReplyBulk k @ addReplyBulk ele,
                    blockingkeys := None, flag_blocked := False\<rparr>),
                 blpop_blocked_clients := blpop_blocked_clients st - 1\<rparr>"
  let ?st' = "replyTo ?mid cid [shared_cone]"
  have p: "pushGenericCommand pib head st cid k ele = Some ?st'"
    by (rule push_delivers [OF w ks u q ty])
  have c1: "sdb ?st' = ?db" by (simp add: replyTo_def)
  have c2: "lookupKey (sdb ?st') k = fst (lookupKeyWrite (sdb st) k)"
    by (simp add: replyTo_def lookupKeyWrite_def Let_def)
  have c3: "clients ?st' r = (clients st r)
           \<lparr>reply := reply (clients st r) @ [''*2'' @ crlf] @ addReplyBulk k @ addReplyBulk ele,
            blockingkeys := None, flag_blocked := False\<rparr>"
    using ne by (simp add: replyTo_def)
  have c4: "clients ?st' cid = addReply (clients st cid) shared_cone"
    using ne by (simp add: replyTo_def)
  have c5: "\<forall>i. i \<noteq> r \<and> i \<noteq> cid \<longrightarrow> clients ?st' i = clients st i"
    by (simp add: replyTo_def)
  have c6: "blpop_blocked_clients ?st' = blpop_blocked_clients st - 1" by (simp add: replyTo_def)
  have c7: "count_list ks k = 1 \<longrightarrow>
           dictFind (db_blockingkeys ?st') k = (if rest = [] then None else Some rest)"
  proof
    assume "count_list ks k = 1"
    from unblockKeys_once [OF u this w] show
      "dictFind (db_blockingkeys ?st') k = (if rest = [] then None else Some rest)"
      by (simp add: replyTo_def)
  qed
  have c8: "\<forall>now c. llenCommand now ?st' c k =
           replyTo ?st' c (addReplyLong (case fst (lookupKeyWrite (sdb st) k) of
                                          Some (ListObj l) \<Rightarrow> int (length l) | _ \<Rightarrow> 0))"
  proof (intro allI)
    fix now c
    have e: "?st' = ?st'\<lparr>sdb := snd (lookupKeyWrite (sdb st) k)\<rparr>" by (simp add: replyTo_def)
    have "llenCommand now (?st'\<lparr>sdb := snd (lookupKeyWrite (sdb st) k)\<rparr>) c k =
          replyTo (?st'\<lparr>sdb := snd (lookupKeyWrite (sdb st) k)\<rparr>) c
            (case fst (lookupKeyWrite (sdb st) k) of
               None \<Rightarrow> [shared_czero]
             | Some (ListObj l) \<Rightarrow> addReplyLong (int (length l))
             | Some _ \<Rightarrow> [shared_wrongtypeerr])"
      by (rule llen_reply)
    moreover have "(case fst (lookupKeyWrite (sdb st) k) of
               None \<Rightarrow> [shared_czero]
             | Some (ListObj l) \<Rightarrow> addReplyLong (int (length l))
             | Some _ \<Rightarrow> [shared_wrongtypeerr]) =
           addReplyLong (case fst (lookupKeyWrite (sdb st) k) of
                            Some (ListObj l) \<Rightarrow> int (length l) | _ \<Rightarrow> 0)"
      using ty by (auto simp: addReplyLong_def split: option.splits robj.splits)
    ultimately show "llenCommand now ?st' c k =
           replyTo ?st' c (addReplyLong (case fst (lookupKeyWrite (sdb st) k) of
                                          Some (ListObj l) \<Rightarrow> int (length l) | _ \<Rightarrow> 0))"
      using e by simp
  qed
  show "\<exists>st'. pushGenericCommand pib head st cid k ele = Some st' \<and>
        sdb st' = snd (lookupKeyWrite (sdb st) k) \<and>
        lookupKey (sdb st') k = fst (lookupKeyWrite (sdb st) k) \<and>
        clients st' r = (clients st r)
           \<lparr>reply := reply (clients st r) @ [''*2'' @ crlf] @ addReplyBulk k @ addReplyBulk ele,
            blockingkeys := None, flag_blocked := False\<rparr> \<and>
        clients st' cid = addReply (clients st cid) shared_cone \<and>
        (\<forall>i. i \<noteq> r \<and> i \<noteq> cid \<longrightarrow> clients st' i = clients st i) \<and>
        blpop_blocked_clients st' = blpop_blocked_clients st - 1 \<and>
        (count_list ks k = 1 \<longrightarrow>
           dictFind (db_blockingkeys st') k = (if rest = [] then None else Some rest)) \<and>
        (\<forall>now c. llenCommand now st' c k =
           replyTo st' c (addReplyLong (case fst (lookupKeyWrite (sdb st) k) of
                                          Some (ListObj l) \<Rightarrow> int (length l) | _ \<Rightarrow> 0)))"
    by (rule exI [of _ ?st']) (intro conjI p c1 c2 c3 c4 c5 c6 c7 c8)
next
  fix v
  assume "fst (lookupKeyWrite (sdb st) k) = Some v \<and> obj_type v \<noteq> REDIS_LIST"
  thus "pushGenericCommand pib head st cid k ele =
         Some (replyTo (st\<lparr>sdb := snd (lookupKeyWrite (sdb st) k)\<rparr>) cid [shared_wrongtypeerr])"
    by (intro push_wrong_type [of st k v]) simp_all
next
  fix c keys t
  from blockForKeys_tail [of st c keys t k] w
  show "\<exists>st2. blockForKeys st c keys t = Some st2 \<and>
       dictFind (db_blockingkeys st2) k = Some ((r # rest) @ replicate (count_list keys k) c)"
    by auto
qed

lemma lookupKeyWrite_volatile:
  "dictFind (expires db) k \<noteq> None \<Longrightarrow>
   lookupKeyWrite db k =
     (None, db\<lparr>dict := snd (dictDelete (dict db) k), expires := snd (dictDelete (expires db) k)\<rparr>)"
  by (auto simp: lookupKeyWrite_def lookupKey_def deleteIfVolatile_cases dictFind_dictDelete)


text \<open>
  Claim C7 (amended).  A client \<open>cid\<close> sends LPUSH or RPUSH of an element to a key \<open>k\<close> on
  which clients are blocked, \<open>r\<close> being the first of the list of waiters; \<open>r\<close> is another
  client, its query buffer is empty, and it is in the list of waiters of each of its keys as
  often as the key occurs among them.  The outcome depends on what the keyspace holds at
  \<open>k\<close> before the push:

  \<^item> \<open>k\<close> has an expiry set, whatever it holds: the write lookup of the push deletes the key
    with its expiry, the element is not stored, \<open>r\<close> is served, and LLEN then replies \<open>:0\<close>;
  \<^item> \<open>k\<close> has no expiry and is absent or holds a list: the keyspace is left as it was, the
    element is not stored, \<open>r\<close> is served, and LLEN then reports the length the list had
    before the push, which is 0 when the key was absent;
  \<^item> \<open>k\<close> has no expiry and holds a value of another type: the push is answered with the wrong
    type error and nothing else changes: no waiter is served.

  That \<open>r\<close> is served means: \<open>r\<close> receives \<open>*2\<close>, the key and the element as bulk
  replies, is no longer blocked and has no blocking keys; the pusher is answered \<open>:1\<close>; no
  other client changes; the count of blocked clients goes down by one; and the rest of the
  waiters of \<open>k\<close> stay, in order, when \<open>k\<close> occurs once among the keys of \<open>r\<close>.
  A client that blocks is put behind the waiters already there, so the first waiter is the
  oldest.
\<close>
theorem push_to_blocked_key:
  assumes w: "dictFind (db_blockingkeys st) k = Some (r # rest)"
    and ks: "blockingkeys (clients st r) = Some ks"
    and cons: "\<forall>k' \<in> set ks. \<exists>l. dictFind (db_blockingkeys st) k' = Some l \<and>
                 count_list ks k' \<le> count_list l r"
    and q: "querybuf (clients st r) = []"
    and ne: "r \<noteq> cid"
  shows
   "(dictFind (expires (sdb st)) k \<noteq> None \<longrightarrow>
     (\<exists>st'. pushGenericCommand pib head st cid k ele = Some st' \<and>
        sdb st' = (sdb st)\<lparr>dict := snd (dictDelete (dict (sdb st)) k),
                           expires := snd (dictDelete (expires (sdb st)) k)\<rparr> \<and>
        lookupKey (sdb st') k = None \<and>
        dictFind (expires (sdb st')) k = None \<and>
        clients st' r = (clients st r)
           \<lparr>reply := reply (clients st r) @ [''*2'' @ crlf] @ addReplyBulk k @ addReplyBulk ele,
            blockingkeys := None, flag_blocked := False\<rparr> \<and>
        clients st' cid = addReply (clients st cid) shared_cone \<and>
        (\<forall>i. i \<noteq> r \<and> i \<noteq> cid \<longrightarrow> clients st' i = clients st i) \<and>
        blpop_blocked_clients st' = blpop_blocked_clients st - 1 \<and>
        (count_list ks k = 1 \<longrightarrow>
           dictFind (db_blockingkeys st') k = (if rest = [] then None else Some rest)) \<and>
        (\<forall>now c. llenCommand now st' c k = replyTo st' c [shared_czero]))) \<and>
    (dictFind (expires (sdb st)) k = None \<and>
     (\<forall>v. lookupKey (sdb st) k = Some v \<longrightarrow> obj_type v = REDIS_LIST) \<longrightarrow>
     (\<exists>st'. pushGenericCommand pib head st cid k ele = Some st' \<and>
        sdb st' = sdb st \<and>
        clients st' r = (clients st r)
           \<lparr>reply := reply (clients st r) @ [''*2'' @ crlf] @ addReplyBulk k @ addReplyBulk ele,
            blockingkeys := None, flag_blocked := False\<rparr> \<and>
        clients st' cid = addReply (clients st cid) shared_cone \<and>
        (\<forall>i. i \<noteq> r \<and> i \<noteq> cid \<longrightarrow> clients st' i = clients st i) \<and>
        blpop_blocked_clients st' = blpop_blocked_clients st - 1 \<and>
        (count_list ks k = 1 \<longrightarrow>
           dictFind (db_blockingkeys st') k = (if rest = [] then None else Some rest)) \<and>
        (\<forall>now c. llenCommand now st' c k =
           replyTo st' c (addReplyLong (case lookupKey (sdb st) k of
                                          Some (ListObj l) \<Rightarrow> int (length l) | _ \<Rightarrow> 0))))) \<and>
    (\<forall>v. dictFind (expires (sdb st)) k = None \<and> lookupKey (sdb st) k = Some v \<and>
         obj_type v \<noteq> REDIS_LIST \<longrightarrow>
       pushGenericCommand pib head st cid k ele = Some (replyTo st cid [shared_wrongtypeerr])) \<and>
    (\<forall>c keys t. \<exists>st2. blockForKeys st c keys t = Some st2 \<and>
       dictFind (db_blockingkeys st2) k = Some ((r # rest) @ replicate (count_list keys k) c))"
proof -
  note P = push_after_lookup [OF w ks cons q ne, where pib = pib and head = head and ele = ele]
  have V: "\<exists>st'. pushGenericCommand pib head st cid k ele = Some st' \<and>
        sdb st' = (sdb st)\<lparr>dict := snd (dictDelete (dict (sdb st)) k),
                           expires := snd (dictDelete (expires (sdb st)) k)\<rparr> \<and>
        lookupKey (sdb st') k = None \<and>
        dictFind (expires (sdb st')) k = None \<and>
        clients st' r = (clients st r)
           \<lparr>reply := reply (clients st r) @ [''*2'' @ crlf] @ addReplyBulk k @ addReplyBulk ele,
            blockingkeys := None, flag_blocked := False\<rparr> \<and>
        clients st' cid = addReply (clients st cid) shared_cone \<and>
        (\<forall>i. i \<noteq> r \<and> i \<noteq> cid \<longrightarrow> clients st' i = clients st i) \<and>
        blpop_blocked_clients st' = blpop_blocked_clients st - 1 \<and>
        (count_list ks k = 1 \<longrightarrow>
           dictFind (db_blockingkeys st') k = (if rest = [] then None else Some rest)) \<and>
        (\<forall>now c. llenCommand now st' c k = replyTo st' c [shared_czero])"
    if v: "dictFind (expires (sdb st)) k \<noteq> None"
  proof -
    note lw = lookupKeyWrite_volatile [OF v]
    have ty: "\<forall>v. fst (lookupKeyWrite (sdb st) k) = Some v \<longrightarrow> obj_type v = REDIS_LIST"
      unfolding lw by simp
    from P [THEN conjunct1, THEN mp, OF ty]
    obtain st' where p: "pushGenericCommand pib head st cid k ele = Some st'"
      and c1: "sdb st' = snd (lookupKeyWrite (sdb st) k)"
      and c2: "lookupKey (sdb st') k = fst (lookupKeyWrite (sdb st) k)"
      and c3: "clients st' r = (clients st r)
           \<lparr>reply := reply (clients st r) @ [''*2'' @ crlf] @ addReplyBulk k @ addReplyBulk ele,
            blockingkeys := None, flag_blocked := False\<rparr>"
      and c4: "clients st' cid = addReply (clients st cid) shared_cone"
      and c5: "\<forall>i. i \<noteq> r \<and> i \<noteq> cid \<longrightarrow> clients st' i = clients st i"
      and c6: "blpop_blocked_clients st' = blpop_blocked_clients st - 1"
      and c7: "count_list ks k = 1 \<longrightarrow>
           dictFind (db_blockingkeys st') k = (if rest = [] then None else Some rest)"
      and c8: "\<forall>now c. llenCommand now st' c k =
           replyTo st' c (addReplyLong (case fst (lookupKeyWrite (sdb st) k) of
                                          Some (ListObj l) \<Rightarrow> int (length l) | _ \<Rightarrow> 0))"
      by (elim exE conjE)
    have d1: "sdb st' = (sdb st)\<lparr>dict := snd (dictDelete (dict (sdb st)) k),
                           expires := snd (dictDelete (expires (sdb st)) k)\<rparr>"
      using c1 unfolding lw by simp
    have d2: "lookupKey (sdb st') k = None" using c2 unfolding lw by simp
    have d3: "dictFind (expires (sdb st')) k = None" unfolding d1 by (simp add: dictFind_dictDelete)
    have d8: "\<forall>now c. llenCommand now st' c k = replyTo st' c [shared_czero]"
      using c8 unfolding lw by (simp add: addReplyLong_def)
    show ?thesis
      by (rule exI [of _ st']) (intro conjI p d1 d2 d3 c3 c4 c5 c6 c7 d8)
  qed
  have L: "\<exists>st'. pushGenericCommand pib head st cid k ele = Some st' \<and>
        sdb st' = sdb st \<and>
        clients st' r = (clients st r)
           \<lparr>reply := reply (clients st r) @ [''*2'' @ crlf] @ addReplyBulk k @ addReplyBulk ele,
            blockingkeys := None, flag_blocked := False\<rparr> \<and>
        clients st' cid = addReply (clients st cid) shared_cone \<and>
        (\<forall>i. i \<noteq> r \<and> i \<noteq> cid \<longrightarrow> clients st' i = clients st i) \<and>
        blpop_blocked_clients st' = blpop_blocked_clients st - 1 \<and>
        (count_list ks k = 1 \<longrightarrow>
           dictFind (db_blockingkeys st') k = (if rest = [] then None else Some rest)) \<and>
        (\<forall>now c. llenCommand now st' c k =
           replyTo st' c (addReplyLong (case lookupKey (sdb st) k of
                                          Some (ListObj l) \<Rightarrow> int (length l) | _ \<Rightarrow> 0)))"
    if h: "dictFind (expires (sdb st)) k = None \<and>
           (\<forall>v. lookupKey (sdb st) k = Some v \<longrightarrow> obj_type v = REDIS_LIST)"
  proof -
    from h have e: "dictFind (expires (sdb st)) k = None"
      and l: "\<forall>v. lookupKey (sdb st) k = Some v \<longrightarrow> obj_type v = REDIS_LIST" by simp_all
    have lw: "lookupKeyWrite (sdb st) k = (lookupKey (sdb st) k, sdb st)"
      using lookupKeyWrite_plain [OF e] by (simp add: lookupKey_def)
    have ty: "\<forall>v. fst (lookupKeyWrite (sdb st) k) = Some v \<longrightarrow> obj_type v = REDIS_LIST"
      unfolding lw using l by simp
    from P [THEN conjunct1, THEN mp, OF ty]
    obtain st' where p: "pushGenericCommand pib head st cid k ele = Some st'"
      and c1: "sdb st' = snd (lookupKeyWrite (sdb st) k)"
      and c2: "lookupKey (sdb st') k = fst (lookupKeyWrite (sdb st) k)"
      and c3: "clients st' r = (clients st r)
           \<lparr>reply := reply (clients st r) @ [''*2'' @ crlf] @ addReplyBulk k @ addReplyBulk ele,
            blockingkeys := None, flag_blocked := False\<rparr>"
      and c4: "clients st' cid = addReply (clients st cid) shared_cone"
      and c5: "\<forall>i. i \<noteq> r \<and> i \<noteq> cid \<longrightarrow> clients st' i = clients st i"
      and c6: "blpop_blocked_clients st' = blpop_blocked_clients st - 1"
      and c7: "count_list ks k = 1 \<longrightarrow>
           dictFind (db_blockingkeys st') k = (if rest = [] then None else Some rest)"
      and c8: "\<forall>now c. llenCommand now st' c k =
           replyTo st' c (addReplyLong (case fst (lookupKeyWrite (sdb st) k) of
                                          Some (ListObj l) \<Rightarrow> int (length l) | _ \<Rightarrow> 0))"
      by (elim exE conjE)
    have d1: "sdb st' = sdb st" using c1 unfolding lw by simp
    have d8: "\<forall>now c. llenCommand now st' c k =
           replyTo st' c (addReplyLong (case lookupKey (sdb st) k of
                                          Some (ListObj l) \<Rightarrow> int (length l) | _ \<Rightarrow> 0))"
      using c8 unfolding lw by simp
    show ?thesis
      by (rule exI [of _ st']) (intro conjI p d1 c3 c4 c5 c6 c7 d8)
  qed
  have W: "pushGenericCommand pib head st cid k ele = Some (replyTo st cid [shared_wrongtypeerr])"
    if h: "dictFind (expires (sdb st)) k = None \<and> lookupKey (sdb st) k = Some v \<and>
           obj_type v \<noteq> REDIS_LIST" for v
  proof -
    from h have e: "dictFind (expires (sdb st)) k = None"
      and l: "lookupKey (sdb st) k = Some v" and t: "obj_type v \<noteq> REDIS_LIST" by simp_all
    have lw: "lookupKeyWrite (sdb st) k = (lookupKey (sdb st) k, sdb st)"
      using lookupKeyWrite_plain [OF e] by (simp add: lookupKey_def)
    have "fst (lookupKeyWrite (sdb st) k) = Some v \<and> obj_type v \<noteq> REDIS_LIST"
      unfolding lw using l t by simp
    from P [THEN conjunct2, THEN conjunct1, THEN spec, THEN mp, OF this]
    show ?thesis unfolding lw by simp
  qed
  note B = P [THEN conjunct2, THEN conjunct2]
  show ?thesis
    apply (intro conjI impI allI)
    subgoal by (rule V)
    subgoal by (rule L)
    subgoal by (rule W)
    subgoal by (rule B [THEN spec, THEN spec, THEN spec])
    done
qed


theorem push_to_blocked_key_witness:
  "trace_two_waiters = Some st_two_waiters \<and>
   (\<exists>st'. pushGenericCommand pib_unused True st_two_waiters 1 ''k'' ''y'' = Some st' \<and>
      sdb st' = emptyDb \<and>
      reply (clients st' 0) = [''*2'' @ crlf, ''$1'' @ crlf, ''k'', crlf, ''$1'' @ crlf, ''y'', crlf] \<and>
      \<not> flag_blocked (clients st' 0) \<and> blockingkeys (clients st' 0) = None \<and>
      reply (clients st' 1) = [shared_cone] \<and>
      clients st' 2 = clients st_two_waiters 2 \<and>
      blpop_blocked_clients st' = 1 \<and>
      dictFind (db_blockingkeys st') ''k'' = Some [2] \<and>
      reply (clients (llenCommand 102 st' 1 ''k'') 1) = [shared_cone, shared_czero]) \<and>
   (\<exists>st'. pushGenericCommand pib_unused True
             (st_two_waiters\<lparr>sdb := \<lparr>dict = [(''k'', ListObj [''x''])], expires = []\<rparr>\<rparr>) 1 ''k'' ''y''
           = Some st' \<and>
      sdb st' = \<lparr>dict = [(''k'', ListObj [''x''])], expires = []\<rparr> \<and>
      reply (clients st' 0) = [''*2'' @ crlf, ''$1'' @ crlf, ''k'', crlf, ''$1'' @ crlf, ''y'', crlf] \<and>
      \<not> flag_blocked (clients st' 0) \<and>
      reply (clients st' 1) = [shared_cone] \<and>
      dictFind (db_blockingkeys st') ''k'' = Some [2] \<and>
      reply (clients (llenCommand 102 st' 1 ''k'') 1) = [shared_cone, shared_cone]) \<and>
   (\<exists>st'. pushGenericCommand pib_unused True (st_two_waiters\<lparr>sdb := db_k_2000\<rparr>) 1 ''k'' ''y'' = Some st' \<and>
      sdb st' = emptyDb \<and>
      reply (clients st' 0) = [''*2'' @ crlf, ''$1'' @ crlf, ''k'', crlf, ''$1'' @ crlf, ''y'', crlf] \<and>
      \<not> flag_blocked (clients st' 0) \<and>
      reply (clients st' 1) = [shared_cone] \<and>
      dictFind (db_blockingkeys st') ''k'' = Some [2] \<and>
      reply (clients (llenCommand 102 st' 1 ''k'') 1) = [shared_cone, shared_czero]) \<and>
   pushGenericCommand pib_unused True (st_two_waiters\<lparr>sdb := db_plain_k\<rparr>) 1 ''k'' ''y'' =
     Some (replyTo (st_two_waiters\<lparr>sdb := db_plain_k\<rparr>) 1 [shared_wrongtypeerr]) \<and>
   (\<exists>st2. blockForKeys st_two_waiters 3 [''k''] 0 = Some st2 \<and>
      dictFind (db_blockingkeys st2) ''k'' = Some [0, 2, 3])"
proof -
  have w: "\<And>db. dictFind (db_blockingkeys (st_two_waiters\<lparr>sdb := db\<rparr>)) ''k'' = Some (0 # [2])"
    by (simp add: st_two_waiters_def dictFind_def)
  have ks: "\<And>db. blockingkeys (clients (st_two_waiters\<lparr>sdb := db\<rparr>) 0) = Some [''k'']"
    by (simp add: st_two_waiters_def createClient_def)
  have cons: "\<And>db. \<forall>k' \<in> set [''k'']. \<exists>l. dictFind (db_blockingkeys (st_two_waiters\<lparr>sdb := db\<rparr>)) k' = Some l \<and>
                 count_list [''k''] k' \<le> count_list l 0"
    by (simp add: st_two_waiters_def dictFind_def)
  have q: "\<And>db. querybuf (clients (st_two_waiters\<lparr>sdb := db\<rparr>) 0) = []"
    by (simp add: st_two_waiters_def createClient_def)
  have ne: "(0::nat) \<noteq> 1" by simp
  have same: "st_two_waiters\<lparr>sdb := emptyDb\<rparr> = st_two_waiters"
    by (simp add: st_two_waiters_def)
  note T = push_to_blocked_key [OF w ks cons q ne, where pib = pib_unused and head = True and ele = "''y''"]
  have cl: "reply (clients st_two_waiters 0) = []" "reply (clients st_two_waiters 1) = []"
    "reply (clients st_two_waiters (Suc 0)) = []"
    "blpop_blocked_clients st_two_waiters = 2"
    by (simp_all add: st_two_waiters_def createClient_def)
  have bulk: "[''*2'' @ crlf] @ addReplyBulk ''k'' @ addReplyBulk ''y'' =
              [''*2'' @ crlf, ''$1'' @ crlf, ''k'', crlf, ''$1'' @ crlf, ''y'', crlf]"
    by (simp add: addReplyBulk_def dec_eval)
  have one: "count_list [''k''] ''k'' = 1" by simp
  have r2: "\<exists>st'. pushGenericCommand pib_unused True st_two_waiters 1 ''k'' ''y'' = Some st' \<and>
      sdb st' = emptyDb \<and>
      reply (clients st' 0) = [''*2'' @ crlf, ''$1'' @ crlf, ''k'', crlf, ''$1'' @ crlf, ''y'', crlf] \<and>
      \<not> flag_blocked (clients st' 0) \<and> blockingkeys (clients st' 0) = None \<and>
      reply (clients st' 1) = [shared_cone] \<and>
      clients st' 2 = clients st_two_waiters 2 \<and>
      blpop_blocked_clients st' = 1 \<and>
      dictFind (db_blockingkeys st') ''k'' = Some [2] \<and>
      reply (clients (llenCommand 102 st' 1 ''k'') 1) = [shared_cone, shared_czero]"
  proof -
    have h: "dictFind (expires (sdb (st_two_waiters\<lparr>sdb := emptyDb\<rparr>))) ''k'' = None \<and>
          (\<forall>v. lookupKey (sdb (st_two_waiters\<lparr>sdb := emptyDb\<rparr>)) ''k'' = Some v \<longrightarrow> obj_type v = REDIS_LIST)"
      by (simp add: emptyDb_def lookupKey_def dictFind_def)
    from T [of emptyDb, THEN conjunct2, THEN conjunct1, THEN mp, OF h]
    obtain st' where p: "pushGenericCommand pib_unused True (st_two_waiters\<lparr>sdb := emptyDb\<rparr>) 1 ''k'' ''y'' = Some st'"
      and c1: "sdb st' = sdb (st_two_waiters\<lparr>sdb := emptyDb\<rparr>)"
      and c3: "clients st' 0 = (clients (st_two_waiters\<lparr>sdb := emptyDb\<rparr>) 0)
           \<lparr>reply := reply (clients (st_two_waiters\<lparr>sdb := emptyDb\<rparr>) 0) @ [''*2'' @ crlf] @ addReplyBulk ''k'' @ addReplyBulk ''y'',
            blockingkeys := None, flag_blocked := False\<rparr>"
      and c4: "clients st' 1 = addReply (clients (st_two_waiters\<lparr>sdb := emptyDb\<rparr>) 1) shared_cone"
      and c5: "\<forall>i. i \<noteq> 0 \<and> i \<noteq> 1 \<longrightarrow> clients st' i = clients (st_two_waiters\<lparr>sdb := emptyDb\<rparr>) i"
      and c6: "blpop_blocked_clients st' = blpop_blocked_clients (st_two_waiters\<lparr>sdb := emptyDb\<rparr>) - 1"
      and c7: "count_list [''k''] ''k'' = 1 \<longrightarrow>
           dictFind (db_blockingkeys st') ''k'' = (if [2::nat] = [] then None else Some [2])"
      and c8: "\<forall>now c. llenCommand now st' c ''k'' =
           replyTo st' c (addReplyLong (case lookupKey (sdb (st_two_waiters\<lparr>sdb := emptyDb\<rparr>)) ''k'' of
                                          Some (ListObj l) \<Rightarrow> int (length l) | _ \<Rightarrow> 0))"
      by (elim exE conjE)
    have p': "pushGenericCommand pib_unused True st_two_waiters 1 ''k'' ''y'' = Some st'"
      using p unfolding same .
    have d1: "sdb st' = emptyDb" using c1 by simp
    have d2: "reply (clients st' 0) = [''*2'' @ crlf, ''$1'' @ crlf, ''k'', crlf, ''$1'' @ crlf, ''y'', crlf]"
      unfolding c3 using bulk by (simp add: cl)
    have d3: "\<not> flag_blocked (clients st' 0)" unfolding c3 by simp
    have d4: "blockingkeys (clients st' 0) = None" unfolding c3 by simp
    have d5: "reply (clients st' 1) = [shared_cone]" unfolding c4 by (simp add: addReply_def cl)
    have d6: "clients st' 2 = clients st_two_waiters 2" using c5 by simp
    have d7: "blpop_blocked_clients st' = 1" unfolding c6 by (simp add: cl)
    have d8: "dictFind (db_blockingkeys st') ''k'' = Some [2]" using c7 one by simp
    have d9: "reply (clients (llenCommand 102 st' 1 ''k'') 1) = [shared_cone, shared_czero]"
      using c8 d5 by (simp add: replyTo_def addReplyLong_def addReply_def foldl_addReply emptyDb_def lookupKey_def dictFind_def)
    show ?thesis by (rule exI [of _ st']) (intro conjI p' d1 d2 d3 d4 d5 d6 d7 d8 d9)
  qed
  let ?dl = "\<lparr>dict = [(''k'', ListObj [''x''])], expires = []\<rparr>"
  have r3: "\<exists>st'. pushGenericCommand pib_unused True (st_two_waiters\<lparr>sdb := ?dl\<rparr>) 1 ''k'' ''y'' = Some st' \<and>
      sdb st' = ?dl \<and>
      reply (clients st' 0) = [''*2'' @ crlf, ''$1'' @ crlf, ''k'', crlf, ''$1'' @ crlf, ''y'', crlf] \<and>
      \<not> flag_blocked (clients st' 0) \<and>
      reply (clients st' 1) = [shared_cone] \<and>
      dictFind (db_blockingkeys st') ''k'' = Some [2] \<and>
      reply (clients (llenCommand 102 st' 1 ''k'') 1) = [shared_cone, shared_cone]"
  proof -
    have h: "dictFind (expires (sdb (st_two_waiters\<lparr>sdb := ?dl\<rparr>))) ''k'' = None \<and>
          (\<forall>v. lookupKey (sdb (st_two_waiters\<lparr>sdb := ?dl\<rparr>)) ''k'' = Some v \<longrightarrow> obj_type v = REDIS_LIST)"
      by (simp add: lookupKey_def dictFind_def)
    from T [of ?dl, THEN conjunct2, THEN conjunct1, THEN mp, OF h]
    obtain st' where p: "pushGenericCommand pib_unused True (st_two_waiters\<lparr>sdb := ?dl\<rparr>) 1 ''k'' ''y'' = Some st'"
      and c1: "sdb st' = sdb (st_two_waiters\<lparr>sdb := ?dl\<rparr>)"
      and c3: "clients st' 0 = (clients (st_two_waiters\<lparr>sdb := ?dl\<rparr>) 0)
           \<lparr>reply := reply (clients (st_two_waiters\<lparr>sdb := ?dl\<rparr>) 0) @ [''*2'' @ crlf] @ addReplyBulk ''k'' @ addReplyBulk ''y'',
            blockingkeys := None, flag_blocked := False\<rparr>"
      and c4: "clients st' 1 = addReply (clients (st_two_waiters\<lparr>sdb := ?dl\<rparr>) 1) shared_cone"
      and c7: "count_list [''k''] ''k'' = 1 \<longrightarrow>
           dictFind (db_blockingkeys st') ''k'' = (if [2::nat] = [] then None else Some [2])"
      and c8: "\<forall>now c. llenCommand now st' c ''k'' =
           replyTo st' c (addReplyLong (case lookupKey (sdb (st_two_waiters\<lparr>sdb := ?dl\<rparr>)) ''k'' of
                                          Some (ListObj l) \<Rightarrow> int (length l) | _ \<Rightarrow> 0))"
      by (elim exE conjE)
    have d1: "sdb st' = ?dl" using c1 by simp
    have d2: "reply (clients st' 0) = [''*2'' @ crlf, ''$1'' @ crlf, ''k'', crlf, ''$1'' @ crlf, ''y'', crlf]"
      unfolding c3 using bulk by (simp add: cl)
    have d3: "\<not> flag_blocked (clients st' 0)" unfolding c3 by simp
    have d5: "reply (clients st' 1) = [shared_cone]" unfolding c4 by (simp add: addReply_def cl)
    have d8: "dictFind (db_blockingkeys st') ''k'' = Some [2]" using c7 one by simp
    have d9: "reply (clients (llenCommand 102 st' 1 ''k'') 1) = [shared_cone, shared_cone]"
      using c8 d5 by (simp add: replyTo_def addReplyLong_def addReply_def foldl_addReply lookupKey_def dictFind_def)
    show ?thesis by (rule exI [of _ st']) (intro conjI p d1 d2 d3 d5 d8 d9)
  qed
  have r4: "\<exists>st'. pushGenericCommand pib_unused True (st_two_waiters\<lparr>sdb := db_k_2000\<rparr>) 1 ''k'' ''y'' = Some st' \<and>
      sdb st' = emptyDb \<and>
      reply (clients st' 0) = [''*2'' @ crlf, ''$1'' @ crlf, ''k'', crlf, ''$1'' @ crlf, ''y'', crlf] \<and>
      \<not> flag_blocked (clients st' 0) \<and>
      reply (clients st' 1) = [shared_cone] \<and>
      dictFind (db_blockingkeys st') ''k'' = Some [2] \<and>
      reply (clients (llenCommand 102 st' 1 ''k'') 1) = [shared_cone, shared_czero]"
  proof -
    have h: "dictFind (expires (sdb (st_two_waiters\<lparr>sdb := db_k_2000\<rparr>))) ''k'' \<noteq> None"
      by (simp add: db_k_2000_def dictFind_def)
    from T [of db_k_2000, THEN conjunct1, THEN mp, OF h]
    obtain st' where p: "pushGenericCommand pib_unused True (st_two_waiters\<lparr>sdb := db_k_2000\<rparr>) 1 ''k'' ''y'' = Some st'"
      and c1: "sdb st' = (sdb (st_two_waiters\<lparr>sdb := db_k_2000\<rparr>))
                 \<lparr>dict := snd (dictDelete (dict (sdb (st_two_waiters\<lparr>sdb := db_k_2000\<rparr>))) ''k''),
                  expires := snd (dictDelete (expires (sdb (st_two_waiters\<lparr>sdb := db_k_2000\<rparr>))) ''k'')\<rparr>"
      and c3: "clients st' 0 = (clients (st_two_waiters\<lparr>sdb := db_k_2000\<rparr>) 0)
           \<lparr>reply := reply (clients (st_two_waiters\<lparr>sdb := db_k_2000\<rparr>) 0) @ [''*2'' @ crlf] @ addReplyBulk ''k'' @ addReplyBulk ''y'',
            blockingkeys := None, flag_blocked := False\<rparr>"
      and c4: "clients st' 1 = addReply (clients (st_two_waiters\<lparr>sdb := db_k_2000\<rparr>) 1) shared_cone"
      and c7: "count_list [''k''] ''k'' = 1 \<longrightarrow>
           dictFind (db_blockingkeys st') ''k'' = (if [2::nat] = [] then None else Some [2])"
      and c8: "\<forall>now c. llenCommand now st' c ''k'' = replyTo st' c [shared_czero]"
      by (elim exE conjE)
    have d1: "sdb st' = emptyDb" using c1 by (simp add: db_k_2000_def emptyDb_def ks_eval)
    have d2: "reply (clients st' 0) = [''*2'' @ crlf, ''$1'' @ crlf, ''k'', crlf, ''$1'' @ crlf, ''y'', crlf]"
      unfolding c3 using bulk by (simp add: cl)
    have d3: "\<not> flag_blocked (clients st' 0)" unfolding c3 by simp
    have d5: "reply (clients st' 1) = [shared_cone]" unfolding c4 by (simp add: addReply_def cl)
    have d8: "dictFind (db_blockingkeys st') ''k'' = Some [2]" using c7 one by simp
    have d9: "reply (clients (llenCommand 102 st' 1 ''k'') 1) = [shared_cone, shared_czero]"
      using c8 d5 by (simp add: replyTo_def addReply_def foldl_addReply)
    show ?thesis by (rule exI [of _ st']) (intro conjI p d1 d2 d3 d5 d8 d9)
  qed
  have r5: "pushGenericCommand pib_unused True (st_two_waiters\<lparr>sdb := db_plain_k\<rparr>) 1 ''k'' ''y'' =
     Some (replyTo (st_two_waiters\<lparr>sdb := db_plain_k\<rparr>) 1 [shared_wrongtypeerr])"
  proof -
    have h: "dictFind (expires (sdb (st_two_waiters\<lparr>sdb := db_plain_k\<rparr>))) ''k'' = None \<and>
             lookupKey (sdb (st_two_waiters\<lparr>sdb := db_plain_k\<rparr>)) ''k'' = Some (StringObj (Raw ''old'')) \<and>
             obj_type (StringObj (Raw ''old'')) \<noteq> REDIS_LIST"
      by (simp add: db_plain_k_def lookupKey_def dictFind_def)
    show ?thesis
      by (rule T [of db_plain_k, THEN conjunct2, THEN conjunct2, THEN conjunct1, THEN spec, THEN mp, OF h])
  qed
  have r6: "\<exists>st2. blockForKeys st_two_waiters 3 [''k''] 0 = Some st2 \<and>
      dictFind (db_blockingkeys st2) ''k'' = Some [0, 2, 3]"
    using T [of emptyDb, THEN conjunct2, THEN conjunct2, THEN conjunct2, THEN spec, THEN spec, THEN spec,
             of 3 "[''k'']" 0]
    unfolding same by simp
  show ?thesis
    by (intro conjI trace_two_waiters_eval r2 r3 r4 r5 r6)
qed


text \<open>
  Client 0 is blocked on k after BLPOP k 0.  When client 1 sends RPUSH other x, RENAME other k
  and LPUSH k y, the element y is handed to client 0 while the list at k holds x, and LLEN k
  answers 1.  When client 1 sends SET k v and LPUSH k y instead, the push is answered with the
  wrong type error and client 0 stays blocked with no reply.
\<close>
theorem push_to_blocked_key_counterexample:
  "map_option (\<lambda>st. flag_blocked (clients st 0)) trace_blpop = Some True \<and>
   map_option (\<lambda>st. dictFind (db_blockingkeys st) ''k'') trace_blpop = Some (Some [0]) \<and>
   map_option (\<lambda>st. reply (clients st 0)) trace_rename =
     Some [''*2'' @ crlf, ''$1'' @ crlf, ''k'', crlf, ''$1'' @ crlf, ''y'', crlf] \<and>
   map_option (\<lambda>st. lookupKey (sdb st) ''k'') trace_rename = Some (Some (ListObj [''x''])) \<and>
   map_option (\<lambda>st. reply (clients (llenCommand 102 st 1 ''k'') 1)) trace_rename =
     Some [shared_cone, shared_ok, shared_cone, shared_cone] \<and>
   map_option (\<lambda>st. reply (clients st 1)) trace_set = Some [shared_ok, shared_wrongtypeerr] \<and>
   map_option (\<lambda>st. reply (clients st 0)) trace_set = Some [] \<and>
   map_option (\<lambda>st. flag_blocked (clients st 0)) trace_set = Some True \<and>
   map_option (\<lambda>st. dictFind (db_blockingkeys st) ''k'') trace_set = Some (Some [0])"
proof -
  have a: "map_option (\<lambda>st. flag_blocked (clients st 0)) trace_blpop = Some True"
    unfolding trace_blpop_eval by (simp add: createClient_def)
  have b: "map_option (\<lambda>st. dictFind (db_blockingkeys st) ''k'') trace_blpop = Some (Some [0])"
    unfolding trace_blpop_eval by (simp add: dictFind_def)
  have rn: "trace_rename = Some
     \<lparr>sdb = \<lparr>dict = [(''k'', ListObj [''x''])], expires = []\<rparr>, db_blockingkeys = [],
      clients = (\<lambda>i. createClient [])
        (0 := (createClient [])\<lparr>reply := [''*2'' @ crlf, ''$1'' @ crlf, ''k'', crlf, ''$1'' @ crlf, ''y'', crlf]\<rparr>,
         1 := (createClient [])\<lparr>reply := [shared_cone, shared_ok, shared_cone]\<rparr>),
      blpop_blocked_clients = 0\<rparr>"
    unfolding trace_rename_def trace_blpop_eval
    by (simp add: st_idle_def bl_eval ks_eval renameGenericCommand_def int_cast_id dec_eval
          shared_cone_def unblockKeys.simps)
  have st: "trace_set = Some
     \<lparr>sdb = \<lparr>dict = [(''k'', StringObj (Raw ''v''))], expires = []\<rparr>,
      db_blockingkeys = [(''k'', [0])],
      clients = (\<lambda>i. createClient [])
        (0 := (createClient [])\<lparr>flag_blocked := True, blockingkeys := Some [''k''], blockingto := 0\<rparr>,
         1 := (createClient [])\<lparr>reply := [shared_ok, shared_wrongtypeerr]\<rparr>),
      blpop_blocked_clients = 1\<rparr>"
    unfolding trace_set_def trace_blpop_eval
    by (simp add: st_idle_def bl_eval ks_eval setCommand_def setGenericCommand_def)
  have c: "map_option (\<lambda>st. reply (clients st 0)) trace_rename =
     Some [''*2'' @ crlf, ''$1'' @ crlf, ''k'', crlf, ''$1'' @ crlf, ''y'', crlf]"
    unfolding rn by (simp add: createClient_def)
  have d: "map_option (\<lambda>st. lookupKey (sdb st) ''k'') trace_rename = Some (Some (ListObj [''x'']))"
    unfolding rn by (simp add: lookupKey_def dictFind_def)
  have e: "map_option (\<lambda>st. reply (clients (llenCommand 102 st 1 ''k'') 1)) trace_rename =
     Some [shared_cone, shared_ok, shared_cone, shared_cone]"
    unfolding rn by (simp add: bl_eval ks_eval)
  have f: "map_option (\<lambda>st. reply (clients st 1)) trace_set = Some [shared_ok, shared_wrongtypeerr]"
    unfolding st by (simp add: createClient_def)
  have g: "map_option (\<lambda>st. reply (clients st 0)) trace_set = Some []"
    unfolding st by (simp add: createClient_def)
  have h: "map_option (\<lambda>st. flag_blocked (clients st 0)) trace_set = Some True"
    unfolding st by (simp add: createClient_def)
  have i: "map_option (\<lambda>st. dictFind (db_blockingkeys st) ''k'') trace_set = Some (Some [0])"
    unfolding st by (simp add: dictFind_def)
  from a b c d e f g h i show ?thesis by (intro conjI)
qed

end
